theory Spec2Isabelle
  imports Main "HOL-Library.Char_ord" "HOL-Library.List_Lexorder"
begin

section \<open>Python strings\<close>

text \<open>
  A Python \<open>str\<close> is modelled as a \<open>string\<close>; the characters are the code points
  below 256. The functions of this section are the string methods the controller
  and the media player call.
\<close>

text \<open>\<open>s.startswith(p)\<close>\<close>

definition startswith :: "string \<Rightarrow> string \<Rightarrow> bool" where
  "startswith s p = (take (length p) s = p)"

text \<open>
  The characters \<open>str.strip()\<close> removes: those for which \<open>str.isspace()\<close> holds.
\<close>

definition is_space :: "char \<Rightarrow> bool" where
  "is_space c = (of_char c \<in> {9::nat, 10, 11, 12, 13, 28, 29, 30, 31, 32, 133, 160})"

text \<open>\<open>s.strip()\<close>\<close>

definition strip :: "string \<Rightarrow> string" where
  "strip s = rev (dropWhile is_space (rev (dropWhile is_space s)))"

text \<open>\<open>s.split(c)\<close> for a separator of one character: never an empty list.\<close>

fun split_on :: "char \<Rightarrow> string \<Rightarrow> string list" where
  "split_on c [] = [[]]"
| "split_on c (x # xs) =
     (if x = c then [] # split_on c xs
      else (case split_on c xs of [] \<Rightarrow> [[x]] | w # ws \<Rightarrow> (x # w) # ws))"

text \<open>\<open>s.find(c)\<close> for one character: the first index, or -1.\<close>

fun find_from :: "char \<Rightarrow> string \<Rightarrow> int \<Rightarrow> int" where
  "find_from c [] i = -1"
| "find_from c (x # xs) i = (if x = c then i else find_from c xs (i + 1))"

definition find_char :: "string \<Rightarrow> char \<Rightarrow> int" where
  "find_char s c = find_from c s 0"

text \<open>\<open>s[i:]\<close> for \<open>i \<ge> 0\<close>.\<close>

definition slice_from :: "string \<Rightarrow> int \<Rightarrow> string" where
  "slice_from s i = drop (nat i) s"

text \<open>
  \<open>s.replace(old, new)\<close>, left to right and without overlap. Every call in the
  source passes a literal \<open>old\<close> that is not empty; an empty \<open>old\<close> is left alone here.
\<close>

function replace :: "string \<Rightarrow> string \<Rightarrow> string \<Rightarrow> string" where
  "replace old new s =
     (if s = [] then []
      else if old \<noteq> [] \<and> take (length old) s = old
           then new @ replace old new (drop (length old) s)
           else hd s # replace old new (tl s))"
  by pat_completeness auto
termination
  by (relation "measure (\<lambda>(old, new, s). length s)") auto

declare replace.simps [simp del]

text \<open>
  \<open>int(s)\<close> on a string: white space around, an optional sign, decimal digits with
  single underscores between them. \<open>None\<close> is the \<open>ValueError\<close>.

  The white space \<open>int\<close> accepts around the number is narrower than that of
  \<open>str.strip()\<close>: the ASCII characters of C's \<open>isspace\<close> (9 to 13 and 32) and, above
  ASCII, the characters Unicode calls white space (133 and 160 below 256). The
  separators U+001C to U+001F are stripped by \<open>str.strip()\<close> and refused by \<open>int\<close>.

  The interpreter limits the number of digits of the string (\<open>sys.get_int_max_str_digits()\<close>,
  4300 unless it was set otherwise, 0 for no limit): a string with more than 640 digits
  and more digits than a limit that is not 0 is a \<open>ValueError\<close>. The digits are counted
  without the sign, the underscores and the white space around. The limit is the
  first argument.
\<close>

definition is_int_space :: "char \<Rightarrow> bool" where
  "is_int_space c = (of_char c \<in> {9::nat, 10, 11, 12, 13, 32, 133, 160})"

definition int_strip :: "string \<Rightarrow> string" where
  "int_strip s = rev (dropWhile is_int_space (rev (dropWhile is_int_space s)))"

definition is_digit :: "char \<Rightarrow> bool" where
  "is_digit c = (48 \<le> (of_char c :: nat) \<and> (of_char c :: nat) \<le> 57)"

fun digits_value :: "int \<Rightarrow> string \<Rightarrow> int option" where
  "digits_value acc [] = Some acc"
| "digits_value acc [c] =
     (if is_digit c then Some (acc * 10 + (int (of_char c) - 48)) else None)"
| "digits_value acc (c # d # r) =
     (if is_digit c then
        (if d = CHR ''_'' then digits_value (acc * 10 + (int (of_char c) - 48)) r
         else digits_value (acc * 10 + (int (of_char c) - 48)) (d # r))
      else None)"

definition too_many_digits :: "nat \<Rightarrow> string \<Rightarrow> bool" where
  "too_many_digits limit s =
     (640 < length (filter is_digit s) \<and> 0 < limit \<and> limit < length (filter is_digit s))"

definition unsigned_value :: "nat \<Rightarrow> string \<Rightarrow> int option" where
  "unsigned_value limit s =
     (if s = [] \<or> \<not> is_digit (last s) then None
      else if too_many_digits limit s then None
      else digits_value 0 s)"

definition py_int :: "nat \<Rightarrow> string \<Rightarrow> int option" where
  "py_int limit s =
     (case int_strip s of
        [] \<Rightarrow> None
      | c # r \<Rightarrow>
          if c = CHR ''-'' then map_option uminus (unsigned_value limit r)
          else if c = CHR ''+'' then unsigned_value limit r
          else unsigned_value limit (c # r))"

section \<open>The event store\<close>

text \<open>
  The values the controller stores in \<open>self._events\<close>: \<open>None\<close>, a bool, a string, the
  list of source names of a zone, and the time stamp \<open>dt_util.utcnow()\<close> returned.
\<close>

datatype evalue = VNone | VBool bool | VStr string | VList "string list" | VTime nat

type_synonym event_store = "string \<rightharpoonup> evalue"

text \<open>The key \<open>f'{entityId}.{eventName}'\<close>.\<close>

definition event_key :: "string \<Rightarrow> string \<Rightarrow> string" where
  "event_key entityId eventName = entityId @ ''.'' @ eventName"

section \<open>The controller and its zone entities\<close>

text \<open>
  Modelled from the spec: the constants \<open>MODE_UNKNOWN\<close>, \<open>MODE_STANDALONE\<close> and
  \<open>MODE_MRAD\<close> of \<open>const.py\<close>, three different values of the session mode.
\<close>

datatype mode = MODE_UNKNOWN | MODE_STANDALONE | MODE_MRAD

text \<open>
  The attributes of an \<open>MmsZone\<close> that the controller reads and writes. \<open>zone_name\<close>
  is \<open>_name\<close>; \<open>mms_zone_id\<close> is \<open>None\<close> for a standalone instance.
\<close>

record zone =
  entity_id :: string
  mms_zone_id :: "string option"
  mms_source_id :: string
  zone_name :: string
  attr_group_members :: "string list"
  mms_groupGuid :: string
  mms_groupName :: string
  isOn :: bool

text \<open>
  The state of a \<open>Controller\<close>. The zone entities are the list \<open>zoneEntities\<close>; a
  reference to one of them (in \<open>_zoneEntitiesByGuid\<close>, in a local variable) is its
  index in that list. What the controller does to its collaborators is recorded:
  \<open>sent\<close> holds each command with the instance name of the connection it was sent on
  (\<open>''*''\<close> for the primary connection), \<open>refreshed\<close> the zone of each call of
  \<open>update_ha\<close>, \<open>hidden\<close> the zone of each request to hide a registry entry,
  \<open>switch_updates\<close> the number of \<open>update_ha\<close> calls on switch entities, and
  \<open>mms_instance_clients\<close> the side connections by key, with the instance each was
  opened for.
\<close>

record controller =
  mode :: mode
  is_connected :: bool
  events :: event_store
  zoneEntities :: "zone list"
  zoneEntitiesByGuid :: "string \<rightharpoonup> nat"
  switchEntities :: nat
  perform_group_volumes :: bool
  mms_instance_clients :: "(string \<times> string) list"
  sent :: "(string \<times> string) list"
  refreshed :: "nat list"
  hidden :: "nat list"
  switch_updates :: nat

text \<open>The exceptions the modelled code raises.\<close>

datatype error =
  KeyError | TypeError | AttributeError | IndexError | ValueError | ZeroDivisionError
  | UnboundLocalError | UnicodeDecodeError | ExpatError

text \<open>
  A handler returns, or raises with the state as it has changed it so far.
\<close>

datatype outcome = Returned controller | Raised error controller

fun state_of :: "outcome \<Rightarrow> controller" where
  "state_of (Returned st) = st"
| "state_of (Raised e st) = st"

fun raised :: "outcome \<Rightarrow> bool" where
  "raised (Returned st) = False"
| "raised (Raised e st) = True"

subsection \<open>Event store operations\<close>

text \<open>\<open>Controller.get_event\<close>: the value \<open>None\<close> of Python is \<open>VNone\<close>.\<close>

definition get_event :: "controller \<Rightarrow> string \<Rightarrow> string \<Rightarrow> evalue" where
  "get_event st entityId eventName =
     (let key = event_key entityId eventName
      in (case events st key of None \<Rightarrow> VNone | Some v \<Rightarrow> v))"

text \<open>\<open>Controller.pop_event\<close>: the value returned and the new state.\<close>

definition pop_event :: "controller \<Rightarrow> string \<Rightarrow> string \<Rightarrow> evalue \<times> controller" where
  "pop_event st entityId eventName =
     (let key = event_key entityId eventName
      in (case events st key of None \<Rightarrow> VNone | Some v \<Rightarrow> v,
          st\<lparr>events := (events st)(key := None)\<rparr>))"

text \<open>\<open>self._events[key] = value\<close>\<close>

definition set_event :: "string \<Rightarrow> evalue \<Rightarrow> controller \<Rightarrow> controller" where
  "set_event key v st = st\<lparr>events := (events st)(key \<mapsto> v)\<rparr>"

subsection \<open>Sending\<close>

text \<open>
  Modelled from the spec: \<open>MmsClient.send\<close> of \<open>mms_client.py\<close>, the transport's
  \<open>send(text)\<close>. It forwards the text on its connection and does not raise.
\<close>

definition mms_send :: "string \<Rightarrow> string \<Rightarrow> controller \<Rightarrow> controller" where
  "mms_send inst cmd st = st\<lparr>sent := sent st @ [(inst, cmd)]\<rparr>"

text \<open>\<open>Controller.send\<close>: on the primary connection.\<close>

definition send :: "string \<Rightarrow> controller \<Rightarrow> controller" where
  "send cmd st = mms_send ''*'' cmd st"

subsection \<open>Zone entity methods the controller calls\<close>

text \<open>
  \<open>MmsZone.update_ha\<close> of the zone at index \<open>i\<close>: it schedules a state update and
  swallows every exception.
\<close>

definition update_ha :: "nat \<Rightarrow> controller \<Rightarrow> controller" where
  "update_ha i st = st\<lparr>refreshed := refreshed st @ [i]\<rparr>"

text \<open>
  \<open>MmsZone.set_name_source_and_group\<close> on the zone itself: the zone afterwards,
  \<open>isDirty\<close>, and whether the registry was asked to hide the entity. A parameter
  that is \<open>None\<close> in Python is \<open>None\<close> here. The call of the entity registry is an
  effect on a collaborator and is taken to return.
\<close>

definition zone_set_name_source_and_group ::
  "string option \<Rightarrow> string option \<Rightarrow> string option \<Rightarrow> string option \<Rightarrow> string list option
   \<Rightarrow> zone \<Rightarrow> zone \<times> bool \<times> bool" where
  "zone_set_name_source_and_group newName newSourceId newGroupGuid newGroupName newGroupMembers z =
     (let (z1, d1, h) =
            (case newName of
               None \<Rightarrow> (z, False, False)
             | Some n \<Rightarrow>
                 if n \<noteq> zone_name z
                 then (z\<lparr>zone_name := n\<rparr>, True,
                       mms_zone_id z \<noteq> None \<and> mms_zone_id z = Some (replace '' '' ''_'' n))
                 else (z, False, False));
          (z2, d2) =
            (case newSourceId of
               None \<Rightarrow> (z1, d1)
             | Some s \<Rightarrow>
                 if s \<noteq> mms_source_id z1 then (z1\<lparr>mms_source_id := s\<rparr>, True) else (z1, d1));
          z3 = (case newGroupGuid of None \<Rightarrow> z2 | Some g \<Rightarrow> z2\<lparr>mms_groupGuid := g\<rparr>);
          z4 = (case newGroupName of None \<Rightarrow> z3 | Some g \<Rightarrow> z3\<lparr>mms_groupName := g\<rparr>);
          (z5, d5) =
            (case newGroupMembers of
               None \<Rightarrow> (z4, d2)
             | Some m \<Rightarrow>
                 if attr_group_members z4 \<noteq> m then (z4\<lparr>attr_group_members := m\<rparr>, True)
                 else (z4, d2))
      in (z5, d5, h))"

text \<open>The same call on the zone at index \<open>i\<close> of the controller, with its effects.\<close>

definition set_name_source_and_group ::
  "nat \<Rightarrow> string option \<Rightarrow> string option \<Rightarrow> string option \<Rightarrow> string option
   \<Rightarrow> string list option \<Rightarrow> controller \<Rightarrow> controller" where
  "set_name_source_and_group i newName newSourceId newGroupGuid newGroupName newGroupMembers st =
     (let (z, dirty, hide) =
            zone_set_name_source_and_group newName newSourceId newGroupGuid newGroupName
              newGroupMembers (zoneEntities st ! i);
          st1 = (if hide then st\<lparr>hidden := hidden st @ [i]\<rparr> else st);
          st2 = st1\<lparr>zoneEntities := (zoneEntities st1)[i := z]\<rparr>
      in if dirty then update_ha i st2 else st2)"

text \<open>
  The scan \<open>for zone in self._zoneEntities: if zone._mms_zone_id == id: ... break\<close>:
  the index of the first zone with that id.
\<close>

fun scan_from :: "nat \<Rightarrow> zone list \<Rightarrow> string \<Rightarrow> nat option" where
  "scan_from i [] ident = None"
| "scan_from i (z # zs) ident =
     (if mms_zone_id z = Some ident then Some i else scan_from (Suc i) zs ident)"

definition scan_zone_id :: "controller \<Rightarrow> string \<Rightarrow> nat option" where
  "scan_zone_id st ident = scan_from 0 (zoneEntities st) ident"

subsection \<open>Connection state changes\<close>

text \<open>
  \<open>Controller.mms_connected\<close>, called by the connection with instance name \<open>inst\<close>.
\<close>

definition mms_connected :: "controller \<Rightarrow> string \<Rightarrow> bool \<Rightarrow> controller" where
  "mms_connected st inst connected_flag =
     (let st1 = st\<lparr>is_connected := connected_flag\<rparr>;
          st2 = st1\<lparr>switch_updates := switch_updates st1 + switchEntities st1\<rparr>;
          st3 = (if inst = ''*'' then st2\<lparr>events := Map.empty\<rparr> else st2)
      in if connected_flag then
           (let st4 = mms_send inst ''setclienttype hass'' st3;
                st5 = mms_send inst ''setxmlmode lists'' st4
            in if inst = ''*'' then
                 (if mode st5 = MODE_STANDALONE then mms_send inst ''browseinstances'' st5
                  else
                    (let st6 = mms_send inst ''mrad.subscribeevents'' st5;
                         st7 = mms_send inst ''mrad.getstatus'' st6;
                         st8 = mms_send inst ''browseinstances'' st7;
                         st9 = mms_send inst ''mrad.browseallzones'' st8
                     in mms_send inst ''mrad.browsezonegroups'' st9))
               else
                 (let st6 = mms_send inst (''setinstance '' @ inst) st5;
                      st7 = mms_send inst ''subscribeevents'' st6
                  in mms_send inst ''getstatus'' st7))
         else st3)"

text \<open>
  \<open>Controller.async_connect_to_mms\<close> up to the opening of the socket: the session
  is marked disconnected and every zone and switch is asked to update.
\<close>

definition async_connect_to_mms :: "controller \<Rightarrow> controller" where
  "async_connect_to_mms st =
     (let st1 = st\<lparr>is_connected := False\<rparr>;
          st2 = fold update_ha [0 ..< length (zoneEntities st1)] st1;
          st3 = st2\<lparr>switch_updates := switch_updates st2 + switchEntities st2\<rparr>
      in st3\<lparr>mms_instance_clients := []\<rparr>)"

section \<open>Frames\<close>

text \<open>
  The XML frames carry their data in attributes. \<open>xml\<close> is the element tree the XML
  parser under \<open>xmltodict.parse\<close> hands over: a tag, the attributes and the child
  elements in document order. Character data is left out.
\<close>

datatype xml = Element (tag: string) (attribs: "(string \<times> string) list") (kids: "xml list")

text \<open>
  What the modelled code takes from outside: the constants \<open>TICK_THRESHOLD_SECONDS\<close>
  and \<open>TICK_UPDATE_SECONDS\<close> of \<open>const.py\<close>, the XML parser (\<open>None\<close> for a text that
  is not a well-formed document), the clock \<open>dt_util.utcnow()\<close>, the decoding
  \<open>str(res, 'utf-8')\<close> of the bytes of a frame (\<open>None\<close> when they are not UTF-8),
  and the interpreter's limit on the digits of a string given to \<open>int\<close>.
\<close>

record env =
  TICK_THRESHOLD_SECONDS :: int
  TICK_UPDATE_SECONDS :: int
  xml_parse :: "string \<Rightarrow> xml option"
  utcnow :: nat
  decode_utf8 :: "string \<Rightarrow> string option"
  int_max_str_digits :: nat

subsection \<open>The values xmltodict builds\<close>

text \<open>
  \<open>xmltodict\<close> turns an element with neither attributes nor children into \<open>None\<close>,
  and any other element into a dict: one key \<open>'@a'\<close> for each attribute \<open>a\<close>, and one
  key for each tag among the children. Under a tag it stores the value of the child
  when the tag occurs once and is not in \<open>force_list\<close>, and the list of the values
  otherwise. The document itself is the dict with the root's tag as only key.
\<close>

definition is_none :: "xml \<Rightarrow> bool" where
  "is_none e = (attribs e = [] \<and> kids e = [])"

datatype xentry = XOne xml | XMany "xml list"

definition then_err :: "error + 'a \<Rightarrow> ('a \<Rightarrow> error + 'b) \<Rightarrow> error + 'b" where
  "then_err r f = (case r of Inl e \<Rightarrow> Inl e | Inr x \<Rightarrow> f x)"

definition stored_under :: "string list \<Rightarrow> string \<Rightarrow> xml list \<Rightarrow> xentry option" where
  "stored_under force_list k cs =
     (case filter (\<lambda>c. tag c = k) cs of
        [] \<Rightarrow> None
      | [c] \<Rightarrow> Some (if k \<in> set force_list then XMany [c] else XOne c)
      | c # d # r \<Rightarrow> Some (XMany (c # d # r)))"

text \<open>\<open>d[k]\<close> for a tag \<open>k\<close>, where \<open>d\<close> is the value of the element \<open>e\<close>.\<close>

definition item :: "string list \<Rightarrow> xml \<Rightarrow> string \<Rightarrow> error + xentry" where
  "item force_list e k =
     (if is_none e then Inl TypeError
      else (case stored_under force_list k (kids e) of None \<Rightarrow> Inl KeyError | Some x \<Rightarrow> Inr x))"

text \<open>\<open>d['@k']\<close> and \<open>d.get('@k', dflt)\<close> on the value of the element \<open>e\<close>.\<close>

definition attr :: "xml \<Rightarrow> string \<Rightarrow> error + string" where
  "attr e k =
     (if is_none e then Inl TypeError
      else (case map_of (attribs e) k of None \<Rightarrow> Inl KeyError | Some v \<Rightarrow> Inr v))"

definition attr_get :: "xml \<Rightarrow> string \<Rightarrow> string \<Rightarrow> error + string" where
  "attr_get e k dflt =
     (if is_none e then Inl AttributeError
      else Inr (case map_of (attribs e) k of None \<Rightarrow> dflt | Some v \<Rightarrow> v))"

text \<open>\<open>data[k]\<close> on the parsed document with root \<open>root\<close>.\<close>

definition root_item :: "string list \<Rightarrow> xml \<Rightarrow> string \<Rightarrow> error + xentry" where
  "root_item force_list root k =
     (if tag root \<noteq> k then Inl KeyError
      else Inr (if k \<in> set force_list then XMany [root] else XOne root))"

text \<open>\<open>x[k]\<close> and \<open>x['@k']\<close> on what is stored under a tag: a list takes no string index.\<close>

fun subscript :: "string list \<Rightarrow> xentry \<Rightarrow> string \<Rightarrow> error + xentry" where
  "subscript force_list (XOne e) k = item force_list e k"
| "subscript force_list (XMany es) k = Inl TypeError"

fun entry_attr :: "xentry \<Rightarrow> string \<Rightarrow> error + string" where
  "entry_attr (XOne e) k = attr e k"
| "entry_attr (XMany es) k = Inl TypeError"

text \<open>
  \<open>for v in x\<close>: a list yields its members, a dict yields its keys, which are strings,
  and \<open>None\<close> is not iterable.
\<close>

datatype iterval = IElem xml | IKey string

definition dict_keys :: "xml \<Rightarrow> string list" where
  "dict_keys e = map (\<lambda>(k, v). ''@'' @ k) (attribs e) @ rev (remdups (rev (map tag (kids e))))"

fun iterate :: "xentry \<Rightarrow> error + iterval list" where
  "iterate (XMany es) = Inr (map IElem es)"
| "iterate (XOne e) = (if is_none e then Inl TypeError else Inr (map IKey (dict_keys e)))"

text \<open>
  \<open>v['@k']\<close>, \<open>v.get('@k', dflt)\<close> and \<open>v[k]\<close> on a loop variable: a string has no
  string index and no \<open>get\<close>.
\<close>

fun iv_attr :: "iterval \<Rightarrow> string \<Rightarrow> error + string" where
  "iv_attr (IElem e) k = attr e k"
| "iv_attr (IKey s) k = Inl TypeError"

fun iv_attr_get :: "iterval \<Rightarrow> string \<Rightarrow> string \<Rightarrow> error + string" where
  "iv_attr_get (IElem e) k dflt = attr_get e k dflt"
| "iv_attr_get (IKey s) k dflt = Inl AttributeError"

fun iv_item :: "string list \<Rightarrow> iterval \<Rightarrow> string \<Rightarrow> error + xentry" where
  "iv_item force_list (IElem e) k = item force_list e k"
| "iv_item force_list (IKey s) k = Inl TypeError"

section \<open>Zone snapshots\<close>

text \<open>The four attributes \<open>_process_mrad_zone_response\<close> reads from a zone, in its order.\<close>

definition zone_fields :: "iterval \<Rightarrow> error + (string \<times> string \<times> string \<times> string)" where
  "zone_fields z =
     then_err (iv_attr z ''guid'') (\<lambda>guid.
     then_err (iv_attr z ''sourceId'') (\<lambda>sid.
     then_err (iv_attr z ''name'') (\<lambda>name.
     then_err (iv_attr z ''id'') (\<lambda>ident.
       Inr (guid, ''Source_'' @ sid, name, ident)))))"

text \<open>The body of the loop once the attributes are read.\<close>

definition bind_zone :: "controller \<Rightarrow> string \<times> string \<times> string \<times> string \<Rightarrow> controller" where
  "bind_zone st f =
     (case f of (guid, sourceId, name, ident) \<Rightarrow>
        (case zoneEntitiesByGuid st guid of
           Some found \<Rightarrow> set_name_source_and_group found (Some name) (Some sourceId) None None None st
         | None \<Rightarrow>
             (case scan_zone_id st ident of
                None \<Rightarrow> st
              | Some found \<Rightarrow>
                  set_name_source_and_group found (Some name) (Some sourceId) None None None
                    (st\<lparr>zoneEntitiesByGuid := (zoneEntitiesByGuid st)(guid \<mapsto> found)\<rparr>))))"

fun zone_loop :: "controller \<Rightarrow> iterval list \<Rightarrow> outcome" where
  "zone_loop st [] = Returned st"
| "zone_loop st (z # zs) =
     (case zone_fields z of
        Inl e \<Rightarrow> Raised e st
      | Inr f \<Rightarrow> zone_loop (bind_zone st f) zs)"

text \<open>The list \<open>data['Zones']['Zone']\<close> the loop runs over.\<close>

definition zones_of :: "xml \<Rightarrow> error + iterval list" where
  "zones_of root =
     then_err (root_item [''Zone''] root ''Zones'') (\<lambda>x.
     then_err (subscript [''Zone''] x ''Zone'') iterate)"

definition process_mrad_zone_response :: "env \<Rightarrow> controller \<Rightarrow> string \<Rightarrow> outcome" where
  "process_mrad_zone_response env st res =
     (case xml_parse env res of
        None \<Rightarrow> Raised ExpatError st
      | Some root \<Rightarrow>
          (case zones_of root of
             Inl e \<Rightarrow> Raised e st
           | Inr zs \<Rightarrow> zone_loop st zs))"

section \<open>Zone-group snapshots\<close>

text \<open>The three replacements that put the \<open>src\<close> zones into the \<open>vol\<close> element.\<close>

definition merge_vol_src :: "string \<Rightarrow> string" where
  "merge_vol_src res =
     replace ''</src>'' ''</vol>'' (replace ''<src>'' [] (replace ''</vol>'' [] res))"

text \<open>The branch \<open>if mArt == ""\<close> and its \<open>else\<close>.\<close>

definition reset_source_art :: "string \<Rightarrow> controller \<Rightarrow> controller" where
  "reset_source_art sourceId st =
     set_event (event_key sourceId ''SmartSource'') (VBool False)
    (set_event (event_key sourceId ''Shuffle'') VNone
    (set_event (event_key sourceId ''TrackTimeUtc'') VNone
    (set_event (event_key sourceId ''TrackTime'') VNone
    (set_event (event_key sourceId ''TrackDuration'') VNone
    (set_event (event_key sourceId ''MetaData4'') VNone
    (set_event (event_key sourceId ''MetaData3'') VNone
    (set_event (event_key sourceId ''MetaData2'') VNone
    (set_event (event_key sourceId ''MetaData1'') VNone
    (set_event (event_key sourceId ''mArt'') VNone st)))))))))"

definition store_source_art :: "string \<Rightarrow> string \<Rightarrow> controller \<Rightarrow> controller" where
  "store_source_art sourceId mArt st =
     set_event (event_key sourceId ''SmartSource'') (VBool True)
    (set_event (event_key sourceId ''mArt'') (VStr mArt) st)"

definition group_art :: "string \<Rightarrow> string \<Rightarrow> controller \<Rightarrow> controller" where
  "group_art sourceId mArt st =
     (if mArt = [] then reset_source_art sourceId st else store_source_art sourceId mArt st)"

text \<open>
  The loop over the sources of a group: the name of each is appended to \<open>sources\<close>
  and stored as the qualified name of its source id.
\<close>

definition source_name :: "xml \<Rightarrow> error + string" where
  "source_name source =
     then_err (attr_get source ''name'' []) (\<lambda>fqn.
       if fqn = [] then
         then_err (attr source ''fqn'') (\<lambda>q.
           Inr (replace ''_'' '' '' (hd (split_on CHR ''@'' q))))
       else Inr fqn)"

fun sources_loop ::
  "controller \<Rightarrow> string list \<Rightarrow> xml list \<Rightarrow> (error \<times> controller) + (controller \<times> string list)" where
  "sources_loop st sources [] = Inr (st, sources)"
| "sources_loop st sources (source # rest) =
     (case source_name source of
        Inl e \<Rightarrow> Inl (e, st)
      | Inr fqn \<Rightarrow>
          (case attr_get source ''sId'' [] of
             Inl e \<Rightarrow> Inl (e, st)
           | Inr sid \<Rightarrow>
               sources_loop
                 (set_event (event_key (''Source_'' @ sid) ''QualifiedSourceName'')
                    (VStr (replace '' '' ''_'' fqn)) st)
                 (sources @ [fqn]) rest))"

text \<open>
  \<open>sourcesList\<close>: the list stored under \<open>Source\<close>, or the one value made a list.
\<close>

definition sources_list :: "iterval \<Rightarrow> error + xml list" where
  "sources_list grp =
     then_err (iv_item [''ZoneGroup''] grp ''Sources'') (\<lambda>x.
     then_err (subscript [''ZoneGroup''] x ''Source'') (\<lambda>y.
       Inr (case y of XMany es \<Rightarrow> es | XOne e \<Rightarrow> [e])))"

text \<open>
  The loop over \<open>group['vol']['zone']\<close>. \<open>ents\<close> and \<open>ids\<close> are
  \<open>zoneEntitiesInGroup\<close> and \<open>zoneEntityIdsInGroup\<close>.
\<close>

definition join_group ::
  "nat \<Rightarrow> string \<Rightarrow> string \<Rightarrow> string \<Rightarrow> string \<Rightarrow> nat list \<times> string list \<Rightarrow> controller
   \<Rightarrow> controller \<times> nat list \<times> string list" where
  "join_group found name sourceId groupGuid groupName acc st =
     (case acc of (ents, ids) \<Rightarrow>
        (let st1 = set_name_source_and_group found (Some name) (Some sourceId) (Some groupGuid)
                     (Some groupName) None st;
             eid = entity_id (zoneEntities st1 ! found)
         in if eid \<notin> set ids then (st1, ents @ [found], ids @ [eid]) else (st1, ents, ids)))"

fun vol_loop ::
  "string list \<Rightarrow> string \<Rightarrow> string \<Rightarrow> string \<Rightarrow> controller \<Rightarrow> nat list \<times> string list
   \<Rightarrow> iterval list \<Rightarrow> (error \<times> controller) + (controller \<times> nat list \<times> string list)" where
  "vol_loop sources sourceId groupGuid groupName st acc [] = Inr (st, acc)"
| "vol_loop sources sourceId groupGuid groupName st acc (vZone # rest) =
     (case iv_attr vZone ''name'' of
        Inl e \<Rightarrow> Inl (e, st)
      | Inr name \<Rightarrow>
     (case iv_attr vZone ''eventId'' of
        Inl e \<Rightarrow> Inl (e, st)
      | Inr eventId \<Rightarrow>
     (let st1 = set_event (event_key eventId ''SourceList'') (VList sources) st
      in (case iv_attr vZone ''guid'' of
        Inl e \<Rightarrow> Inl (e, st1)
      | Inr guid \<Rightarrow>
          (case zoneEntitiesByGuid st1 guid of
             Some found \<Rightarrow>
               (case join_group found name sourceId groupGuid groupName acc st1 of
                  (st2, acc2) \<Rightarrow> vol_loop sources sourceId groupGuid groupName st2 acc2 rest)
           | None \<Rightarrow>
               (case scan_zone_id st1 eventId of
                  None \<Rightarrow> vol_loop sources sourceId groupGuid groupName st1 acc rest
                | Some found \<Rightarrow>
                    (case join_group found name sourceId groupGuid groupName acc
                            (st1\<lparr>zoneEntitiesByGuid := (zoneEntitiesByGuid st1)(guid \<mapsto> found)\<rparr>) of
                       (st2, acc2) \<Rightarrow>
                         vol_loop sources sourceId groupGuid groupName st2 acc2 rest)))))))"

definition vol_zones :: "iterval \<Rightarrow> error + iterval list" where
  "vol_zones grp =
     then_err (iv_item [''ZoneGroup''] grp ''vol'') (\<lambda>x.
     then_err (subscript [''ZoneGroup''] x ''zone'') iterate)"

text \<open>
  The last two statements for a group: the ids are sorted, and every zone collected
  in the loop gets the sorted list as its group members.
\<close>

definition set_group_members :: "nat list \<Rightarrow> string list \<Rightarrow> controller \<Rightarrow> controller" where
  "set_group_members ents ids st =
     fold (\<lambda>i. set_name_source_and_group i None None None None (Some (sort ids))) ents st"

text \<open>
  The body of the loop over the groups, up to the end of the loop over the zones:
  the state, \<open>zoneEntitiesInGroup\<close> and \<open>zoneEntityIdsInGroup\<close>, or the exception.
\<close>

definition collect_zone_group ::
  "controller \<Rightarrow> iterval \<Rightarrow> (error \<times> controller) + (controller \<times> nat list \<times> string list)" where
  "collect_zone_group st grp =
     (case iv_attr_get grp ''guid'' [] of Inl e \<Rightarrow> Inl (e, st) | Inr groupGuid \<Rightarrow>
     (case iv_attr_get grp ''name'' [] of Inl e \<Rightarrow> Inl (e, st) | Inr groupName \<Rightarrow>
     (case iv_attr_get grp ''sId'' ''0'' of Inl e \<Rightarrow> Inl (e, st) | Inr sId \<Rightarrow>
     (case iv_attr_get grp ''mArt'' [] of Inl e \<Rightarrow> Inl (e, st) | Inr mArt \<Rightarrow>
     (let sourceId = ''Source_'' @ sId;
          st1 = group_art sourceId mArt st
      in (case sources_list grp of Inl e \<Rightarrow> Inl (e, st1) | Inr sourcesList \<Rightarrow>
         (case sources_loop st1 [] sourcesList of Inl (e, st2) \<Rightarrow> Inl (e, st2)
          | Inr (st2, sources) \<Rightarrow>
         (case vol_zones grp of Inl e \<Rightarrow> Inl (e, st2) | Inr vZones \<Rightarrow>
            vol_loop sources sourceId groupGuid groupName st2 ([], []) vZones))))))))"

text \<open>The whole body: after the loop the sorted ids are given to the collected zones.\<close>

definition process_zone_group :: "controller \<Rightarrow> iterval \<Rightarrow> outcome" where
  "process_zone_group st grp =
     (case collect_zone_group st grp of
        Inl (e, st1) \<Rightarrow> Raised e st1
      | Inr (st3, ents, ids) \<Rightarrow> Returned (set_group_members ents ids st3))"

fun zone_group_loop :: "controller \<Rightarrow> iterval list \<Rightarrow> outcome" where
  "zone_group_loop st [] = Returned st"
| "zone_group_loop st (grp # rest) =
     (case process_zone_group st grp of
        Raised e st1 \<Rightarrow> Raised e st1
      | Returned st1 \<Rightarrow> zone_group_loop st1 rest)"

definition zone_groups_of :: "xml \<Rightarrow> error + iterval list" where
  "zone_groups_of root =
     then_err (root_item [''ZoneGroup''] root ''ZoneGroups'') (\<lambda>x.
     then_err (subscript [''ZoneGroup''] x ''ZoneGroup'') iterate)"

definition process_mrad_zone_group_response :: "env \<Rightarrow> controller \<Rightarrow> string \<Rightarrow> outcome" where
  "process_mrad_zone_group_response env st res =
     (case xml_parse env (merge_vol_src res) of
        None \<Rightarrow> Raised ExpatError st
      | Some root \<Rightarrow>
          (case zone_groups_of root of
             Inl e \<Rightarrow> Raised e st
           | Inr groups \<Rightarrow> zone_group_loop st groups))"

section \<open>Telemetry events\<close>

text \<open>
  The first lines of \<open>_process_mrad_event\<close> and of \<open>_process_instance_event\<close>:
  entity id, event name and event value of a line \<open>verb entity name=value\<close>.
\<close>

definition parse_event :: "string \<Rightarrow> error + (string \<times> string \<times> string)" where
  "parse_event res =
     (let splits = split_on CHR '' '' res
      in if length splits \<le> 2 then Inl IndexError
         else
           (let nv = split_on CHR ''='' (splits ! 2);
                eventName = hd nv;
                pEq = find_char res CHR ''='';
                entityId = splits ! 1
            in Inr (entityId, eventName, slice_from res (pEq + 1))))"

text \<open>
  The condition under which a \<open>TrackTime\<close> event is dropped, with Python's
  evaluation from left to right: \<open>int\<close> is not called for a key that is not stored,
  and the remainder is not taken for a value within the threshold.
\<close>

definition tick_dropped :: "env \<Rightarrow> controller \<Rightarrow> string \<Rightarrow> string \<Rightarrow> error + bool" where
  "tick_dropped env st key eventValue =
     (if key \<in> dom (events st) then
        (case py_int (int_max_str_digits env) eventValue of
           None \<Rightarrow> Inl ValueError
         | Some n \<Rightarrow>
             if n > TICK_THRESHOLD_SECONDS env then
               (if TICK_UPDATE_SECONDS env = 0 then Inl ZeroDivisionError
                else Inr (n mod TICK_UPDATE_SECONDS env \<noteq> 0))
             else Inr False)
      else Inr False)"

text \<open>
  The store of the value and, for \<open>TrackTime\<close>, of the two keys made from it. The
  second component is the event name afterwards.
\<close>

definition store_and_derive ::
  "env \<Rightarrow> string \<Rightarrow> string \<Rightarrow> string \<Rightarrow> controller \<Rightarrow> controller \<times> string" where
  "store_and_derive env entityId eventName eventValue st =
     (let st1 = set_event (event_key entityId eventName) (VStr eventValue) st
      in if eventName = ''TrackTime'' then
           (set_event (event_key entityId ''SmartSource'') (VBool True)
              (set_event (event_key entityId ''TrackTimeUtc'') (VTime (utcnow env)) st1),
            ''SmartSource'')
         else (st1, eventName))"

text \<open>A loop over the zone entities that updates those a test selects.\<close>

definition update_zones_where :: "(zone \<Rightarrow> bool) \<Rightarrow> controller \<Rightarrow> controller" where
  "update_zones_where P st =
     fold (\<lambda>i s. if P (zoneEntities s ! i) then update_ha i s else s)
       [0 ..< length (zoneEntities st)] st"

definition process_mrad_event :: "env \<Rightarrow> controller \<Rightarrow> string \<Rightarrow> outcome" where
  "process_mrad_event env st res =
     (case parse_event res of
        Inl e \<Rightarrow> Raised e st
      | Inr (entityId, eventName, eventValue0) \<Rightarrow>
          (let key = event_key entityId eventName;
               eventValue = (if eventName = ''TrackTime''
                             then replace ''00:00:00'' ''0'' eventValue0 else eventValue0)
           in (case (if eventName = ''TrackTime'' then tick_dropped env st key eventValue
                     else Inr False) of
                 Inl e \<Rightarrow> Raised e st
               | Inr True \<Rightarrow> Returned st
               | Inr False \<Rightarrow>
                   (case store_and_derive env entityId eventName eventValue st of
                      (st1, eventName1) \<Rightarrow>
                        Returned
                          (update_zones_where
                             (\<lambda>z. mms_zone_id z = Some entityId \<or> mms_source_id z = entityId)
                             st1)))))"

definition process_instance_event :: "env \<Rightarrow> controller \<Rightarrow> string \<Rightarrow> outcome" where
  "process_instance_event env st res =
     (case parse_event res of
        Inl e \<Rightarrow> Raised e st
      | Inr (entityId, eventName, eventValue0) \<Rightarrow>
          (let key = event_key entityId eventName;
               eventValue = (if eventName = ''TrackTime''
                             then replace ''00:00:00'' ''0'' eventValue0 else eventValue0)
           in (case (if eventName = ''TrackTime'' then tick_dropped env st key eventValue
                     else Inr False) of
                 Inl e \<Rightarrow> Raised e st
               | Inr True \<Rightarrow> Returned st
               | Inr False \<Rightarrow>
                   (case store_and_derive env entityId eventName eventValue st of
                      (st1, eventName1) \<Rightarrow>
                        if mode st1 = MODE_STANDALONE then
                          (if eventName1 = ''MediaArtChanged''
                           then Returned (send ''BrowseInstances'' st1)
                           else Returned
                                  (update_zones_where
                                     (\<lambda>z. mms_zone_id z = Some entityId
                                          \<or> mms_source_id z = entityId)
                                     st1))
                        else
                          Returned
                            (update_zones_where
                               (\<lambda>z. mms_source_id z = entityId
                                    \<or> events st1 (event_key (mms_source_id z) ''QualifiedSourceName'')
                                        = Some (VStr entityId))
                               st1)))))"

section \<open>Instance snapshots\<close>

text \<open>
  Modelled from the spec: \<open>MmsClient(...)\<close> and \<open>async_connect\<close> of \<open>mms_client.py\<close>.
  A side connection is opened for the instance and recorded under its key.
\<close>

definition open_instance_client :: "string \<Rightarrow> string \<Rightarrow> controller \<Rightarrow> controller" where
  "open_instance_client guid sourceId st =
     st\<lparr>mms_instance_clients := mms_instance_clients st @ [(guid, sourceId)]\<rparr>"

text \<open>
  The body of the loop of \<open>_async_process_instance_response\<close>. In the branch for the
  other modes the loop over the zones calls \<open>found.update_ha()\<close> with \<open>found\<close> never
  assigned.
\<close>

definition process_instance :: "controller \<Rightarrow> iterval \<Rightarrow> outcome" where
  "process_instance st inst =
     (case iv_attr inst ''fqn'' of Inl e \<Rightarrow> Raised e st | Inr guid \<Rightarrow>
     (case iv_attr inst ''name'' of Inl e \<Rightarrow> Raised e st | Inr sourceId \<Rightarrow>
     (case iv_attr inst ''m1'' of Inl e \<Rightarrow> Raised e st | Inr m1 \<Rightarrow>
     (let st1 = set_event (event_key sourceId ''MetaData1'') (VStr m1) st in
     (case iv_attr inst ''m2'' of Inl e \<Rightarrow> Raised e st1 | Inr m2 \<Rightarrow>
     (let st2 = set_event (event_key sourceId ''MetaData2'') (VStr m2) st1 in
     (case iv_attr inst ''m3'' of Inl e \<Rightarrow> Raised e st2 | Inr m3 \<Rightarrow>
     (let st3 = set_event (event_key sourceId ''MetaData3'') (VStr m3) st2 in
     (case iv_attr inst ''m4'' of Inl e \<Rightarrow> Raised e st3 | Inr m4 \<Rightarrow>
     (let st4 = set_event (event_key sourceId ''MetaData4'') (VStr m4) st3 in
     (case iv_attr inst ''mArt'' of Inl e \<Rightarrow> Raised e st4 | Inr mArt \<Rightarrow>
     (let st5 = set_event (event_key sourceId ''mArt'') (VStr mArt) st4 in
      if mode st5 = MODE_STANDALONE then
        (case iv_attr inst ''friendlyName'' of Inl e \<Rightarrow> Raised e st5 | Inr name \<Rightarrow>
        (case iv_attr inst ''name'' of Inl e \<Rightarrow> Raised e st5 | Inr ident \<Rightarrow>
        (case (case zoneEntitiesByGuid st5 guid of
                 Some found \<Rightarrow> (Some found, update_ha found st5)
               | None \<Rightarrow> (scan_zone_id st5 ident, st5)) of
           (None, st6) \<Rightarrow> Returned st6
         | (Some found, st6) \<Rightarrow>
             Returned
               (update_ha found
                  (set_name_source_and_group found (Some name) (Some sourceId) None None None
                     (st6\<lparr>zoneEntitiesByGuid := (zoneEntitiesByGuid st6)(guid \<mapsto> found)\<rparr>))))))
      else
        (let st6 = (if guid \<notin> fst ` set (mms_instance_clients st5)
                    then open_instance_client guid sourceId st5 else st5)
         in if \<exists>z \<in> set (zoneEntities st6). mms_source_id z = sourceId
            then Raised UnboundLocalError st6
            else Returned st6)))))))))))))"

fun instance_loop :: "controller \<Rightarrow> iterval list \<Rightarrow> outcome" where
  "instance_loop st [] = Returned st"
| "instance_loop st (inst # rest) =
     (case process_instance st inst of
        Raised e st1 \<Rightarrow> Raised e st1
      | Returned st1 \<Rightarrow> instance_loop st1 rest)"

definition instances_of :: "xml \<Rightarrow> error + iterval list" where
  "instances_of root =
     then_err (root_item [''Instance''] root ''Instances'') (\<lambda>x.
     then_err (entry_attr x ''total'') (\<lambda>total.
     then_err (subscript [''Instance''] x ''Instance'') iterate))"

definition async_process_instance_response :: "env \<Rightarrow> controller \<Rightarrow> string \<Rightarrow> outcome" where
  "async_process_instance_response env st res =
     (case xml_parse env res of
        None \<Rightarrow> Raised ExpatError st
      | Some root \<Rightarrow>
          (case instances_of root of
             Inl e \<Rightarrow> Raised e st
           | Inr insts \<Rightarrow> instance_loop st insts))"

section \<open>Dispatch of frames\<close>

text \<open>
  The chain of prefix tests of \<open>async_mms_process_response\<close>: the handler's outcome,
  or \<open>None\<close> when no prefix matches.
\<close>

definition handle_frame :: "env \<Rightarrow> controller \<Rightarrow> string \<Rightarrow> outcome option" where
  "handle_frame env st s =
     (if startswith s ''<Zones'' then Some (process_mrad_zone_response env st s)
      else if startswith s ''<ZoneGroups'' then Some (process_mrad_zone_group_response env st s)
      else if startswith s ''MRAD.'' then Some (process_mrad_event env st s)
      else if startswith s ''<Instances'' then Some (async_process_instance_response env st s)
      else if startswith s ''ReportState'' \<or> startswith s ''StateChanged''
           then Some (process_instance_event env st s)
      else None)"

text \<open>
  \<open>async_mms_process_response\<close>: the state afterwards and the value returned, the
  frame's text, or \<open>None\<close> after an exception.
\<close>

definition async_mms_process_response ::
  "env \<Rightarrow> controller \<Rightarrow> string \<Rightarrow> controller \<times> string option" where
  "async_mms_process_response env st res =
     (case decode_utf8 env res of
        None \<Rightarrow> (send ''quit'' st, None)
      | Some text \<Rightarrow>
          (let s = strip text
           in (case handle_frame env st s of
                 None \<Rightarrow> (st, Some s)
               | Some (Returned st1) \<Rightarrow> (st1, Some s)
               | Some (Raised e st1) \<Rightarrow> (send ''quit'' st1, None))))"

section \<open>The media player entity\<close>

subsection \<open>Formatting\<close>

text \<open>What an f-string makes of \<open>None\<close> or a string, of a bool and of an int.\<close>

definition fmt_opt :: "string option \<Rightarrow> string" where
  "fmt_opt x = (case x of None \<Rightarrow> ''None'' | Some s \<Rightarrow> s)"

definition fmt_bool :: "bool \<Rightarrow> string" where
  "fmt_bool b = (if b then ''True'' else ''False'')"

function fmt_nat :: "nat \<Rightarrow> string" where
  "fmt_nat n =
     (if n < 10 then [''0123456789'' ! n]
      else fmt_nat (n div 10) @ [''0123456789'' ! (n mod 10)])"
  by pat_completeness auto
termination
  by (relation "measure id") auto

declare fmt_nat.simps [simp del]

definition fmt_int :: "int \<Rightarrow> string" where
  "fmt_int k = (if k < 0 then CHR ''-'' # fmt_nat (nat (- k)) else fmt_nat (nat k))"

text \<open>A text between double quotes.\<close>

definition quoted :: "string \<Rightarrow> string" where
  "quoted s = CHR 0x22 # s @ [CHR 0x22]"

subsection \<open>Availability\<close>

text \<open>
  The class body of \<open>MmsZone\<close> binds the property \<open>available\<close> twice, first to the
  function that returns \<open>self._controller.is_connected\<close> and later to the one that
  returns \<open>True\<close>. The bindings are listed in the order of the class body; the class
  keeps the last binding of a name.
\<close>

definition available_bindings :: "(string \<times> (controller \<Rightarrow> zone \<Rightarrow> bool)) list" where
  "available_bindings =
     [(''available'', \<lambda>st z. is_connected st),
      (''available'', \<lambda>st z. True)]"

definition available :: "controller \<Rightarrow> zone \<Rightarrow> bool" where
  "available st z =
     (case map_of (rev available_bindings) ''available'' of
        Some f \<Rightarrow> f st z
      | None \<Rightarrow> True)"

subsection \<open>Commands\<close>

text \<open>\<open>Controller.GetZoneByEntityId\<close>: the first zone with the entity id.\<close>

fun zone_by_entity_id_from :: "nat \<Rightarrow> zone list \<Rightarrow> string \<Rightarrow> nat option" where
  "zone_by_entity_id_from i [] ident = None"
| "zone_by_entity_id_from i (z # zs) ident =
     (if entity_id z = ident then Some i else zone_by_entity_id_from (Suc i) zs ident)"

definition GetZoneByEntityId :: "controller \<Rightarrow> string \<Rightarrow> nat option" where
  "GetZoneByEntityId st ident = zone_by_entity_id_from 0 (zoneEntities st) ident"

text \<open>
  The methods of the zone at index \<open>i\<close>. \<open>select_zone\<close> and \<open>select_instance\<close> are
  the two selector commands most of them send first.
\<close>

definition select_zone :: "nat \<Rightarrow> controller \<Rightarrow> controller" where
  "select_zone i st =
     send (''mrad.SetZone '' @ quoted (fmt_opt (mms_zone_id (zoneEntities st ! i)))) st"

definition select_instance :: "nat \<Rightarrow> controller \<Rightarrow> controller" where
  "select_instance i st =
     send (''setInstance '' @ quoted (mms_source_id (zoneEntities st ! i))) st"

definition select_source :: "nat \<Rightarrow> string \<Rightarrow> controller \<Rightarrow> controller" where
  "select_source i source st =
     (if mode st = MODE_MRAD
      then send (''mrad.SetSource '' @ quoted source) (select_zone i st)
      else st)"

definition turn_on :: "nat \<Rightarrow> controller \<Rightarrow> controller" where
  "turn_on i st =
     (if mode st = MODE_MRAD
      then send (''mrad.power on '' @ quoted (fmt_opt (mms_zone_id (zoneEntities st ! i)))) st
      else st)"

definition turn_off :: "nat \<Rightarrow> controller \<Rightarrow> controller" where
  "turn_off i st =
     (if mode st = MODE_MRAD
      then send (''mrad.power off '' @ quoted (fmt_opt (mms_zone_id (zoneEntities st ! i)))) st
      else st)"

datatype repeat_mode = RepeatMode_OFF | RepeatMode_ONE | RepeatMode_ALL

definition set_repeat :: "nat \<Rightarrow> repeat_mode \<Rightarrow> controller \<Rightarrow> controller" where
  "set_repeat i repeat st =
     (let arg = (if repeat = RepeatMode_OFF \<or> repeat = RepeatMode_ONE then ''False'' else ''True'')
      in if mode st = MODE_MRAD
         then send (''mrad.Repeat '' @ arg) (select_zone i st)
         else send (''Repeat '' @ arg) (select_instance i st))"

definition set_shuffle :: "nat \<Rightarrow> bool \<Rightarrow> controller \<Rightarrow> controller" where
  "set_shuffle i shuffle st =
     (if mode st = MODE_MRAD
      then send (''mrad.Shuffle '' @ fmt_bool shuffle) (select_zone i st)
      else send (''Shuffle '' @ fmt_bool shuffle) (select_instance i st))"

definition mute_volume :: "nat \<Rightarrow> bool \<Rightarrow> controller \<Rightarrow> controller" where
  "mute_volume i mute st =
     (let newState = (if mute then ''on'' else ''off'')
      in if mode st = MODE_MRAD then
           (if perform_group_volumes st
            then send (''mrad.mute '' @ newState @ '' ''
                       @ quoted (mms_groupGuid (zoneEntities st ! i))) st
            else send (''mrad.mute '' @ newState) (select_zone i st))
         else send (''mute '' @ newState) (select_instance i st))"

text \<open>
  \<open>set_volume_level\<close>. Floating point is outside the model: \<open>scaled\<close> stands for
  \<open>int(float(volume) * float(maxVolume))\<close>, the integer or the exception the
  conversions raise.
\<close>

definition set_volume_level :: "nat \<Rightarrow> error + int \<Rightarrow> controller \<Rightarrow> outcome" where
  "set_volume_level i scaled st =
     (if mode st = MODE_MRAD then
        (case scaled of
           Inl e \<Rightarrow> Raised e st
         | Inr volume \<Rightarrow>
             if perform_group_volumes st
             then Returned (send (''mrad.volume '' @ fmt_int volume @ '' ''
                                  @ quoted (mms_groupGuid (zoneEntities st ! i))) st)
             else Returned (send (''mrad.volume '' @ fmt_int volume) (select_zone i st)))
      else
        (if get_event st (fmt_opt (mms_zone_id (zoneEntities st ! i))) ''GainMode'' = VStr ''Fixed''
         then Returned st
         else
           (case scaled of
              Inl e \<Rightarrow> Raised e st
            | Inr volume \<Rightarrow>
                Returned (send (''SetVolume '' @ fmt_int volume) (select_instance i st)))))"

definition async_volume_up :: "nat \<Rightarrow> controller \<Rightarrow> controller" where
  "async_volume_up i st =
     (if mode st = MODE_MRAD then
        (if perform_group_volumes st
         then send (''mrad.VolumeUp '' @ quoted (mms_groupGuid (zoneEntities st ! i))) st
         else send ''mrad.VolumeUp'' (select_zone i st))
      else
        (if get_event st (fmt_opt (mms_zone_id (zoneEntities st ! i))) ''GainMode'' = VStr ''Fixed''
         then st
         else send ''VolumeUp'' (select_instance i st)))"

definition async_volume_down :: "nat \<Rightarrow> controller \<Rightarrow> controller" where
  "async_volume_down i st =
     (if mode st = MODE_MRAD then
        (if perform_group_volumes st
         then send (''mrad.VolumeDown '' @ quoted (mms_groupGuid (zoneEntities st ! i))) st
         else send ''mrad.VolumeDown'' (select_zone i st))
      else
        (if get_event st (fmt_opt (mms_zone_id (zoneEntities st ! i))) ''GainMode'' = VStr ''Fixed''
         then st
         else send ''VolumeDown'' (select_instance i st)))"

text \<open>
  The five transport controls differ in the word they send: \<open>play\<close>, \<open>pause\<close>,
  \<open>stop\<close>, \<open>SkipPrevious\<close> and \<open>SkipNext\<close>.
\<close>

definition transport :: "string \<Rightarrow> nat \<Rightarrow> controller \<Rightarrow> controller" where
  "transport word i st =
     (if mode st = MODE_MRAD
      then send (''mrad.'' @ word) (select_zone i st)
      else send word (select_instance i st))"

definition media_play :: "nat \<Rightarrow> controller \<Rightarrow> controller" where
  "media_play = transport ''play''"

definition media_pause :: "nat \<Rightarrow> controller \<Rightarrow> controller" where
  "media_pause = transport ''pause''"

definition media_stop :: "nat \<Rightarrow> controller \<Rightarrow> controller" where
  "media_stop = transport ''stop''"

definition media_previous_track :: "nat \<Rightarrow> controller \<Rightarrow> controller" where
  "media_previous_track = transport ''SkipPrevious''"

definition media_next_track :: "nat \<Rightarrow> controller \<Rightarrow> controller" where
  "media_next_track = transport ''SkipNext''"

text \<open>
  \<open>media_seek\<close>. \<open>position\<close> stands for \<open>int(position)\<close>, the integer or the
  exception the conversion of the float raises.
\<close>

definition media_seek :: "nat \<Rightarrow> error + int \<Rightarrow> controller \<Rightarrow> outcome" where
  "media_seek i position st =
     (let st1 = (if mode st = MODE_MRAD then send ''mrad.SetSource'' (select_zone i st)
                 else send (''SetInstance '' @ quoted (mms_source_id (zoneEntities st ! i))) st)
      in (case position of
            Inl e \<Rightarrow> Raised e st1
          | Inr p \<Rightarrow>
              (let st2 = send (''seek '' @ fmt_int p) st1;
                   src = mms_source_id (zoneEntities st2 ! i);
                   st3 = snd (pop_event st2 src ''TrackTime'')
               in (case get_event st3 src ''QualifiedSourceName'' of
                     VNone \<Rightarrow> Returned st3
                   | VStr q \<Rightarrow>
                       Returned (snd (pop_event st3 (hd (split_on CHR ''@'' q)) ''TrackTime''))
                   | _ \<Rightarrow> Raised AttributeError st3))))"

definition join_players :: "nat \<Rightarrow> string list \<Rightarrow> controller \<Rightarrow> controller" where
  "join_players i group_members st =
     (let st1 =
            (if \<not> isOn (zoneEntities st ! i) then
               (let st2 = select_source i ''Source_2000'' (turn_on i st)
                in st2\<lparr>zoneEntities :=
                         (zoneEntities st2)[i := (zoneEntities st2 ! i)\<lparr>mms_source_id := ''Source_2000''\<rparr>]\<rparr>)
             else st)
      in fold (\<lambda>member s.
                 (case GetZoneByEntityId s member of
                    None \<Rightarrow> s
                  | Some other \<Rightarrow>
                      select_source other (mms_source_id (zoneEntities s ! i)) (turn_on other s)))
           group_members st1)"

definition unjoin_player :: "nat \<Rightarrow> controller \<Rightarrow> controller" where
  "unjoin_player i st = turn_off i st"

text \<open>
  The command paths of a zone entity as one type, so that a statement can range over
  all of them.
\<close>

datatype command =
  SelectSource string | TurnOn | TurnOff | SetRepeat repeat_mode | SetShuffle bool
  | MuteVolume bool | SetVolumeLevel "error + int" | VolumeUp | VolumeDown
  | MediaPlay | MediaPause | MediaStop | MediaPreviousTrack | MediaNextTrack
  | MediaSeek "error + int" | JoinPlayers "string list" | UnjoinPlayer

fun run_command :: "nat \<Rightarrow> command \<Rightarrow> controller \<Rightarrow> outcome" where
  "run_command i (SelectSource source) st = Returned (select_source i source st)"
| "run_command i TurnOn st = Returned (turn_on i st)"
| "run_command i TurnOff st = Returned (turn_off i st)"
| "run_command i (SetRepeat r) st = Returned (set_repeat i r st)"
| "run_command i (SetShuffle b) st = Returned (set_shuffle i b st)"
| "run_command i (MuteVolume b) st = Returned (mute_volume i b st)"
| "run_command i (SetVolumeLevel v) st = set_volume_level i v st"
| "run_command i VolumeUp st = Returned (async_volume_up i st)"
| "run_command i VolumeDown st = Returned (async_volume_down i st)"
| "run_command i MediaPlay st = Returned (media_play i st)"
| "run_command i MediaPause st = Returned (media_pause i st)"
| "run_command i MediaStop st = Returned (media_stop i st)"
| "run_command i MediaPreviousTrack st = Returned (media_previous_track i st)"
| "run_command i MediaNextTrack st = Returned (media_next_track i st)"
| "run_command i (MediaSeek p) st = media_seek i p st"
| "run_command i (JoinPlayers ms) st = Returned (join_players i ms st)"
| "run_command i UnjoinPlayer st = Returned (unjoin_player i st)"

text \<open>The commands a call has sent: the texts added to \<open>sent\<close>.\<close>

definition new_commands :: "controller \<Rightarrow> controller \<Rightarrow> string list" where
  "new_commands st st1 = map snd (drop (length (sent st)) (sent st1))"

text \<open>
  The commands that only the branches for the other modes send: the instance
  selector and the words without the \<open>mrad.\<close> prefix that follow it.
\<close>

definition standalone_only :: "string \<Rightarrow> bool" where
  "standalone_only c =
     (startswith c ''setInstance '' \<or> startswith c ''SetInstance ''
      \<or> startswith c ''Repeat '' \<or> startswith c ''Shuffle '' \<or> startswith c ''mute ''
      \<or> startswith c ''SetVolume ''
      \<or> c \<in> {''VolumeUp'', ''VolumeDown'', ''play'', ''pause'', ''stop'', ''SkipPrevious'',
              ''SkipNext''})"

section \<open>Construction and sample data\<close>

text \<open>The state \<open>Controller.__init__\<close> sets up, and \<open>add_zone_entity\<close>.\<close>

definition Controller_init :: "mode \<Rightarrow> controller" where
  "Controller_init m =
     \<lparr>mode = m, is_connected = False, events = Map.empty, zoneEntities = [],
      zoneEntitiesByGuid = Map.empty, switchEntities = 0, perform_group_volumes = False,
      mms_instance_clients = [], sent = [], refreshed = [], hidden = [], switch_updates = 0\<rparr>"

definition add_zone_entity :: "zone \<Rightarrow> controller \<Rightarrow> controller" where
  "add_zone_entity z st = st\<lparr>zoneEntities := zoneEntities st @ [z]\<rparr>"

text \<open>
  The zone \<open>MmsZone.__init__\<close> makes for index \<open>n\<close> of an amplifier, given the entity
  id and the name it gets, and the one it makes for a standalone instance.
\<close>

definition mrad_zone :: "string \<Rightarrow> nat \<Rightarrow> string \<Rightarrow> zone" where
  "mrad_zone eid n nm =
     \<lparr>entity_id = eid, mms_zone_id = Some (''Zone_'' @ fmt_nat n), mms_source_id = [],
      zone_name = nm, attr_group_members = [], mms_groupGuid = [], mms_groupName = [],
      isOn = False\<rparr>"

definition standalone_zone :: "string \<Rightarrow> string \<Rightarrow> string \<Rightarrow> zone" where
  "standalone_zone eid indexOrName nm =
     \<lparr>entity_id = eid, mms_zone_id = None, mms_source_id = replace '' '' ''_'' indexOrName,
      zone_name = nm, attr_group_members = [], mms_groupGuid = [], mms_groupName = [],
      isOn = False\<rparr>"

text \<open>An amplifier with two zones, used to run the model on concrete frames.\<close>

definition two_zones :: controller where
  "two_zones =
     add_zone_entity (mrad_zone ''media_player.kitchen'' 2 ''MMS Zone 02'')
       (add_zone_entity (mrad_zone ''media_player.office'' 1 ''MMS Zone 01'')
          (Controller_init MODE_MRAD))"

text \<open>The event names the branch for an empty art URL writes, in its order.\<close>

definition reset_event_names :: "string list" where
  "reset_event_names =
     [''mArt'', ''MetaData1'', ''MetaData2'', ''MetaData3'', ''MetaData4'', ''TrackDuration'',
      ''TrackTime'', ''TrackTimeUtc'', ''Shuffle'', ''SmartSource'']"

text \<open>
  An environment with threshold 60 and interval 10, the values of the spec's example,
  and the interpreter's own limit of 4300 digits. Its parser knows no document.
\<close>

definition sample_env :: env where
  "sample_env =
     \<lparr>TICK_THRESHOLD_SECONDS = 60, TICK_UPDATE_SECONDS = 10, xml_parse = (\<lambda>s. None),
      utcnow = 1000, decode_utf8 = Some, int_max_str_digits = 4300\<rparr>"

text \<open>
  A call has only added commands that pass a test, and has kept the mode.
\<close>

definition sends_only :: "(string \<Rightarrow> bool) \<Rightarrow> controller \<Rightarrow> controller \<Rightarrow> bool" where
  "sends_only Q st st1 \<longleftrightarrow>
     mode st1 = mode st \<and> (\<exists>xs. sent st1 = sent st @ xs \<and> (\<forall>c \<in> set xs. Q (snd c)))"

text \<open>
  What an amplifier may send: a command with the prefix \<open>mrad.\<close>, or the \<open>seek\<close> that
  \<open>media_seek\<close> sends in every mode, and none of the standalone commands.
\<close>

definition mrad_ok :: "string \<Rightarrow> bool" where
  "mrad_ok c \<longleftrightarrow> (startswith c ''mrad.'' \<or> startswith c ''seek '') \<and> \<not> standalone_only c"

text \<open>An amplifier with its session in standalone mode and one instance.\<close>

definition one_instance :: controller where
  "one_instance =
     add_zone_entity (standalone_zone ''media_player.player_a'' ''Player A'' ''MMS Player A'')
       (Controller_init MODE_STANDALONE)"

text \<open>
  A step has left the zone entities, the GUID bindings and every \<open>SourceList\<close> key
  of the store as they were.
\<close>

definition keeps_bindings :: "controller \<Rightarrow> controller \<Rightarrow> bool" where
  "keeps_bindings st st1 \<longleftrightarrow>
     zoneEntities st1 = zoneEntities st
     \<and> zoneEntitiesByGuid st1 = zoneEntitiesByGuid st
     \<and> (\<forall>eventId. events st1 (event_key eventId ''SourceList'')
                     = events st (event_key eventId ''SourceList''))"

text \<open>
  A zone-group document whose only group has one zone in its \<open>vol\<close> element, and an
  environment whose parser returns that document for every text.
\<close>

definition single_zone_doc :: xml where
  "single_zone_doc =
     Element ''ZoneGroups'' [(''total'', ''1'')]
       [Element ''ZoneGroup''
          [(''guid'', ''g-1''), (''name'', ''ZG_1''), (''sId'', ''20000''), (''mArt'', [])]
          [Element ''vol'' []
             [Element ''zone''
                [(''eventId'', ''Zone_1''), (''guid'', ''z-1''), (''name'', ''Office'')] []],
           Element ''Sources'' []
             [Element ''Source''
                [(''guid'', ''s-1''), (''name'', ''Player A''), (''sId'', ''20000'')] [],
              Element ''Source''
                [(''guid'', ''s-2''), (''name'', ''Player B''), (''sId'', ''20001'')] []]]]"

definition single_zone_env :: env where
  "single_zone_env = sample_env\<lparr>xml_parse := (\<lambda>s. Some single_zone_doc)\<rparr>"

text \<open>
  Every GUID binding refers to a zone entity of the controller. The code only ever
  binds a GUID to a member of \<open>_zoneEntities\<close>.
\<close>

definition bindings_in_range :: "controller \<Rightarrow> bool" where
  "bindings_in_range st \<longleftrightarrow>
     (\<forall>g i. zoneEntitiesByGuid st g = Some i \<longrightarrow> i < length (zoneEntities st))"

text \<open>
  The zone entities that are collected as members of some group while the loop over
  the groups of a frame runs from the state \<open>st\<close>.
\<close>

fun frame_members :: "controller \<Rightarrow> iterval list \<Rightarrow> nat set" where
  "frame_members st [] = {}"
| "frame_members st (grp # rest) =
     (case collect_zone_group st grp of
        Inl (e, st1) \<Rightarrow> {}
      | Inr (st3, ents, ids) \<Rightarrow>
          set ents \<union> frame_members (set_group_members ents ids st3) rest)"

text \<open>The entity ids and the group-member lists of the zone entities, by index.\<close>

definition eids :: "controller \<Rightarrow> string list" where
  "eids st = map entity_id (zoneEntities st)"

definition gms :: "controller \<Rightarrow> string list list" where
  "gms st = map attr_group_members (zoneEntities st)"

text \<open>
  What the loop over the zones of a group keeps, stated for its accumulators: the ids
  collected are the entity ids of the zones collected, in the same order and without
  repetition, and every zone collected exists.
\<close>

definition acc_ok :: "controller \<Rightarrow> nat list \<times> string list \<Rightarrow> bool" where
  "acc_ok st acc \<longleftrightarrow>
     snd acc = map (\<lambda>i. eids st ! i) (fst acc) \<and> distinct (snd acc)
     \<and> (\<forall>i \<in> set (fst acc). i < length (eids st))"

text \<open>
  A step has kept the entity ids and the group-member lists of all zone entities,
  and the bindings still refer to zone entities.
\<close>

definition same_shape :: "controller \<Rightarrow> controller \<Rightarrow> bool" where
  "same_shape st st1 \<longleftrightarrow>
     eids st1 = eids st \<and> gms st1 = gms st \<and> bindings_in_range st1"

definition vol_post ::
  "controller \<Rightarrow> nat list \<times> string list
   \<Rightarrow> (error \<times> controller) + (controller \<times> nat list \<times> string list) \<Rightarrow> bool" where
  "vol_post st acc r =
     (case r of
        Inl (e, st1) \<Rightarrow> same_shape st st1
      | Inr (st1, acc1) \<Rightarrow> same_shape st st1 \<and> acc_ok st1 acc1 \<and> set (fst acc) \<subseteq> set (fst acc1))"

text \<open>A list of group members as C3 wants it, for the zone with entity id \<open>eid\<close>.\<close>

definition good_members :: "string \<Rightarrow> string list \<Rightarrow> bool" where
  "good_members eid l \<longleftrightarrow> sorted l \<and> distinct l \<and> eid \<in> set l"

text \<open>The groups the handler iterates over for a frame; none when it raises before.\<close>

definition frame_groups :: "env \<Rightarrow> string \<Rightarrow> iterval list" where
  "frame_groups env res =
     (case xml_parse env (merge_vol_src res) of
        None \<Rightarrow> []
      | Some root \<Rightarrow> (case zone_groups_of root of Inl e \<Rightarrow> [] | Inr groups \<Rightarrow> groups))"

text \<open>
  A zone-group document with one group that names zone 1, zone 2 and zone 1 again,
  and an environment whose parser returns it for every text.
\<close>

definition two_zone_doc :: xml where
  "two_zone_doc =
     Element ''ZoneGroups'' [(''total'', ''1'')]
       [Element ''ZoneGroup''
          [(''guid'', ''g-1''), (''name'', ''ZG_1''), (''sId'', ''20000''), (''mArt'', ''http://art'')]
          [Element ''vol'' []
             [Element ''zone''
                [(''eventId'', ''Zone_1''), (''guid'', ''z-1''), (''name'', ''Office'')] [],
              Element ''zone''
                [(''eventId'', ''Zone_2''), (''guid'', ''z-2''), (''name'', ''Kitchen'')] [],
              Element ''zone''
                [(''eventId'', ''Zone_1''), (''guid'', ''z-1''), (''name'', ''Office'')] []],
           Element ''Sources'' []
             [Element ''Source''
                [(''guid'', ''s-1''), (''name'', ''Player A''), (''sId'', ''20000'')] [],
              Element ''Source''
                [(''guid'', ''s-2''), (''name'', ''Player B''), (''sId'', ''20001'')] []]]]"

definition two_zone_env :: env where
  "two_zone_env = sample_env\<lparr>xml_parse := (\<lambda>s. Some two_zone_doc)\<rparr>"

text \<open>
  For the zone snapshot: the fields read from a zone element (GUID, source id, name
  and id), the zone entity an element is resolved to in a state, and the handler's
  loop as a fold over the fields of the elements it gets through before an exception.
\<close>

type_synonym zfields = "string \<times> string \<times> string \<times> string"

definition ident_of :: "zfields \<Rightarrow> string" where
  "ident_of f = snd (snd (snd f))"

definition write_zone :: "zfields \<Rightarrow> zone \<Rightarrow> zone" where
  "write_zone f z = z\<lparr>zone_name := fst (snd (snd f)), mms_source_id := fst (snd f)\<rparr>"

definition tgt :: "controller \<Rightarrow> zfields \<Rightarrow> nat option" where
  "tgt st f =
     (case zoneEntitiesByGuid st (fst f) of
        Some i \<Rightarrow> Some i
      | None \<Rightarrow> scan_zone_id st (ident_of f))"

definition run_zones :: "controller \<Rightarrow> zfields list \<Rightarrow> controller" where
  "run_zones st fs = fold (\<lambda>f s. bind_zone s f) fs st"

fun ok_fields :: "iterval list \<Rightarrow> zfields list" where
  "ok_fields [] = []"
| "ok_fields (z # zs) = (case zone_fields z of Inl e \<Rightarrow> [] | Inr f \<Rightarrow> f # ok_fields zs)"

definition stable :: "controller \<Rightarrow> zfields \<Rightarrow> bool" where
  "stable st f \<longleftrightarrow>
     zoneEntitiesByGuid st (fst f) \<noteq> None \<or> scan_zone_id st (ident_of f) = None"

fun run2 :: "(string \<rightharpoonup> nat) \<Rightarrow> zfields list \<Rightarrow> zone list \<Rightarrow> zone list" where
  "run2 c [] zs = zs"
| "run2 c (f # fs) zs =
     run2 c fs (case c (fst f) of None \<Rightarrow> zs | Some i \<Rightarrow> zs[i := write_zone f (zs ! i)])"

text \<open>
  The zone entities that the elements of a frame are resolved to under given
  bindings, one entry for each element with a bound GUID.
\<close>

fun targets :: "(string \<rightharpoonup> nat) \<Rightarrow> zfields list \<Rightarrow> nat list" where
  "targets c [] = []"
| "targets c (f # fs) =
     (case c (fst f) of None \<Rightarrow> targets c fs | Some i \<Rightarrow> i # targets c fs)"

text \<open>The fields of the zone elements the handler processes for a frame.\<close>

definition frame_fields :: "env \<Rightarrow> string \<Rightarrow> zfields list" where
  "frame_fields env res =
     (case xml_parse env res of
        None \<Rightarrow> []
      | Some root \<Rightarrow> (case zones_of root of Inl e \<Rightarrow> [] | Inr zs \<Rightarrow> ok_fields zs))"

text \<open>
  A zone snapshot with the two zones of the amplifier and a third zone that no zone
  entity stands for, and an environment whose parser returns it for every text.
\<close>

definition zones_doc :: xml where
  "zones_doc =
     Element ''Zones'' [(''total'', ''3'')]
       [Element ''Zone''
          [(''guid'', ''z-1''), (''name'', ''Office''), (''id'', ''Zone_1''),
           (''sourceId'', ''20000'')] [],
        Element ''Zone''
          [(''guid'', ''z-2''), (''name'', ''Kitchen''), (''id'', ''Zone_2''),
           (''sourceId'', ''20001'')] [],
        Element ''Zone''
          [(''guid'', ''z-9''), (''name'', ''Patio''), (''id'', ''Zone_9''),
           (''sourceId'', ''20000'')] []]"

definition zones_env :: env where
  "zones_env = sample_env\<lparr>xml_parse := (\<lambda>s. Some zones_doc)\<rparr>"

text \<open>
  The two outcomes of a position event, for both telemetry handlers at once: the
  event is dropped (each handler returns the controller as it was), or the value is
  stored (each handler returns with the value under the key).
\<close>

definition position_dropped :: "env \<Rightarrow> controller \<Rightarrow> string \<Rightarrow> bool" where
  "position_dropped env st res \<longleftrightarrow>
     process_mrad_event env st res = Returned st
     \<and> process_instance_event env st res = Returned st"

definition position_stored :: "env \<Rightarrow> controller \<Rightarrow> string \<Rightarrow> string \<Rightarrow> string \<Rightarrow> bool" where
  "position_stored env st res key val \<longleftrightarrow>
     (\<exists>st1. process_mrad_event env st res = Returned st1 \<and> events st1 key = Some (VStr val))
     \<and> (\<exists>st1. process_instance_event env st res = Returned st1
               \<and> events st1 key = Some (VStr val))"

section \<open>Basic facts about the state\<close>

lemma events_set_event: "events (set_event k v st) = (events st)(k \<mapsto> v)"
  by (simp add: set_event_def)

lemma events_update_ha: "events (update_ha i st) = events st"
  by (simp add: update_ha_def)

lemma events_fold_update:
  "events (fold (\<lambda>i s. if P (zoneEntities s ! i) then update_ha i s else s) xs st) = events st"
  by (induction xs arbitrary: st) (simp_all add: events_update_ha)

lemma events_update_zones_where: "events (update_zones_where P st) = events st"
  by (simp add: update_zones_where_def events_fold_update)

lemma is_connected_fold_update_ha:
  "is_connected (fold update_ha xs st) = is_connected st"
  by (induction xs arbitrary: st) (simp_all add: update_ha_def)

lemma events_send: "events (send c st) = events st"
  by (simp add: send_def mms_send_def)

lemma reset_keys_card: "card (event_key sourceId ` set reset_event_names) = 10"
proof -
  have "inj (event_key sourceId)"
    by (simp add: inj_on_def event_key_def)
  then have "card (event_key sourceId ` set reset_event_names) = card (set reset_event_names)"
    by (simp add: card_image inj_on_def)
  also have "\<dots> = length reset_event_names"
    by (rule distinct_card) (simp add: reset_event_names_def)
  also have "\<dots> = 10"
    by (simp add: reset_event_names_def)
  finally show ?thesis .
qed

section \<open>The event store lookup\<close>

text \<open>
  C9, as the code has it. \<open>get_event\<close> returns \<open>None\<close> when the key is missing and
  also when the key holds \<open>None\<close>; for a key that is present it returns the stored
  value, so a stored \<open>False\<close> (or any other value than \<open>None\<close>) is told apart from
  a missing key.
\<close>

theorem get_event_absent_or_null:
  "(get_event st entityId eventName = VNone \<longleftrightarrow>
      event_key entityId eventName \<notin> dom (events st)
      \<or> events st (event_key entityId eventName) = Some VNone)
   \<and> (\<forall>v. events st (event_key entityId eventName) = Some v
          \<longrightarrow> get_event st entityId eventName = v)"
  by (auto simp: get_event_def split: option.splits)

theorem get_event_absent_or_null_witness:
  "events (group_art ''Source_20000'' [] (Controller_init MODE_MRAD))
     (event_key ''Source_20000'' ''SmartSource'') = Some (VBool False)
   \<and> get_event (group_art ''Source_20000'' [] (Controller_init MODE_MRAD))
        ''Source_20000'' ''SmartSource'' = VBool False"
proof -
  have h: "events (group_art ''Source_20000'' [] (Controller_init MODE_MRAD))
             (event_key ''Source_20000'' ''SmartSource'') = Some (VBool False)"
    by (simp add: group_art_def reset_source_art_def set_event_def event_key_def
        Controller_init_def)
  from get_event_absent_or_null
    [of "group_art ''Source_20000'' [] (Controller_init MODE_MRAD)" "''Source_20000''"
        "''SmartSource''"]
  have "get_event (group_art ''Source_20000'' [] (Controller_init MODE_MRAD))
          ''Source_20000'' ''SmartSource'' = VBool False"
    using h by blast
  with h show ?thesis by simp
qed

text \<open>
  C9 as stated fails: after the reset for an empty art URL the key
  \<open>Source_20000.mArt\<close> is in the store and holds \<open>None\<close>, and \<open>get_event\<close> returns
  for it what it returns for the same key in the empty store.
\<close>

theorem get_event_null_counterexample:
  "event_key ''Source_20000'' ''mArt''
     \<in> dom (events (group_art ''Source_20000'' [] (Controller_init MODE_MRAD)))
   \<and> get_event (group_art ''Source_20000'' [] (Controller_init MODE_MRAD))
        ''Source_20000'' ''mArt'' = VNone
   \<and> event_key ''Source_20000'' ''mArt'' \<notin> dom (events (Controller_init MODE_MRAD))
   \<and> get_event (Controller_init MODE_MRAD) ''Source_20000'' ''mArt'' = VNone"
  by (simp add: group_art_def reset_source_art_def set_event_def event_key_def get_event_def
      Controller_init_def)

section \<open>Availability while disconnected\<close>

text \<open>
  C6 at the code: once the primary connection has reported the disconnect, and also
  when the controller starts to connect, the controller is marked disconnected, and
  the property \<open>available\<close> of every zone still returns \<open>True\<close>, because the second
  binding of the property replaces the one that returns \<open>is_connected\<close>.
\<close>

theorem available_after_disconnect:
  "is_connected (mms_connected st ''*'' False) = False
   \<and> available (mms_connected st ''*'' False) z = True
   \<and> is_connected (async_connect_to_mms st) = False
   \<and> available (async_connect_to_mms st) z = True"
  by (simp add: mms_connected_def async_connect_to_mms_def available_def
      available_bindings_def Let_def is_connected_fold_update_ha)

section \<open>The commands sent on connect\<close>

text \<open>
  C4. When the primary connection reports that it is connected, the controller ends
  in the state reached by sending, on the state with the event store emptied, first
  the client type and the output format and then, in standalone mode, the browse of
  the instances alone, and otherwise the event subscription and the status request,
  the browse of the instances, and last the browse of the zones and of the zone
  groups.
\<close>

theorem connect_sequence:
  "mms_connected st ''*'' True =
     fold (mms_send ''*'')
       ([''setclienttype hass'', ''setxmlmode lists'']
        @ (if mode st = MODE_STANDALONE then [''browseinstances'']
           else [''mrad.subscribeevents'', ''mrad.getstatus'', ''browseinstances'',
                 ''mrad.browseallzones'', ''mrad.browsezonegroups'']))
       (st\<lparr>is_connected := True, switch_updates := switch_updates st + switchEntities st,
           events := Map.empty\<rparr>)"
  by (simp add: mms_connected_def Let_def mms_send_def)

theorem connect_sequence_witness:
  "events (mms_connected (set_event ''Zone_1.Volume'' (VStr ''30'') two_zones) ''*'' True)
     = Map.empty
   \<and> sent (mms_connected (set_event ''Zone_1.Volume'' (VStr ''30'') two_zones) ''*'' True)
     = [(''*'', ''setclienttype hass''), (''*'', ''setxmlmode lists''),
        (''*'', ''mrad.subscribeevents''), (''*'', ''mrad.getstatus''),
        (''*'', ''browseinstances''), (''*'', ''mrad.browseallzones''),
        (''*'', ''mrad.browsezonegroups'')]"
  using connect_sequence [of "set_event ''Zone_1.Volume'' (VStr ''30'') two_zones"]
  by (simp add: mms_send_def set_event_def two_zones_def add_zone_entity_def
      Controller_init_def)

section \<open>The reset for an empty art URL\<close>

text \<open>
  C2, as the code has it. The branch for an empty art URL writes ten keys of the
  group's source: \<open>None\<close> under \<open>mArt\<close>, \<open>MetaData1\<close> to \<open>MetaData4\<close>,
  \<open>TrackDuration\<close>, \<open>TrackTime\<close>, \<open>TrackTimeUtc\<close> and \<open>Shuffle\<close>, and \<open>False\<close>
  under \<open>SmartSource\<close>. It leaves every other key of the store, and everything else
  in the controller, as it was.
\<close>

theorem empty_art_resets_ten_keys:
  "(\<forall>n \<in> set reset_event_names.
       events (group_art sourceId [] st) (event_key sourceId n)
         = Some (if n = ''SmartSource'' then VBool False else VNone))
   \<and> (\<forall>key. key \<notin> event_key sourceId ` set reset_event_names
          \<longrightarrow> events (group_art sourceId [] st) key = events st key)
   \<and> card (event_key sourceId ` set reset_event_names) = 10
   \<and> (\<exists>ev. group_art sourceId [] st = st\<lparr>events := ev\<rparr>)"
proof -
  have a: "\<forall>n \<in> set reset_event_names.
       events (group_art sourceId [] st) (event_key sourceId n)
         = Some (if n = ''SmartSource'' then VBool False else VNone)"
    by (simp add: reset_event_names_def group_art_def reset_source_art_def events_set_event
        event_key_def)
  have b: "\<forall>key. key \<notin> event_key sourceId ` set reset_event_names
          \<longrightarrow> events (group_art sourceId [] st) key = events st key"
    by (simp add: reset_event_names_def group_art_def reset_source_art_def events_set_event)
  have e: "\<exists>ev. group_art sourceId [] st = st\<lparr>events := ev\<rparr>"
    by (rule exI [of _ "events (group_art sourceId [] st)"])
       (simp add: group_art_def reset_source_art_def set_event_def)
  from a b e reset_keys_card [of sourceId] show ?thesis by blast
qed

theorem empty_art_resets_ten_keys_witness:
  "''Shuffle'' \<in> set reset_event_names
   \<and> ''Source_20000.QualifiedSourceName'' \<notin> event_key ''Source_20000'' ` set reset_event_names
   \<and> events (group_art ''Source_20000'' []
               (set_event ''Source_20000.QualifiedSourceName'' (VStr ''Player_A'')
                  (set_event ''Source_20000.Shuffle'' (VStr ''True'') two_zones)))
        (event_key ''Source_20000'' ''Shuffle'') = Some VNone
   \<and> events (group_art ''Source_20000'' []
               (set_event ''Source_20000.QualifiedSourceName'' (VStr ''Player_A'')
                  (set_event ''Source_20000.Shuffle'' (VStr ''True'') two_zones)))
        ''Source_20000.QualifiedSourceName'' = Some (VStr ''Player_A'')"
proof -
  have m: "''Shuffle'' \<in> set reset_event_names"
    by (simp add: reset_event_names_def)
  have k: "''Source_20000.QualifiedSourceName''
             \<notin> event_key ''Source_20000'' ` set reset_event_names"
    by (simp add: reset_event_names_def event_key_def)
  from empty_art_resets_ten_keys
    [of "''Source_20000''"
        "set_event ''Source_20000.QualifiedSourceName'' (VStr ''Player_A'')
           (set_event ''Source_20000.Shuffle'' (VStr ''True'') two_zones)"]
    m k
  show ?thesis by (simp add: events_set_event)
qed

text \<open>
  C2 as stated fails: in the empty store, the reset for the source \<open>Source_20000\<close>
  leaves ten keys behind, not seven.
\<close>

theorem empty_art_seven_keys_counterexample:
  "dom (events (Controller_init MODE_MRAD)) = {}
   \<and> card (dom (events (group_art ''Source_20000'' [] (Controller_init MODE_MRAD)))) = 10
   \<and> card (dom (events (group_art ''Source_20000'' [] (Controller_init MODE_MRAD)))) \<noteq> 7"
proof -
  have "dom (events (group_art ''Source_20000'' [] (Controller_init MODE_MRAD)))
        = event_key ''Source_20000'' ` set reset_event_names"
    by (simp add: group_art_def reset_source_art_def events_set_event Controller_init_def
        reset_event_names_def insert_commute)
  then have "card (dom (events (group_art ''Source_20000'' [] (Controller_init MODE_MRAD)))) = 10"
    by (simp only: reset_keys_card)
  then show ?thesis by (simp add: Controller_init_def)
qed

section \<open>The throttle of playback positions\<close>

lemma track_time_stored:
  "events (fst (store_and_derive env entityId ''TrackTime'' v st))
     (event_key entityId ''TrackTime'') = Some (VStr v)"
  by (simp add: store_and_derive_def events_set_event event_key_def)

lemma track_time_name:
  "snd (store_and_derive env entityId ''TrackTime'' v st) = ''SmartSource''"
  by (simp add: store_and_derive_def)

lemma position_stored_when:
  assumes p: "parse_event res = Inr (entityId, ''TrackTime'', v)"
    and d: "tick_dropped env st (event_key entityId ''TrackTime'')
              (replace ''00:00:00'' ''0'' v) = Inr False"
  shows "position_stored env st res (event_key entityId ''TrackTime'')
           (replace ''00:00:00'' ''0'' v)"
proof -
  obtain st1 nm where
    s: "store_and_derive env entityId ''TrackTime'' (replace ''00:00:00'' ''0'' v) st = (st1, nm)"
    by (cases "store_and_derive env entityId ''TrackTime'' (replace ''00:00:00'' ''0'' v) st")
  have e: "events st1 (event_key entityId ''TrackTime'')
             = Some (VStr (replace ''00:00:00'' ''0'' v))"
    using track_time_stored [of env entityId "replace ''00:00:00'' ''0'' v" st] s by simp
  have nm: "nm = ''SmartSource''"
    using track_time_name [of env entityId "replace ''00:00:00'' ''0'' v" st] s by simp
  have m: "\<exists>st2. process_mrad_event env st res = Returned st2
                  \<and> events st2 (event_key entityId ''TrackTime'')
                      = Some (VStr (replace ''00:00:00'' ''0'' v))"
    using p d s e by (simp add: process_mrad_event_def events_update_zones_where)
  have k: "\<exists>st2. process_instance_event env st res = Returned st2
                  \<and> events st2 (event_key entityId ''TrackTime'')
                      = Some (VStr (replace ''00:00:00'' ''0'' v))"
    using p d s e nm by (simp add: process_instance_event_def events_update_zones_where)
  from m k show ?thesis unfolding position_stored_def by (rule conjI)
qed

text \<open>
  The limit on the digits: with the interpreter's own limit of 4300, a position of
  4301 digits is refused by \<open>int\<close>, and the test of a stored key raises.
\<close>

lemma int_strip_digits:
  assumes "\<forall>c \<in> set s. is_digit c"
  shows "int_strip s = s"
proof -
  have d: "\<And>c. is_digit c \<Longrightarrow> \<not> is_int_space c"
    by (auto simp: is_digit_def is_int_space_def)
  have a: "dropWhile is_int_space s = s"
    using assms d by (cases s) auto
  have b: "dropWhile is_int_space (rev s) = rev s"
    using assms d by (cases "rev s") (auto simp: rev_eq_Cons_iff)
  show ?thesis by (simp add: int_strip_def a b)
qed

lemma int_refuses_4301_digits: "py_int 4300 (replicate 4301 (CHR ''1'')) = None"
proof -
  have d: "is_digit (CHR ''1'')" by (simp add: is_digit_def)
  have s: "int_strip (replicate 4301 (CHR ''1'')) = CHR ''1'' # replicate 4300 (CHR ''1'')"
    using int_strip_digits [of "replicate 4301 (CHR ''1'')"] d
    by (simp add: replicate_Suc [symmetric] del: replicate_Suc replicate.simps)
  have f: "filter is_digit (CHR ''1'' # replicate 4300 (CHR ''1''))
             = CHR ''1'' # replicate 4300 (CHR ''1'')"
    using d by simp
  show ?thesis
    by (simp add: py_int_def s unsigned_value_def too_many_digits_def f d
          del: replicate_Suc replicate.simps)
qed

lemma long_position_raises:
  "key \<in> dom (events st) \<Longrightarrow>
     tick_dropped sample_env st key (replicate 4301 (CHR ''1'')) = Inl ValueError"
  using int_refuses_4301_digits by (simp add: tick_dropped_def sample_env_def)

text \<open>
  C1. Take a telemetry line whose event name is \<open>TrackTime\<close>; its value is
  normalized by replacing \<open>00:00:00\<close> with \<open>0\<close>. If the key \<open>entityId.TrackTime\<close> is
  not in the store, both handlers, the one for amplifier zones and the one for
  instances, store the normalized value under it. If the key is in the store and
  \<open>int\<close> reads the normalized value as the integer \<open>n\<close> (with an interval that is not
  zero when \<open>n\<close> is above the threshold): when \<open>n\<close> is above the threshold and no
  multiple of the interval, both handlers return with the controller unchanged, so
  that the store is as before and no zone was asked to update; otherwise both store
  the normalized value under the key. A value that \<open>int\<close> refuses, for a key in the
  store, makes both handlers raise \<open>ValueError\<close> with the controller unchanged: so
  does a value that is no number, one with a separator U+001C to U+001F next to the
  digits, and one with more digits than the interpreter's limit.
\<close>

theorem track_time_throttle:
  assumes p: "parse_event res = Inr (entityId, ''TrackTime'', v)"
  shows "(event_key entityId ''TrackTime'' \<notin> dom (events st) \<longrightarrow>
            position_stored env st res (event_key entityId ''TrackTime'')
              (replace ''00:00:00'' ''0'' v))
     \<and> (\<forall>n. event_key entityId ''TrackTime'' \<in> dom (events st)
            \<and> py_int (int_max_str_digits env) (replace ''00:00:00'' ''0'' v) = Some n
            \<and> (n > TICK_THRESHOLD_SECONDS env \<longrightarrow> TICK_UPDATE_SECONDS env \<noteq> 0)
          \<longrightarrow> (if n > TICK_THRESHOLD_SECONDS env \<and> n mod TICK_UPDATE_SECONDS env \<noteq> 0
               then position_dropped env st res
               else position_stored env st res (event_key entityId ''TrackTime'')
                      (replace ''00:00:00'' ''0'' v)))
     \<and> (event_key entityId ''TrackTime'' \<in> dom (events st)
          \<and> py_int (int_max_str_digits env) (replace ''00:00:00'' ''0'' v) = None
          \<longrightarrow> process_mrad_event env st res = Raised ValueError st
              \<and> process_instance_event env st res = Raised ValueError st)"
proof (intro conjI allI impI)
  assume "event_key entityId ''TrackTime'' \<notin> dom (events st)"
  then have "tick_dropped env st (event_key entityId ''TrackTime'')
               (replace ''00:00:00'' ''0'' v) = Inr False"
    by (simp add: tick_dropped_def)
  with p show "position_stored env st res (event_key entityId ''TrackTime'')
                 (replace ''00:00:00'' ''0'' v)"
    by (rule position_stored_when)
next
  fix n
  assume a: "event_key entityId ''TrackTime'' \<in> dom (events st)
            \<and> py_int (int_max_str_digits env) (replace ''00:00:00'' ''0'' v) = Some n
            \<and> (n > TICK_THRESHOLD_SECONDS env \<longrightarrow> TICK_UPDATE_SECONDS env \<noteq> 0)"
  show "if n > TICK_THRESHOLD_SECONDS env \<and> n mod TICK_UPDATE_SECONDS env \<noteq> 0
        then position_dropped env st res
        else position_stored env st res (event_key entityId ''TrackTime'')
               (replace ''00:00:00'' ''0'' v)"
  proof (cases "n > TICK_THRESHOLD_SECONDS env \<and> n mod TICK_UPDATE_SECONDS env \<noteq> 0")
    case True
    with a have "tick_dropped env st (event_key entityId ''TrackTime'')
                   (replace ''00:00:00'' ''0'' v) = Inr True"
      by (simp add: tick_dropped_def)
    with p have "position_dropped env st res"
      by (simp add: position_dropped_def process_mrad_event_def process_instance_event_def)
    then show ?thesis unfolding if_P [OF True] .
  next
    case False
    with a have "tick_dropped env st (event_key entityId ''TrackTime'')
                   (replace ''00:00:00'' ''0'' v) = Inr False"
      by (auto simp: tick_dropped_def)
    with p have "position_stored env st res (event_key entityId ''TrackTime'')
                   (replace ''00:00:00'' ''0'' v)"
      by (rule position_stored_when)
    then show ?thesis unfolding if_not_P [OF False] .
  qed
next
  assume a: "event_key entityId ''TrackTime'' \<in> dom (events st)
          \<and> py_int (int_max_str_digits env) (replace ''00:00:00'' ''0'' v) = None"
  then have d: "tick_dropped env st (event_key entityId ''TrackTime'')
                  (replace ''00:00:00'' ''0'' v) = Inl ValueError"
    by (simp add: tick_dropped_def)
  with p show "process_mrad_event env st res = Raised ValueError st"
    by (simp add: process_mrad_event_def)
  from p d show "process_instance_event env st res = Raised ValueError st"
    by (simp add: process_instance_event_def)
qed

theorem track_time_throttle_witness:
  "parse_event ''MRAD.ReportState Zone_1 TrackTime=00:00:00125''
     = Inr (''Zone_1'', ''TrackTime'', ''00:00:00125'')
   \<and> event_key ''Zone_1'' ''TrackTime''
       \<in> dom (events (set_event ''Zone_1.TrackTime'' (VStr ''100'') two_zones))
   \<and> py_int (int_max_str_digits sample_env) (replace ''00:00:00'' ''0'' ''00:00:00125'')
       = Some 125
   \<and> TICK_UPDATE_SECONDS sample_env \<noteq> 0
   \<and> position_dropped sample_env (set_event ''Zone_1.TrackTime'' (VStr ''100'') two_zones)
        ''MRAD.ReportState Zone_1 TrackTime=00:00:00125''
   \<and> event_key ''Zone_1'' ''TrackTime'' \<notin> dom (events two_zones)
   \<and> position_stored sample_env two_zones ''MRAD.ReportState Zone_1 TrackTime=00:00:00125''
        ''Zone_1.TrackTime'' ''0125''
   \<and> parse_event (''MRAD.ReportState Zone_1 TrackTime='' @ CHR 0x1F # ''125'')
       = Inr (''Zone_1'', ''TrackTime'', CHR 0x1F # ''125'')
   \<and> py_int (int_max_str_digits sample_env) (replace ''00:00:00'' ''0'' (CHR 0x1F # ''125''))
       = None
   \<and> process_mrad_event sample_env
        (set_event ''Zone_1.TrackTime'' (VStr ''100'') two_zones)
        (''MRAD.ReportState Zone_1 TrackTime='' @ CHR 0x1F # ''125'')
       = Raised ValueError (set_event ''Zone_1.TrackTime'' (VStr ''100'') two_zones)
   \<and> process_instance_event sample_env
        (set_event ''Zone_1.TrackTime'' (VStr ''100'') two_zones)
        (''MRAD.ReportState Zone_1 TrackTime='' @ CHR 0x1F # ''125'')
       = Raised ValueError (set_event ''Zone_1.TrackTime'' (VStr ''100'') two_zones)"
proof -
  have p: "parse_event ''MRAD.ReportState Zone_1 TrackTime=00:00:00125''
             = Inr (''Zone_1'', ''TrackTime'', ''00:00:00125'')"
    by (simp add: parse_event_def find_char_def slice_from_def)
  have r: "replace ''00:00:00'' ''0'' ''00:00:00125'' = ''0125''"
    by (simp add: replace.simps)
  have n: "py_int (int_max_str_digits sample_env) (replace ''00:00:00'' ''0'' ''00:00:00125'')
             = Some 125"
    by (simp add: r sample_env_def py_int_def int_strip_def is_int_space_def
          unsigned_value_def too_many_digits_def is_digit_def)
  have i: "TICK_UPDATE_SECONDS sample_env \<noteq> 0"
    by (simp add: sample_env_def)
  have k: "event_key ''Zone_1'' ''TrackTime''
             \<in> dom (events (set_event ''Zone_1.TrackTime'' (VStr ''100'') two_zones))"
    by (simp add: events_set_event event_key_def)
  have e: "event_key ''Zone_1'' ''TrackTime'' \<notin> dom (events two_zones)"
    by (simp add: two_zones_def add_zone_entity_def Controller_init_def)
  note t = track_time_throttle [OF p, of _ sample_env]
  from t [of "set_event ''Zone_1.TrackTime'' (VStr ''100'') two_zones"] k n i
  have a: "position_dropped sample_env (set_event ''Zone_1.TrackTime'' (VStr ''100'') two_zones)
        ''MRAD.ReportState Zone_1 TrackTime=00:00:00125''"
    by (simp add: sample_env_def)
  from t [of two_zones] e r
  have b: "position_stored sample_env two_zones
        ''MRAD.ReportState Zone_1 TrackTime=00:00:00125'' ''Zone_1.TrackTime'' ''0125''"
    by (simp add: event_key_def)
  have p': "parse_event (''MRAD.ReportState Zone_1 TrackTime='' @ CHR 0x1F # ''125'')
             = Inr (''Zone_1'', ''TrackTime'', CHR 0x1F # ''125'')"
    by (simp add: parse_event_def find_char_def slice_from_def)
  have r': "replace ''00:00:00'' ''0'' (CHR 0x1F # ''125'') = CHR 0x1F # ''125''"
    by (simp add: replace.simps)
  have n': "py_int (int_max_str_digits sample_env)
              (replace ''00:00:00'' ''0'' (CHR 0x1F # ''125'')) = None"
    by (simp add: r' sample_env_def py_int_def int_strip_def is_int_space_def
          unsigned_value_def too_many_digits_def is_digit_def)
  from track_time_throttle [OF p', of "set_event ''Zone_1.TrackTime'' (VStr ''100'') two_zones"
         sample_env] k n'
  have c: "process_mrad_event sample_env
             (set_event ''Zone_1.TrackTime'' (VStr ''100'') two_zones)
             (''MRAD.ReportState Zone_1 TrackTime='' @ CHR 0x1F # ''125'')
            = Raised ValueError (set_event ''Zone_1.TrackTime'' (VStr ''100'') two_zones)
         \<and> process_instance_event sample_env
             (set_event ''Zone_1.TrackTime'' (VStr ''100'') two_zones)
             (''MRAD.ReportState Zone_1 TrackTime='' @ CHR 0x1F # ''125'')
            = Raised ValueError (set_event ''Zone_1.TrackTime'' (VStr ''100'') two_zones)"
    by blast
  from p k n i a e b p' n' c show ?thesis by blast
qed

section \<open>Commands by mode\<close>

lemma sends_only_refl: "sends_only Q st st"
  by (simp add: sends_only_def)

lemma sends_only_trans:
  "sends_only Q st st1 \<Longrightarrow> sends_only Q st1 st2 \<Longrightarrow> sends_only Q st st2"
  by (auto simp: sends_only_def)

lemma sends_only_send: "Q c \<Longrightarrow> sends_only Q st (send c st)"
  by (simp add: sends_only_def send_def mms_send_def)

lemma sends_only_zones: "sends_only Q st (st\<lparr>zoneEntities := zs\<rparr>)"
  by (simp add: sends_only_def)

lemma sends_only_new:
  "sends_only Q st st1 \<Longrightarrow> \<forall>c \<in> set (new_commands st st1). Q c"
  by (auto simp: sends_only_def new_commands_def)

lemma select_zone_mrad: "sends_only mrad_ok st (select_zone i st)"
  unfolding select_zone_def
  by (rule sends_only_send) (simp add: mrad_ok_def startswith_def standalone_only_def)

lemma turn_on_mrad: "sends_only mrad_ok st (turn_on i st)"
proof (cases "mode st = MODE_MRAD")
  case True
  then show ?thesis
    unfolding turn_on_def
    by (simp add: sends_only_send mrad_ok_def startswith_def standalone_only_def)
next
  case False
  then show ?thesis by (simp add: turn_on_def sends_only_refl)
qed

lemma select_source_mrad: "sends_only mrad_ok st (select_source i s st)"
proof (cases "mode st = MODE_MRAD")
  case True
  have "sends_only mrad_ok (select_zone i st)
          (send (''mrad.SetSource '' @ quoted s) (select_zone i st))"
    by (rule sends_only_send) (simp add: mrad_ok_def startswith_def standalone_only_def)
  with select_zone_mrad [of st i] True show ?thesis
    by (simp add: select_source_def) (rule sends_only_trans)
next
  case False
  then show ?thesis by (simp add: select_source_def sends_only_refl)
qed

text \<open>The loop of \<open>join_players\<close> over the members, for an amplifier and otherwise.\<close>

lemma join_fold_mrad:
  "sends_only mrad_ok st
     (fold (\<lambda>member s.
              (case GetZoneByEntityId s member of
                 None \<Rightarrow> s
               | Some other \<Rightarrow>
                   select_source other (mms_source_id (zoneEntities s ! i)) (turn_on other s)))
        ms st)"
proof (induction ms arbitrary: st)
  case Nil
  show ?case by (simp add: sends_only_refl)
next
  case (Cons m ms)
  let ?st1 = "(case GetZoneByEntityId st m of
                 None \<Rightarrow> st
               | Some other \<Rightarrow>
                   select_source other (mms_source_id (zoneEntities st ! i)) (turn_on other st))"
  have "sends_only mrad_ok st ?st1"
    by (auto split: option.splits
        intro: sends_only_refl sends_only_trans [OF turn_on_mrad select_source_mrad])
  from sends_only_trans [OF this Cons.IH [of ?st1]] show ?case by simp
qed

lemma join_players_mrad: "sends_only mrad_ok st (join_players i ms st)"
proof -
  let ?st1 = "(if \<not> isOn (zoneEntities st ! i) then
               (let st2 = select_source i ''Source_2000'' (turn_on i st)
                in st2\<lparr>zoneEntities :=
                         (zoneEntities st2)
                           [i := (zoneEntities st2 ! i)\<lparr>mms_source_id := ''Source_2000''\<rparr>]\<rparr>)
             else st)"
  have "sends_only mrad_ok st ?st1"
    by (auto simp: Let_def
        intro: sends_only_refl
          sends_only_trans [OF sends_only_trans [OF turn_on_mrad select_source_mrad]
            sends_only_zones])
  from sends_only_trans [OF this join_fold_mrad [of ?st1 i ms]] show ?thesis
    by (simp add: join_players_def)
qed

lemma join_fold_other:
  "mode st \<noteq> MODE_MRAD \<Longrightarrow>
   sent (fold (\<lambda>member s.
              (case GetZoneByEntityId s member of
                 None \<Rightarrow> s
               | Some other \<Rightarrow>
                   select_source other (mms_source_id (zoneEntities s ! i)) (turn_on other s)))
        ms st) = sent st"
  by (induction ms arbitrary: st) (auto simp: select_source_def turn_on_def split: option.splits)

lemma join_players_other:
  assumes "mode st \<noteq> MODE_MRAD"
  shows "sent (join_players i ms st) = sent st"
  using assms by (simp add: join_players_def Let_def join_fold_other select_source_def turn_on_def)

lemmas command_defs =
  select_source_def turn_on_def turn_off_def set_repeat_def set_shuffle_def mute_volume_def
  set_volume_level_def async_volume_up_def async_volume_down_def transport_def media_play_def
  media_pause_def media_stop_def media_previous_track_def media_next_track_def media_seek_def
  unjoin_player_def select_zone_def select_instance_def send_def mms_send_def pop_event_def

lemma run_command_mrad:
  assumes "mode st = MODE_MRAD"
  shows "\<forall>c \<in> set (new_commands st (state_of (run_command i cmd st))). mrad_ok c"
proof (cases cmd)
  case (JoinPlayers ms)
  then show ?thesis using sends_only_new [OF join_players_mrad [of st i ms]] by simp
next
  case (MediaSeek p)
  then show ?thesis using assms
    by (auto simp: command_defs new_commands_def Let_def mrad_ok_def startswith_def
        standalone_only_def split: sum.splits evalue.splits)
qed (use assms in \<open>auto simp: command_defs new_commands_def Let_def mrad_ok_def startswith_def
        standalone_only_def split: sum.splits\<close>)

lemma run_command_standalone:
  assumes "mode st = MODE_STANDALONE"
  shows "\<forall>c \<in> set (new_commands st (state_of (run_command i cmd st))).
           \<not> startswith c ''mrad.''"
proof (cases cmd)
  case (JoinPlayers ms)
  then show ?thesis using join_players_other [of st i ms] assms by (simp add: new_commands_def)
next
  case (MediaSeek p)
  then show ?thesis using assms
    by (auto simp: command_defs new_commands_def Let_def startswith_def
        split: sum.splits evalue.splits)
qed (use assms in \<open>auto simp: command_defs new_commands_def Let_def startswith_def
        split: sum.splits\<close>)

text \<open>
  C7. Whatever command path of a zone entity is called (source selection, power,
  repeat, shuffle, mute, the three volume paths, the five transport controls, seek,
  join and unjoin): in standalone mode no command it sends begins with \<open>mrad.\<close>; in
  amplifier mode every command it sends begins with \<open>mrad.\<close>, or is the \<open>seek\<close> that
  both modes send after their selector, and none of them is a standalone command
  (the instance selector or one of the words sent after it).
\<close>

theorem commands_respect_mode:
  "(mode st = MODE_STANDALONE \<longrightarrow>
      (\<forall>c \<in> set (new_commands st (state_of (run_command i cmd st))).
         \<not> startswith c ''mrad.''))
   \<and> (mode st = MODE_MRAD \<longrightarrow>
      (\<forall>c \<in> set (new_commands st (state_of (run_command i cmd st))).
         (startswith c ''mrad.'' \<or> startswith c ''seek '') \<and> \<not> standalone_only c))"
  using run_command_standalone [of st i cmd] run_command_mrad [of st i cmd]
  by (simp add: mrad_ok_def)

theorem commands_respect_mode_witness:
  "mode two_zones = MODE_MRAD
   \<and> new_commands two_zones (state_of (run_command 0 (MediaSeek (Inr 30)) two_zones))
       = [''mrad.SetZone '' @ quoted ''Zone_1'', ''mrad.SetSource'', ''seek 30'']
   \<and> \<not> standalone_only ''seek 30''
   \<and> mode one_instance = MODE_STANDALONE
   \<and> new_commands one_instance (state_of (run_command 0 MediaPlay one_instance))
       = [''setInstance '' @ quoted ''Player_A'', ''play'']
   \<and> \<not> startswith ''play'' ''mrad.''"
proof -
  have m: "mode two_zones = MODE_MRAD"
    by (simp add: two_zones_def add_zone_entity_def Controller_init_def)
  have n: "new_commands two_zones (state_of (run_command 0 (MediaSeek (Inr 30)) two_zones))
       = [''mrad.SetZone '' @ quoted ''Zone_1'', ''mrad.SetSource'', ''seek 30'']"
    by (simp add: two_zones_def add_zone_entity_def Controller_init_def mrad_zone_def
        command_defs new_commands_def get_event_def Let_def fmt_opt_def fmt_int_def
        fmt_nat.simps)
  have s: "mode one_instance = MODE_STANDALONE"
    by (simp add: one_instance_def add_zone_entity_def Controller_init_def)
  have p: "new_commands one_instance (state_of (run_command 0 MediaPlay one_instance))
       = [''setInstance '' @ quoted ''Player_A'', ''play'']"
    by (simp add: one_instance_def add_zone_entity_def Controller_init_def standalone_zone_def
        command_defs new_commands_def replace.simps)
  from commands_respect_mode [of two_zones 0 "MediaSeek (Inr 30)"] m n
  have a: "\<not> standalone_only ''seek 30''" by simp
  from commands_respect_mode [of one_instance 0 MediaPlay] s p
  have b: "\<not> startswith ''play'' ''mrad.''" by simp
  from m n a s p b show ?thesis by simp
qed

section \<open>Dispatch\<close>

lemma startswith_shorter: "startswith s (p @ q) \<Longrightarrow> startswith s p"
  unfolding startswith_def
proof -
  assume a: "take (length (p @ q)) s = p @ q"
  have "take (length p) s = take (length p) (take (length (p @ q)) s)"
    by (simp add: min_def)
  also have "\<dots> = p" using a by simp
  finally show "take (length p) s = p" .
qed

lemma zonegroups_not_zones: "startswith s ''<ZoneGroups'' \<Longrightarrow> \<not> startswith s ''<Zones''"
proof
  assume a: "startswith s ''<ZoneGroups''" and b: "startswith s ''<Zones''"
  from startswith_shorter [of s "''<ZoneG''" "''roups''"] a have "startswith s ''<ZoneG''" by simp
  with b show False by (simp add: startswith_def)
qed

lemma startswith_first:
  "startswith s (a # p) \<Longrightarrow> startswith s (b # q) \<Longrightarrow> a = b"
  by (cases s) (auto simp: startswith_def)

lemma handle_frame_cases:
  "handle_frame env st s =
     (if startswith s ''<Zones'' then Some (process_mrad_zone_response env st s)
      else if startswith s ''<ZoneGroups'' then Some (process_mrad_zone_group_response env st s)
      else if startswith s ''MRAD.'' then Some (process_mrad_event env st s)
      else if startswith s ''<Instances'' then Some (async_process_instance_response env st s)
      else if startswith s ''ReportState'' \<or> startswith s ''StateChanged''
           then Some (process_instance_event env st s)
      else None)"
  by (simp add: handle_frame_def)

text \<open>
  C8. A frame whose text, stripped, begins with none of \<open><Zones\<close>, \<open><ZoneGroups\<close>,
  \<open>MRAD.\<close>, \<open><Instances\<close>, \<open>ReportState\<close> and \<open>StateChanged\<close> is returned as it is,
  with the controller unchanged. When the handler chosen by the prefix raises, the
  dispatcher returns \<open>None\<close> instead of raising, in the state the handler left, with
  \<open>quit\<close> sent on the primary connection.
\<close>

theorem dispatch_drops_or_quits:
  assumes d: "decode_utf8 env res = Some text"
  shows
   "(\<not> startswith (strip text) ''<Zones'' \<and> \<not> startswith (strip text) ''<ZoneGroups''
      \<and> \<not> startswith (strip text) ''MRAD.'' \<and> \<not> startswith (strip text) ''<Instances''
      \<and> \<not> startswith (strip text) ''ReportState'' \<and> \<not> startswith (strip text) ''StateChanged''
      \<longrightarrow> async_mms_process_response env st res = (st, Some (strip text)))
    \<and> (\<forall>e st1.
          (startswith (strip text) ''<Zones''
             \<and> process_mrad_zone_response env st (strip text) = Raised e st1)
          \<or> (startswith (strip text) ''<ZoneGroups''
             \<and> process_mrad_zone_group_response env st (strip text) = Raised e st1)
          \<or> (startswith (strip text) ''MRAD.''
             \<and> process_mrad_event env st (strip text) = Raised e st1)
          \<or> (startswith (strip text) ''<Instances''
             \<and> async_process_instance_response env st (strip text) = Raised e st1)
          \<or> ((startswith (strip text) ''ReportState'' \<or> startswith (strip text) ''StateChanged'')
             \<and> process_instance_event env st (strip text) = Raised e st1)
          \<longrightarrow> async_mms_process_response env st res = (send ''quit'' st1, None))"
proof -
  let ?s = "strip text"
  have x1: "startswith ?s ''<ZoneGroups'' \<Longrightarrow> \<not> startswith ?s ''<Zones''"
    by (rule zonegroups_not_zones)
  have x2: "startswith ?s ''MRAD.'' \<Longrightarrow> \<not> startswith ?s ''<Zones'' \<and> \<not> startswith ?s ''<ZoneGroups''"
    using startswith_first [of ?s "CHR ''M''" _ "CHR ''<''"] by auto
  have x3: "startswith ?s ''<Instances'' \<Longrightarrow> \<not> startswith ?s ''<Zones''
      \<and> \<not> startswith ?s ''<ZoneGroups'' \<and> \<not> startswith ?s ''MRAD.''"
  proof -
    assume a: "startswith ?s ''<Instances''"
    from startswith_shorter [of ?s "''<I''" "''nstances''"] a have i: "startswith ?s ''<I''" by simp
    have "\<not> startswith ?s ''<Zones''"
    proof
      assume "startswith ?s ''<Zones''"
      with startswith_shorter [of ?s "''<Z''" "''ones''"] have "startswith ?s ''<Z''" by simp
      with i show False by (simp add: startswith_def)
    qed
    moreover have "\<not> startswith ?s ''<ZoneGroups''"
    proof
      assume "startswith ?s ''<ZoneGroups''"
      with startswith_shorter [of ?s "''<Z''" "''oneGroups''"] have "startswith ?s ''<Z''" by simp
      with i show False by (simp add: startswith_def)
    qed
    moreover have "\<not> startswith ?s ''MRAD.''"
      using startswith_first [of ?s "CHR ''M''" _ "CHR ''<''"] a by auto
    ultimately show ?thesis by simp
  qed
  have x4: "startswith ?s ''ReportState'' \<or> startswith ?s ''StateChanged'' \<Longrightarrow>
      \<not> startswith ?s ''<Zones'' \<and> \<not> startswith ?s ''<ZoneGroups'' \<and> \<not> startswith ?s ''MRAD.''
      \<and> \<not> startswith ?s ''<Instances''"
    using startswith_first [of ?s "CHR ''R''" _ "CHR ''<''"]
      startswith_first [of ?s "CHR ''S''" _ "CHR ''<''"]
      startswith_first [of ?s "CHR ''R''" _ "CHR ''M''"]
      startswith_first [of ?s "CHR ''S''" _ "CHR ''M''"]
    by auto
  have a: "\<not> startswith ?s ''<Zones'' \<and> \<not> startswith ?s ''<ZoneGroups''
      \<and> \<not> startswith ?s ''MRAD.'' \<and> \<not> startswith ?s ''<Instances''
      \<and> \<not> startswith ?s ''ReportState'' \<and> \<not> startswith ?s ''StateChanged''
      \<longrightarrow> async_mms_process_response env st res = (st, Some ?s)"
    using d by (simp add: async_mms_process_response_def handle_frame_cases)
  have b: "\<And>e st1. (startswith ?s ''<Zones''
             \<and> process_mrad_zone_response env st ?s = Raised e st1)
          \<or> (startswith ?s ''<ZoneGroups''
             \<and> process_mrad_zone_group_response env st ?s = Raised e st1)
          \<or> (startswith ?s ''MRAD.''
             \<and> process_mrad_event env st ?s = Raised e st1)
          \<or> (startswith ?s ''<Instances''
             \<and> async_process_instance_response env st ?s = Raised e st1)
          \<or> ((startswith ?s ''ReportState'' \<or> startswith ?s ''StateChanged'')
             \<and> process_instance_event env st ?s = Raised e st1)
          \<Longrightarrow> handle_frame env st ?s = Some (Raised e st1)"
    using x1 x2 x3 x4 unfolding handle_frame_cases by (elim disjE conjE) simp_all
  show ?thesis
  proof (intro conjI allI impI)
    show "async_mms_process_response env st res = (st, Some ?s)"
      if "\<not> startswith ?s ''<Zones'' \<and> \<not> startswith ?s ''<ZoneGroups''
      \<and> \<not> startswith ?s ''MRAD.'' \<and> \<not> startswith ?s ''<Instances''
      \<and> \<not> startswith ?s ''ReportState'' \<and> \<not> startswith ?s ''StateChanged''"
      using a that by blast
  next
    fix e st1
    assume "(startswith ?s ''<Zones''
             \<and> process_mrad_zone_response env st ?s = Raised e st1)
          \<or> (startswith ?s ''<ZoneGroups''
             \<and> process_mrad_zone_group_response env st ?s = Raised e st1)
          \<or> (startswith ?s ''MRAD.''
             \<and> process_mrad_event env st ?s = Raised e st1)
          \<or> (startswith ?s ''<Instances''
             \<and> async_process_instance_response env st ?s = Raised e st1)
          \<or> ((startswith ?s ''ReportState'' \<or> startswith ?s ''StateChanged'')
             \<and> process_instance_event env st ?s = Raised e st1)"
    from b [OF this] d show "async_mms_process_response env st res = (send ''quit'' st1, None)"
      by (simp add: async_mms_process_response_def)
  qed
qed

theorem dispatch_drops_or_quits_witness:
  "decode_utf8 sample_env ''  Ping '' = Some ''  Ping ''
   \<and> async_mms_process_response sample_env two_zones ''  Ping '' = (two_zones, Some ''Ping'')
   \<and> decode_utf8 sample_env ''MRAD.ReportState'' = Some ''MRAD.ReportState''
   \<and> process_mrad_event sample_env two_zones ''MRAD.ReportState'' = Raised IndexError two_zones
   \<and> async_mms_process_response sample_env two_zones ''MRAD.ReportState''
       = (send ''quit'' two_zones, None)"
proof -
  have d1: "decode_utf8 sample_env ''  Ping '' = Some ''  Ping ''"
    by (simp add: sample_env_def)
  have d2: "decode_utf8 sample_env ''MRAD.ReportState'' = Some ''MRAD.ReportState''"
    by (simp add: sample_env_def)
  have s1: "strip ''  Ping '' = ''Ping''"
    by (simp add: strip_def is_space_def)
  have s2: "strip ''MRAD.ReportState'' = ''MRAD.ReportState''"
    by (simp add: strip_def is_space_def)
  have r: "process_mrad_event sample_env two_zones ''MRAD.ReportState''
             = Raised IndexError two_zones"
    by (simp add: process_mrad_event_def parse_event_def)
  from dispatch_drops_or_quits [OF d1, of two_zones]
  have a: "async_mms_process_response sample_env two_zones ''  Ping ''
             = (two_zones, Some ''Ping'')"
    by (simp add: s1 startswith_def)
  from dispatch_drops_or_quits [OF d2, of two_zones] r
  have b: "async_mms_process_response sample_env two_zones ''MRAD.ReportState''
             = (send ''quit'' two_zones, None)"
    by (simp add: s2 startswith_def)
  from d1 d2 r a b show ?thesis by simp
qed

section \<open>A group with a single zone element\<close>

lemma keeps_bindings_refl: "keeps_bindings st st"
  by (simp add: keeps_bindings_def)

lemma keeps_bindings_trans:
  "keeps_bindings st st1 \<Longrightarrow> keeps_bindings st1 st2 \<Longrightarrow> keeps_bindings st st2"
  by (simp add: keeps_bindings_def)

lemma suffix_differs:
  "rev s @ rev a \<noteq> rev t @ rev b \<Longrightarrow> a @ s \<noteq> b @ t"
  by (metis rev_append)

lemma source_list_key_other:
  "n \<in> set (''QualifiedSourceName'' # reset_event_names)
   \<Longrightarrow> event_key a ''SourceList'' \<noteq> event_key b n"
  unfolding event_key_def reset_event_names_def
  by (rule suffix_differs) auto

lemma keeps_bindings_set_event:
  "n \<in> set (''QualifiedSourceName'' # reset_event_names)
   \<Longrightarrow> keeps_bindings st (set_event (event_key b n) v st)"
  using source_list_key_other [of n _ b]
  by (simp add: keeps_bindings_def set_event_def)

lemma keeps_bindings_group_art: "keeps_bindings st (group_art sourceId mArt st)"
  unfolding group_art_def reset_source_art_def store_source_art_def
  by (auto intro!: keeps_bindings_trans [OF _ keeps_bindings_set_event] keeps_bindings_refl
      simp: reset_event_names_def)

lemma keeps_bindings_sources_loop:
  "(sources_loop st acc xs = Inl (e, st1) \<longrightarrow> keeps_bindings st st1)
   \<and> (sources_loop st acc xs = Inr (st1, ys) \<longrightarrow> keeps_bindings st st1)"
proof (induction xs arbitrary: st acc)
  case Nil
  show ?case by (auto simp: keeps_bindings_refl)
next
  case (Cons x xs)
  show ?case
  proof (cases "source_name x")
    case (Inl a)
    then show ?thesis by (auto simp: keeps_bindings_refl)
  next
    case (Inr fqn)
    note f = this
    show ?thesis
    proof (cases "attr_get x ''sId'' []")
      case (Inl a)
      with f show ?thesis by (auto simp: keeps_bindings_refl)
    next
      case (Inr sid)
      let ?st = "set_event (event_key (''Source_'' @ sid) ''QualifiedSourceName'')
                    (VStr (replace '' '' ''_'' fqn)) st"
      have k: "keeps_bindings st ?st"
        by (rule keeps_bindings_set_event) simp
      from Cons.IH [of ?st "acc @ [fqn]"] f Inr k show ?thesis
        by (auto intro: keeps_bindings_trans)
    qed
  qed
qed


lemma filter_single_not_none:
  "filter P (kids e) = [c] \<Longrightarrow> \<not> is_none e"
  by (auto simp: is_none_def)

lemma dict_keys_nonempty: "\<not> is_none e \<Longrightarrow> dict_keys e \<noteq> []"
  by (auto simp: is_none_def dict_keys_def)

lemma vol_zones_single:
  assumes v: "filter (\<lambda>c. tag c = ''vol'') (kids g) = [v]"
    and z: "filter (\<lambda>c. tag c = ''zone'') (kids v) = [z]"
  shows "vol_zones (IElem g)
           = (if is_none z then Inl TypeError else Inr (map IKey (dict_keys z)))"
  using filter_single_not_none [OF v] filter_single_not_none [OF z] v z
  by (simp add: vol_zones_def then_err_def item_def stored_under_def)

lemma vol_loop_key:
  "vol_loop sources sourceId groupGuid groupName st acc (IKey k # rest) = Inl (TypeError, st)"
  by simp

lemma lone_zone_step_raises:
  assumes v: "filter (\<lambda>c. tag c = ''vol'') (kids g) = [v]"
    and z: "filter (\<lambda>c. tag c = ''zone'') (kids v) = [z]"
  shows "\<exists>e st1. process_zone_group st (IElem g) = Raised e st1 \<and> keeps_bindings st st1"
proof -
  have g: "\<not> is_none g" by (rule filter_single_not_none [OF v])
  obtain groupGuid groupName sId mArt where
    a: "iv_attr_get (IElem g) ''guid'' [] = Inr groupGuid"
       "iv_attr_get (IElem g) ''name'' [] = Inr groupName"
       "iv_attr_get (IElem g) ''sId'' ''0'' = Inr sId"
       "iv_attr_get (IElem g) ''mArt'' [] = Inr mArt"
    using g by (simp add: attr_get_def)
  let ?st1 = "group_art (''Source_'' @ sId) mArt st"
  have k1: "keeps_bindings st ?st1" by (rule keeps_bindings_group_art)
  show ?thesis
  proof (cases "sources_list (IElem g)")
    case (Inl e)
    with a k1 show ?thesis
      by (simp add: process_zone_group_def collect_zone_group_def Let_def)
  next
    case (Inr sourcesList)
    note sl = this
    show ?thesis
    proof (cases "sources_loop ?st1 [] sourcesList")
      case (Inl p)
      obtain e st2 where p: "p = (e, st2)" by (cases p)
      with keeps_bindings_sources_loop [of ?st1 "[]" sourcesList e st2] Inl
      have "keeps_bindings ?st1 st2" by simp
      with k1 have "keeps_bindings st st2" by (rule keeps_bindings_trans)
      with a sl Inl p show ?thesis
        by (simp add: process_zone_group_def collect_zone_group_def Let_def)
    next
      case (Inr p)
      obtain st2 sources where p: "p = (st2, sources)" by (cases p)
      with keeps_bindings_sources_loop [of ?st1 "[]" sourcesList _ st2 sources] Inr
      have "keeps_bindings ?st1 st2" by simp
      with k1 have k2: "keeps_bindings st st2" by (rule keeps_bindings_trans)
      show ?thesis
      proof (cases "is_none z")
        case True
        with vol_zones_single [OF v z] have "vol_zones (IElem g) = Inl TypeError" by simp
        with a sl Inr p k2 show ?thesis
          by (simp add: process_zone_group_def collect_zone_group_def Let_def)
      next
        case False
        with dict_keys_nonempty obtain k ks where ks: "dict_keys z = k # ks"
          by (cases "dict_keys z") auto
        with False vol_zones_single [OF v z]
        have "vol_zones (IElem g) = Inr (IKey k # map IKey ks)" by simp
        with a sl Inr p k2 show ?thesis
          by (simp add: process_zone_group_def collect_zone_group_def Let_def)
      qed
    qed
  qed
qed

lemma zone_group_loop_raises:
  assumes "grp \<in> set groups" and "\<And>st0. raised (process_zone_group st0 grp)"
  shows "raised (zone_group_loop st groups)"
  using assms(1)
proof (induction groups arbitrary: st)
  case Nil
  then show ?case by simp
next
  case (Cons x xs)
  show ?case
  proof (cases "process_zone_group st x")
    case (Raised e st1)
    then show ?thesis by simp
  next
    case (Returned st1)
    with assms(2) [of st] have "x \<noteq> grp" by auto
    with Cons.prems have "grp \<in> set xs" by simp
    from Cons.IH [OF this, of st1] Returned show ?thesis by simp
  qed
qed

lemma zone_groups_of_root:
  assumes "tag root = ''ZoneGroups''" and "g \<in> set (kids root)" and "tag g = ''ZoneGroup''"
  shows "zone_groups_of root
           = Inr (map IElem (filter (\<lambda>c. tag c = ''ZoneGroup'') (kids root)))"
proof -
  have n: "\<not> is_none root" using assms(2) by (auto simp: is_none_def)
  have "g \<in> set (filter (\<lambda>c. tag c = ''ZoneGroup'') (kids root))" using assms by simp
  then obtain c cs where f: "filter (\<lambda>c. tag c = ''ZoneGroup'') (kids root) = c # cs"
    by (cases "filter (\<lambda>c. tag c = ''ZoneGroup'') (kids root)") auto
  show ?thesis
    using assms(1) n f
    by (cases cs) (simp_all add: zone_groups_of_def then_err_def root_item_def item_def
        stored_under_def)
qed


text \<open>
  C10. Let the parsed zone-group document contain a group whose \<open>vol\<close> element has
  exactly one \<open>zone\<close> child. Then what the handler iterates over for that group is
  not a list of zones: it is \<open>None\<close>, or the keys of the one zone's dict, and the
  loop raises \<open>TypeError\<close> at its first step without a change of state. The
  processing of that group raises, with no zone entity, no GUID binding and no
  \<open>SourceList\<close> key touched; the handler raises for the whole frame; and the
  dispatcher sends \<open>quit\<close>.
\<close>

theorem single_zone_group_raises:
  assumes p: "xml_parse env (merge_vol_src res) = Some root"
    and r: "tag root = ''ZoneGroups''"
    and g: "g \<in> set (kids root)" "tag g = ''ZoneGroup''"
    and v: "filter (\<lambda>c. tag c = ''vol'') (kids g) = [v]"
    and z: "filter (\<lambda>c. tag c = ''zone'') (kids v) = [z]"
  shows "vol_zones (IElem g)
           = (if is_none z then Inl TypeError else Inr (map IKey (dict_keys z)))
     \<and> (\<forall>zs sources sourceId groupGuid groupName st2 acc.
          vol_zones (IElem g) = Inr zs \<longrightarrow>
          vol_loop sources sourceId groupGuid groupName st2 acc zs = Inl (TypeError, st2))
     \<and> (\<forall>st0. \<exists>e st1. process_zone_group st0 (IElem g) = Raised e st1
                      \<and> keeps_bindings st0 st1)
     \<and> raised (process_mrad_zone_group_response env st res)
     \<and> (\<forall>raw decoded. decode_utf8 env raw = Some decoded \<and> strip decoded = res
            \<and> startswith res ''<ZoneGroups''
          \<longrightarrow> (\<exists>st1. async_mms_process_response env st raw = (send ''quit'' st1, None)))"
proof -
  have a: "vol_zones (IElem g)
           = (if is_none z then Inl TypeError else Inr (map IKey (dict_keys z)))"
    by (rule vol_zones_single [OF v z])
  have b: "\<forall>zs sources sourceId groupGuid groupName st2 acc.
          vol_zones (IElem g) = Inr zs \<longrightarrow>
          vol_loop sources sourceId groupGuid groupName st2 acc zs = Inl (TypeError, st2)"
  proof (intro allI impI)
    fix zs sources sourceId groupGuid groupName st2 acc
    assume "vol_zones (IElem g) = Inr zs"
    with a have n: "\<not> is_none z" and zs: "zs = map IKey (dict_keys z)"
      by (auto split: if_splits)
    from dict_keys_nonempty [OF n] obtain k ks where "dict_keys z = k # ks"
      by (cases "dict_keys z") auto
    with zs show "vol_loop sources sourceId groupGuid groupName st2 acc zs = Inl (TypeError, st2)"
      by simp
  qed
  have c: "\<forall>st0. \<exists>e st1. process_zone_group st0 (IElem g) = Raised e st1
                      \<and> keeps_bindings st0 st1"
    using lone_zone_step_raises [OF v z] by blast
  have "IElem g \<in> set (map IElem (filter (\<lambda>c. tag c = ''ZoneGroup'') (kids root)))"
    using g by simp
  moreover have "\<And>st0. raised (process_zone_group st0 (IElem g))"
  proof -
    fix st0
    from c obtain e st1 where "process_zone_group st0 (IElem g) = Raised e st1" by blast
    then show "raised (process_zone_group st0 (IElem g))" by simp
  qed
  ultimately have
    "raised (zone_group_loop st (map IElem (filter (\<lambda>c. tag c = ''ZoneGroup'') (kids root))))"
    by (rule zone_group_loop_raises)
  with p zone_groups_of_root [OF r g]
  have d: "raised (process_mrad_zone_group_response env st res)"
    by (simp add: process_mrad_zone_group_response_def)
  have e: "\<forall>raw decoded. decode_utf8 env raw = Some decoded \<and> strip decoded = res
            \<and> startswith res ''<ZoneGroups''
          \<longrightarrow> (\<exists>st1. async_mms_process_response env st raw = (send ''quit'' st1, None))"
  proof (intro allI impI)
    fix raw decoded
    assume h: "decode_utf8 env raw = Some decoded \<and> strip decoded = res
            \<and> startswith res ''<ZoneGroups''"
    from d obtain e st1 where "process_mrad_zone_group_response env st res = Raised e st1"
      by (cases "process_mrad_zone_group_response env st res") auto
    with h zonegroups_not_zones [of res]
    have "async_mms_process_response env st raw = (send ''quit'' st1, None)"
      by (simp add: async_mms_process_response_def handle_frame_cases)
    then show "\<exists>st1. async_mms_process_response env st raw = (send ''quit'' st1, None)" ..
  qed
  from a b c d e show ?thesis by blast
qed

theorem single_zone_group_raises_witness:
  "xml_parse single_zone_env (merge_vol_src ''<ZoneGroups>'') = Some single_zone_doc
   \<and> tag single_zone_doc = ''ZoneGroups''
   \<and> hd (kids single_zone_doc) \<in> set (kids single_zone_doc)
   \<and> tag (hd (kids single_zone_doc)) = ''ZoneGroup''
   \<and> filter (\<lambda>c. tag c = ''vol'') (kids (hd (kids single_zone_doc)))
       = [hd (kids (hd (kids single_zone_doc)))]
   \<and> filter (\<lambda>c. tag c = ''zone'') (kids (hd (kids (hd (kids single_zone_doc)))))
       = [hd (kids (hd (kids (hd (kids single_zone_doc)))))]
   \<and> raised (process_mrad_zone_group_response single_zone_env two_zones ''<ZoneGroups>'')"
proof -
  have p: "xml_parse single_zone_env (merge_vol_src ''<ZoneGroups>'') = Some single_zone_doc"
    by (simp add: single_zone_env_def)
  have r: "tag single_zone_doc = ''ZoneGroups''"
    by (simp add: single_zone_doc_def)
  have g1: "hd (kids single_zone_doc) \<in> set (kids single_zone_doc)"
    by (simp add: single_zone_doc_def)
  have g2: "tag (hd (kids single_zone_doc)) = ''ZoneGroup''"
    by (simp add: single_zone_doc_def)
  have v: "filter (\<lambda>c. tag c = ''vol'') (kids (hd (kids single_zone_doc)))
       = [hd (kids (hd (kids single_zone_doc)))]"
    by (simp add: single_zone_doc_def)
  have z: "filter (\<lambda>c. tag c = ''zone'') (kids (hd (kids (hd (kids single_zone_doc)))))
       = [hd (kids (hd (kids (hd (kids single_zone_doc)))))]"
    by (simp add: single_zone_doc_def)
  from single_zone_group_raises [OF p r g1 g2 v z, of two_zones]
  have "raised (process_mrad_zone_group_response single_zone_env two_zones ''<ZoneGroups>'')"
    by blast
  with p r g1 g2 v z show ?thesis by blast
qed

section \<open>Group members\<close>

lemma zone_set_fields:
  "fst (zone_set_name_source_and_group nn ns gg gn gm z) =
     z\<lparr>zone_name := (case nn of None \<Rightarrow> zone_name z | Some n \<Rightarrow> n),
       mms_source_id := (case ns of None \<Rightarrow> mms_source_id z | Some s \<Rightarrow> s),
       mms_groupGuid := (case gg of None \<Rightarrow> mms_groupGuid z | Some g \<Rightarrow> g),
       mms_groupName := (case gn of None \<Rightarrow> mms_groupName z | Some g \<Rightarrow> g),
       attr_group_members := (case gm of None \<Rightarrow> attr_group_members z | Some m \<Rightarrow> m)\<rparr>"
  by (cases nn; cases ns; cases gg; cases gn; cases gm)
     (simp_all add: zone_set_name_source_and_group_def Let_def)

lemma zones_set_nsg:
  "zoneEntities (set_name_source_and_group i nn ns gg gn gm st) =
     (zoneEntities st)[i := fst (zone_set_name_source_and_group nn ns gg gn gm (zoneEntities st ! i))]"
  by (simp add: set_name_source_and_group_def update_ha_def Let_def split: prod.splits)

lemma by_guid_set_nsg:
  "zoneEntitiesByGuid (set_name_source_and_group i nn ns gg gn gm st) = zoneEntitiesByGuid st"
  by (simp add: set_name_source_and_group_def update_ha_def Let_def split: prod.splits)

lemma events_set_nsg:
  "events (set_name_source_and_group i nn ns gg gn gm st) = events st"
  by (simp add: set_name_source_and_group_def update_ha_def Let_def split: prod.splits)

lemma map_update_same: "f x = f (xs ! i) \<Longrightarrow> map f (xs[i := x]) = map f xs"
  by (simp add: map_update list_update_same_conv) (metis list_update_beyond list_update_id not_le nth_map length_map)


lemma eids_set_nsg: "eids (set_name_source_and_group i nn ns gg gn gm st) = eids st"
  unfolding eids_def zones_set_nsg
  by (rule map_update_same) (simp add: zone_set_fields)

lemma length_zones_set_nsg:
  "length (zoneEntities (set_name_source_and_group i nn ns gg gn gm st)) = length (zoneEntities st)"
  by (simp add: zones_set_nsg)

lemma gms_set_nsg_none: "gms (set_name_source_and_group i nn ns gg gn None st) = gms st"
  unfolding gms_def zones_set_nsg
  by (rule map_update_same) (simp add: zone_set_fields)

lemma gms_set_nsg_some:
  "gms (set_name_source_and_group i nn ns gg gn (Some m) st) = (gms st)[i := m]"
  unfolding gms_def zones_set_nsg
  by (simp add: map_update zone_set_fields)

lemma wf_set_nsg:
  "bindings_in_range st \<Longrightarrow> bindings_in_range (set_name_source_and_group i nn ns gg gn gm st)"
  by (simp add: bindings_in_range_def by_guid_set_nsg length_zones_set_nsg)

lemma shape_set_event [simp]:
  "eids (set_event k v st) = eids st" "gms (set_event k v st) = gms st"
  "zoneEntities (set_event k v st) = zoneEntities st"
  "zoneEntitiesByGuid (set_event k v st) = zoneEntitiesByGuid st"
  "bindings_in_range (set_event k v st) = bindings_in_range st"
  by (simp_all add: eids_def gms_def set_event_def bindings_in_range_def)

lemma scan_from_range: "scan_from k zs x = Some i \<Longrightarrow> k \<le> i \<and> i < k + length zs"
  by (induction zs arbitrary: k) (fastforce split: if_splits)+

lemma scan_zone_id_range: "scan_zone_id st x = Some i \<Longrightarrow> i < length (zoneEntities st)"
  using scan_from_range [of 0 "zoneEntities st" x i] by (simp add: scan_zone_id_def)

lemma wf_bind:
  "bindings_in_range st \<Longrightarrow> i < length (zoneEntities st)
   \<Longrightarrow> bindings_in_range (st\<lparr>zoneEntitiesByGuid := (zoneEntitiesByGuid st)(g \<mapsto> i)\<rparr>)"
  by (simp add: bindings_in_range_def)

lemma shape_bind [simp]:
  "eids (st\<lparr>zoneEntitiesByGuid := b\<rparr>) = eids st" "gms (st\<lparr>zoneEntitiesByGuid := b\<rparr>) = gms st"
  by (simp_all add: eids_def gms_def)

lemma length_eids: "length (eids st) = length (zoneEntities st)"
  by (simp add: eids_def)

lemma join_group_inv:
  assumes j: "join_group found name sourceId groupGuid groupName acc st = (st1, acc1)"
    and f: "found < length (zoneEntities st)"
    and a: "acc_ok st acc"
  shows "eids st1 = eids st \<and> gms st1 = gms st
         \<and> zoneEntitiesByGuid st1 = zoneEntitiesByGuid st
         \<and> length (zoneEntities st1) = length (zoneEntities st)
         \<and> acc_ok st1 acc1 \<and> set (fst acc) \<subseteq> set (fst acc1)
         \<and> eids st ! found \<in> set (snd acc1)"
proof -
  let ?st1 = "set_name_source_and_group found (Some name) (Some sourceId) (Some groupGuid)
                     (Some groupName) None st"
  obtain ents ids where acc: "acc = (ents, ids)" by (cases acc)
  have e: "entity_id (zoneEntities ?st1 ! found) = eids st ! found"
    using f eids_set_nsg [of found "Some name" "Some sourceId" "Some groupGuid" "Some groupName" None st]
      length_zones_set_nsg [of found "Some name" "Some sourceId" "Some groupGuid" "Some groupName" None st]
    by (metis eids_def nth_map)
  from j acc e have st1: "st1 = ?st1"
    and acc1: "acc1 = (if eids st ! found \<notin> set ids then (ents @ [found], ids @ [eids st ! found])
                       else (ents, ids))"
    by (auto simp: join_group_def Let_def split: if_splits)
  show ?thesis
    using a f unfolding st1 acc1 acc
    by (auto simp: acc_ok_def eids_set_nsg gms_set_nsg_none by_guid_set_nsg length_zones_set_nsg
        length_eids)
qed


lemma same_shape_refl: "bindings_in_range st \<Longrightarrow> same_shape st st"
  by (simp add: same_shape_def)

lemma acc_ok_shape: "eids st1 = eids st \<Longrightarrow> acc_ok st acc \<Longrightarrow> acc_ok st1 acc"
  by (auto simp: acc_ok_def)

lemma vol_post_shift:
  assumes "eids st1 = eids st" "gms st1 = gms st" "set (fst acc) \<subseteq> set (fst acc1)"
    and "vol_post st1 acc1 r"
  shows "vol_post st acc r"
  using assms by (auto simp: vol_post_def same_shape_def split: sum.splits)

lemma vol_loop_inv:
  "bindings_in_range st \<Longrightarrow> acc_ok st acc
   \<Longrightarrow> vol_post st acc (vol_loop sources sourceId groupGuid groupName st acc vzs)"
proof (induction vzs arbitrary: st acc)
  case Nil
  then show ?case by (simp add: vol_post_def same_shape_def)
next
  case (Cons vz rest)
  note wf = Cons.prems(1) and ok = Cons.prems(2)
  show ?case
  proof (cases "iv_attr vz ''name''")
    case (Inl e)
    with wf show ?thesis by (simp add: vol_post_def same_shape_def)
  next
    case (Inr name)
    note n = this
    show ?thesis
    proof (cases "iv_attr vz ''eventId''")
      case (Inl e)
      with n wf show ?thesis by (simp add: vol_post_def same_shape_def)
    next
      case (Inr eventId)
      note ev = this
      let ?st1 = "set_event (event_key eventId ''SourceList'') (VList sources) st"
      have wf1: "bindings_in_range ?st1" using wf by simp
      have ok1: "acc_ok ?st1 acc" using ok by (rule acc_ok_shape [rotated]) simp
      show ?thesis
      proof (cases "iv_attr vz ''guid''")
        case (Inl e)
        with n ev wf1 show ?thesis by (simp add: vol_post_def same_shape_def)
      next
        case (Inr guid)
        note g = this
        show ?thesis
        proof (cases "zoneEntitiesByGuid ?st1 guid")
          case (Some found)
          with wf1 have fr: "found < length (zoneEntities ?st1)"
            by (simp add: bindings_in_range_def)
          obtain st2 acc2 where
            j: "join_group found name sourceId groupGuid groupName acc ?st1 = (st2, acc2)"
            by (cases "join_group found name sourceId groupGuid groupName acc ?st1")
          from join_group_inv [OF j fr ok1]
          have i: "eids st2 = eids ?st1" "gms st2 = gms ?st1"
            "zoneEntitiesByGuid st2 = zoneEntitiesByGuid ?st1"
            "length (zoneEntities st2) = length (zoneEntities ?st1)"
            "acc_ok st2 acc2" "set (fst acc) \<subseteq> set (fst acc2)"
            by simp_all
          from wf1 i(3,4) have wf2: "bindings_in_range st2"
            by (simp add: bindings_in_range_def)
          from Cons.IH [OF wf2 i(5)]
          have "vol_post st2 acc2 (vol_loop sources sourceId groupGuid groupName st2 acc2 rest)" .
          with i(1,2,6)
          have "vol_post st acc (vol_loop sources sourceId groupGuid groupName st2 acc2 rest)"
            by (intro vol_post_shift [of st2 st acc acc2]) simp_all
          with n ev g Some j show ?thesis by (simp add: Let_def)
        next
          case None
          note nb = this
          show ?thesis
          proof (cases "scan_zone_id ?st1 eventId")
            case None
            from Cons.IH [OF wf1 ok1]
            have "vol_post st acc (vol_loop sources sourceId groupGuid groupName ?st1 acc rest)"
              by (intro vol_post_shift [of ?st1 st acc acc]) simp_all
            with n ev g nb None show ?thesis by (simp add: Let_def)
          next
            case (Some found)
            let ?st1b = "?st1\<lparr>zoneEntitiesByGuid := (zoneEntitiesByGuid ?st1)(guid \<mapsto> found)\<rparr>"
            from scan_zone_id_range [OF Some] have fr: "found < length (zoneEntities ?st1b)"
              by simp
            have wf1b: "bindings_in_range ?st1b"
              using wf1 scan_zone_id_range [OF Some] by (rule wf_bind)
            have ok1b: "acc_ok ?st1b acc" using ok1 by (rule acc_ok_shape [rotated]) simp
            obtain st2 acc2 where
              j: "join_group found name sourceId groupGuid groupName acc ?st1b = (st2, acc2)"
              by (cases "join_group found name sourceId groupGuid groupName acc ?st1b")
            from join_group_inv [OF j fr ok1b]
            have i: "eids st2 = eids ?st1b" "gms st2 = gms ?st1b"
              "zoneEntitiesByGuid st2 = zoneEntitiesByGuid ?st1b"
              "length (zoneEntities st2) = length (zoneEntities ?st1b)"
              "acc_ok st2 acc2" "set (fst acc) \<subseteq> set (fst acc2)"
              by simp_all
            from wf1b i(3,4) have wf2: "bindings_in_range st2"
              by (simp add: bindings_in_range_def)
            from Cons.IH [OF wf2 i(5)]
            have "vol_post st2 acc2 (vol_loop sources sourceId groupGuid groupName st2 acc2 rest)" .
            with i(1,2,6)
            have "vol_post st acc (vol_loop sources sourceId groupGuid groupName st2 acc2 rest)"
              by (intro vol_post_shift [of st2 st acc acc2]) simp_all
            with n ev g nb Some j show ?thesis by (simp add: Let_def)
          qed
        qed
      qed
    qed
  qed
qed


lemma keeps_bindings_shape:
  "keeps_bindings st st1 \<Longrightarrow>
   eids st1 = eids st \<and> gms st1 = gms st \<and> (bindings_in_range st1 = bindings_in_range st)"
  by (simp add: keeps_bindings_def eids_def gms_def bindings_in_range_def)

lemma collect_zone_group_inv:
  assumes wf: "bindings_in_range st"
  shows "vol_post st ([], []) (collect_zone_group st grp)"
proof -
  have refl: "same_shape st st" using wf by (rule same_shape_refl)
  show ?thesis
  proof (cases "iv_attr_get grp ''guid'' []")
    case (Inl e)
    with refl show ?thesis by (simp add: collect_zone_group_def vol_post_def)
  next
    case (Inr groupGuid)
    note a1 = this
    show ?thesis
    proof (cases "iv_attr_get grp ''name'' []")
      case (Inl e)
      with a1 refl show ?thesis by (simp add: collect_zone_group_def vol_post_def)
    next
      case (Inr groupName)
      note a2 = this
      show ?thesis
      proof (cases "iv_attr_get grp ''sId'' ''0''")
        case (Inl e)
        with a1 a2 refl show ?thesis by (simp add: collect_zone_group_def vol_post_def)
      next
        case (Inr sId)
        note a3 = this
        show ?thesis
        proof (cases "iv_attr_get grp ''mArt'' []")
          case (Inl e)
          with a1 a2 a3 refl show ?thesis by (simp add: collect_zone_group_def vol_post_def)
        next
          case (Inr mArt)
          note a4 = this
          let ?st1 = "group_art (''Source_'' @ sId) mArt st"
          from keeps_bindings_shape [OF keeps_bindings_group_art [of st "''Source_'' @ sId" mArt]] wf
          have s1: "eids ?st1 = eids st" "gms ?st1 = gms st" "bindings_in_range ?st1"
            by simp_all
          then have sh1: "same_shape st ?st1" by (simp add: same_shape_def)
          show ?thesis
          proof (cases "sources_list grp")
            case (Inl e)
            with a1 a2 a3 a4 sh1 show ?thesis
              by (simp add: collect_zone_group_def vol_post_def Let_def)
          next
            case (Inr sourcesList)
            note sl = this
            show ?thesis
            proof (cases "sources_loop ?st1 [] sourcesList")
              case (Inl p)
              obtain e st2 where p: "p = (e, st2)" by (cases p)
              with keeps_bindings_sources_loop [of ?st1 "[]" sourcesList e st2] Inl
              have "keeps_bindings ?st1 st2" by simp
              from keeps_bindings_shape [OF this] s1 have "same_shape st st2"
                by (simp add: same_shape_def)
              with a1 a2 a3 a4 sl Inl p show ?thesis
                by (simp add: collect_zone_group_def vol_post_def Let_def)
            next
              case (Inr p)
              obtain st2 sources where p: "p = (st2, sources)" by (cases p)
              with keeps_bindings_sources_loop [of ?st1 "[]" sourcesList _ st2 sources] Inr
              have "keeps_bindings ?st1 st2" by simp
              from keeps_bindings_shape [OF this] s1
              have s2: "eids st2 = eids st" "gms st2 = gms st" "bindings_in_range st2"
                by simp_all
              then have sh2: "same_shape st st2" by (simp add: same_shape_def)
              show ?thesis
              proof (cases "vol_zones grp")
                case (Inl e)
                with a1 a2 a3 a4 sl Inr p sh2 show ?thesis
                  by (simp add: collect_zone_group_def vol_post_def Let_def)
              next
                case (Inr vZones)
                have "acc_ok st2 ([], [])" by (simp add: acc_ok_def)
                from vol_loop_inv [OF s2(3) this]
                have "vol_post st2 ([], [])
                        (vol_loop sources (''Source_'' @ sId) groupGuid groupName st2 ([], []) vZones)" .
                with s2
                have "vol_post st ([], [])
                        (vol_loop sources (''Source_'' @ sId) groupGuid groupName st2 ([], []) vZones)"
                  by (intro vol_post_shift [of st2 st "([], [])" "([], [])"]) simp_all
                with a1 a2 a3 a4 sl \<open>sources_loop ?st1 [] sourcesList = Inr p\<close> p Inr
                show ?thesis
                  by (simp add: collect_zone_group_def Let_def)
              qed
            qed
          qed
        qed
      qed
    qed
  qed
qed

lemma set_group_members_gms:
  "gms (set_group_members ents ids st) = fold (\<lambda>i l. l[i := sort ids]) ents (gms st)"
  unfolding set_group_members_def
  by (induction ents arbitrary: st) (simp_all add: gms_set_nsg_some)

lemma set_group_members_eids: "eids (set_group_members ents ids st) = eids st"
  unfolding set_group_members_def
  by (induction ents arbitrary: st) (simp_all add: eids_set_nsg)

lemma set_group_members_wf:
  "bindings_in_range st \<Longrightarrow> bindings_in_range (set_group_members ents ids st)"
  unfolding set_group_members_def
  by (induction ents arbitrary: st) (simp_all add: wf_set_nsg)

lemma fold_update_length: "length (fold (\<lambda>i l. l[i := v]) ents l) = length l"
  by (induction ents arbitrary: l) simp_all

lemma fold_update_nth:
  "i < length l \<Longrightarrow> fold (\<lambda>i l. l[i := v]) ents l ! i = (if i \<in> set ents then v else l ! i)"
proof (induction ents arbitrary: l)
  case Nil
  then show ?case by simp
next
  case (Cons j ents)
  then show ?case by (cases "i = j") (simp_all add: fold_update_length)
qed

lemma fold_update_set:
  "set (fold (\<lambda>i l. l[i := v]) ents l) \<subseteq> insert v (set l)"
proof (induction ents arbitrary: l)
  case Nil
  then show ?case by auto
next
  case (Cons j ents)
  have "set (l[j := v]) \<subseteq> insert v (set l)" by (rule set_update_subset_insert)
  with Cons.IH [of "l[j := v]"] show ?case by auto
qed


lemma collect_result:
  assumes wf: "bindings_in_range st"
    and c: "collect_zone_group st grp = Inr (st3, ents, ids)"
  shows "distinct ids" "ids = map (\<lambda>i. eids st ! i) ents"
    "\<forall>i \<in> set ents. i < length (zoneEntities st)"
    "eids st3 = eids st" "gms st3 = gms st" "bindings_in_range st3"
proof -
  from collect_zone_group_inv [OF wf, of grp] c
  have sh: "same_shape st st3" and ok: "acc_ok st3 (ents, ids)"
    by (simp_all add: vol_post_def)
  from sh show e: "eids st3 = eids st" and "gms st3 = gms st" and "bindings_in_range st3"
    by (simp_all add: same_shape_def)
  from ok have a: "ids = map (\<lambda>i. eids st3 ! i) ents" and b: "distinct ids"
    and c: "\<forall>i \<in> set ents. i < length (eids st3)"
    unfolding acc_ok_def by auto
  from b show "distinct ids" .
  from a e show "ids = map (\<lambda>i. eids st ! i) ents" by simp
  from c e have "\<forall>i \<in> set ents. i < length (eids st)" by simp
  then show "\<forall>i \<in> set ents. i < length (zoneEntities st)" by (simp add: length_eids)
qed

lemma collect_error:
  assumes wf: "bindings_in_range st"
    and c: "collect_zone_group st grp = Inl (e, st1)"
  shows "eids st1 = eids st" "gms st1 = gms st" "bindings_in_range st1"
  using collect_zone_group_inv [OF wf, of grp] c
  by (auto simp: vol_post_def same_shape_def)

lemma length_gms: "length (gms st) = length (zoneEntities st)"
  by (simp add: gms_def)

lemma group_step_gms:
  assumes wf: "bindings_in_range st"
    and c: "collect_zone_group st grp = Inr (st3, ents, ids)"
    and i: "i < length (zoneEntities st)"
  shows "gms (set_group_members ents ids st3) ! i
           = (if i \<in> set ents then sort ids else gms st ! i)"
  using collect_result(5) [OF wf c] i
  by (simp add: set_group_members_gms fold_update_nth length_gms)

lemma group_step_good:
  assumes wf: "bindings_in_range st"
    and c: "collect_zone_group st grp = Inr (st3, ents, ids)"
    and i: "i \<in> set ents"
  shows "good_members (eids st ! i) (sort ids)"
  using collect_result(1,2) [OF wf c] i by (auto simp: good_members_def)

lemma frame_good:
  assumes "bindings_in_range st" "zone_group_loop st groups = Returned st1"
    "i < length (zoneEntities st)"
    "i \<in> frame_members st groups \<or> good_members (eids st ! i) (gms st ! i)"
  shows "good_members (eids st ! i) (gms st1 ! i) \<and> eids st1 = eids st"
  using assms
proof (induction groups arbitrary: st)
  case Nil
  then show ?case by simp
next
  case (Cons grp rest)
  note wf = Cons.prems(1)
  from Cons.prems(2) obtain st3 ents ids where
    c: "collect_zone_group st grp = Inr (st3, ents, ids)"
    by (cases "collect_zone_group st grp") (auto simp: process_zone_group_def)
  let ?st2 = "set_group_members ents ids st3"
  have e2: "eids ?st2 = eids st"
    using collect_result(4) [OF wf c] by (simp add: set_group_members_eids)
  have wf2: "bindings_in_range ?st2"
    using collect_result(6) [OF wf c] by (rule set_group_members_wf)
  have l2: "i < length (zoneEntities ?st2)"
    using Cons.prems(3) e2 length_eids [of ?st2] length_eids [of st] by simp
  have r: "zone_group_loop ?st2 rest = Returned st1"
    using Cons.prems(2) c by (simp add: process_zone_group_def)
  have "i \<in> frame_members ?st2 rest \<or> good_members (eids ?st2 ! i) (gms ?st2 ! i)"
  proof (cases "i \<in> frame_members ?st2 rest")
    case True
    then show ?thesis by simp
  next
    case False
    show ?thesis
    proof (cases "i \<in> set ents")
      case True
      with group_step_good [OF wf c] group_step_gms [OF wf c Cons.prems(3)] e2
      show ?thesis by simp
    next
      case False
      with \<open>i \<notin> frame_members ?st2 rest\<close> Cons.prems(4) c
      have "good_members (eids st ! i) (gms st ! i)" by simp
      with False group_step_gms [OF wf c Cons.prems(3)] e2 show ?thesis by simp
    qed
  qed
  from Cons.IH [OF wf2 r l2 this] e2 show ?case by simp
qed

lemma frame_members_range:
  assumes "bindings_in_range st" "i \<in> frame_members st groups"
  shows "i < length (zoneEntities st)"
  using assms
proof (induction groups arbitrary: st)
  case Nil
  then show ?case by simp
next
  case (Cons grp rest)
  note wf = Cons.prems(1)
  show ?case
  proof (cases "collect_zone_group st grp")
    case (Inl a)
    with Cons.prems(2) show ?thesis by (auto split: prod.splits)
  next
    case (Inr p)
    obtain st3 ents ids where p: "p = (st3, ents, ids)" by (cases p)
    with Inr have c: "collect_zone_group st grp = Inr (st3, ents, ids)" by simp
    let ?st2 = "set_group_members ents ids st3"
    have e2: "eids ?st2 = eids st"
      using collect_result(4) [OF wf c] by (simp add: set_group_members_eids)
    have wf2: "bindings_in_range ?st2"
      using collect_result(6) [OF wf c] by (rule set_group_members_wf)
    from Cons.prems(2) c have "i \<in> set ents \<or> i \<in> frame_members ?st2 rest" by simp
    then show ?thesis
    proof
      assume "i \<in> set ents"
      with collect_result(3) [OF wf c] show ?thesis by simp
    next
      assume "i \<in> frame_members ?st2 rest"
      from Cons.IH [OF wf2 this] e2 length_eids [of ?st2] length_eids [of st]
      show ?thesis by simp
    qed
  qed
qed

lemma frame_all_sorted:
  assumes "bindings_in_range st" "\<forall>l \<in> set (gms st). sorted l \<and> distinct l"
  shows "\<forall>l \<in> set (gms (state_of (zone_group_loop st groups))). sorted l \<and> distinct l"
  using assms
proof (induction groups arbitrary: st)
  case Nil
  then show ?case by simp
next
  case (Cons grp rest)
  note wf = Cons.prems(1)
  show ?case
  proof (cases "collect_zone_group st grp")
    case (Inl a)
    obtain e st1 where a: "a = (e, st1)" by (cases a)
    with Inl collect_error(2) [OF wf, of grp e st1] Cons.prems(2)
    show ?thesis by (simp add: process_zone_group_def)
  next
    case (Inr p)
    obtain st3 ents ids where p: "p = (st3, ents, ids)" by (cases p)
    with Inr have c: "collect_zone_group st grp = Inr (st3, ents, ids)" by simp
    let ?st2 = "set_group_members ents ids st3"
    have wf2: "bindings_in_range ?st2"
      using collect_result(6) [OF wf c] by (rule set_group_members_wf)
    have "set (gms ?st2) \<subseteq> insert (sort ids) (set (gms st))"
      using collect_result(5) [OF wf c] fold_update_set [of "sort ids" ents "gms st"]
      by (simp add: set_group_members_gms)
    moreover have "sorted (sort ids) \<and> distinct (sort ids)"
      using collect_result(1) [OF wf c] by simp
    ultimately have "\<forall>l \<in> set (gms ?st2). sorted l \<and> distinct l"
      using Cons.prems(2) by auto
    from Cons.IH [OF wf2 this] c show ?thesis by (simp add: process_zone_group_def)
  qed
qed


lemma join_group_by_guid:
  "join_group found name sourceId groupGuid groupName acc st = (st1, acc1)
   \<Longrightarrow> zoneEntitiesByGuid st1 = zoneEntitiesByGuid st"
  by (cases acc) (auto simp: join_group_def Let_def by_guid_set_nsg split: if_splits)

lemma vol_loop_by_guid_mono:
  "vol_loop sources sourceId groupGuid groupName st acc vzs = Inr (st3, acc3)
   \<Longrightarrow> zoneEntitiesByGuid st g = Some i \<Longrightarrow> zoneEntitiesByGuid st3 g = Some i"
proof (induction vzs arbitrary: st acc)
  case Nil
  then show ?case by simp
next
  case (Cons vz rest)
  from Cons.prems(1) obtain name eventId guid where
    a: "iv_attr vz ''name'' = Inr name" "iv_attr vz ''eventId'' = Inr eventId"
       "iv_attr vz ''guid'' = Inr guid"
    by (auto simp: Let_def split: sum.splits)
  let ?st1 = "set_event (event_key eventId ''SourceList'') (VList sources) st"
  have b1: "zoneEntitiesByGuid ?st1 g = Some i" using Cons.prems(2) by simp
  show ?case
  proof (cases "zoneEntitiesByGuid ?st1 guid")
    case (Some found)
    obtain st2 acc2 where
      j: "join_group found name sourceId groupGuid groupName acc ?st1 = (st2, acc2)"
      by (cases "join_group found name sourceId groupGuid groupName acc ?st1")
    from Cons.prems(1) a Some j
    have r: "vol_loop sources sourceId groupGuid groupName st2 acc2 rest = Inr (st3, acc3)"
      by (simp add: Let_def)
    from join_group_by_guid [OF j] b1 have "zoneEntitiesByGuid st2 g = Some i" by simp
    from Cons.IH [OF r this] show ?thesis .
  next
    case None
    note nb = this
    show ?thesis
    proof (cases "scan_zone_id ?st1 eventId")
      case None
      from Cons.prems(1) a nb None
      have r: "vol_loop sources sourceId groupGuid groupName ?st1 acc rest = Inr (st3, acc3)"
        by (simp add: Let_def)
      from Cons.IH [OF r b1] show ?thesis .
    next
      case (Some found)
      let ?st1b = "?st1\<lparr>zoneEntitiesByGuid := (zoneEntitiesByGuid ?st1)(guid \<mapsto> found)\<rparr>"
      obtain st2 acc2 where
        j: "join_group found name sourceId groupGuid groupName acc ?st1b = (st2, acc2)"
        by (cases "join_group found name sourceId groupGuid groupName acc ?st1b")
      from Cons.prems(1) a nb Some j
      have r: "vol_loop sources sourceId groupGuid groupName st2 acc2 rest = Inr (st3, acc3)"
        by (simp add: Let_def)
      from nb b1 have "guid \<noteq> g" by auto
      with join_group_by_guid [OF j] b1 have "zoneEntitiesByGuid st2 g = Some i" by simp
      from Cons.IH [OF r this] show ?thesis .
    qed
  qed
qed


lemma vol_loop_new_binding:
  "vol_loop sources sourceId groupGuid groupName st acc vzs = Inr (st3, acc3)
   \<Longrightarrow> zoneEntitiesByGuid st3 g = Some i \<Longrightarrow> zoneEntitiesByGuid st g = None
   \<Longrightarrow> \<exists>vz \<in> set vzs. iv_attr vz ''guid'' = Inr g"
proof (induction vzs arbitrary: st acc)
  case Nil
  then show ?case by simp
next
  case (Cons vz rest)
  from Cons.prems(1) obtain name eventId guid where
    a: "iv_attr vz ''name'' = Inr name" "iv_attr vz ''eventId'' = Inr eventId"
       "iv_attr vz ''guid'' = Inr guid"
    by (auto simp: Let_def split: sum.splits)
  show ?case
  proof (cases "guid = g")
    case True
    with a show ?thesis by simp
  next
    case False
    let ?st1 = "set_event (event_key eventId ''SourceList'') (VList sources) st"
    have b1: "zoneEntitiesByGuid ?st1 g = None" using Cons.prems(3) by simp
    have "\<exists>vz \<in> set rest. iv_attr vz ''guid'' = Inr g"
    proof (cases "zoneEntitiesByGuid ?st1 guid")
      case (Some found)
      obtain st2 acc2 where
        j: "join_group found name sourceId groupGuid groupName acc ?st1 = (st2, acc2)"
        by (cases "join_group found name sourceId groupGuid groupName acc ?st1")
      from Cons.prems(1) a Some j
      have r: "vol_loop sources sourceId groupGuid groupName st2 acc2 rest = Inr (st3, acc3)"
        by (simp add: Let_def)
      from join_group_by_guid [OF j] b1 have "zoneEntitiesByGuid st2 g = None" by simp
      from Cons.IH [OF r Cons.prems(2) this] show ?thesis .
    next
      case None
      note nb = this
      show ?thesis
      proof (cases "scan_zone_id ?st1 eventId")
        case None
        from Cons.prems(1) a nb None
        have r: "vol_loop sources sourceId groupGuid groupName ?st1 acc rest = Inr (st3, acc3)"
          by (simp add: Let_def)
        from Cons.IH [OF r Cons.prems(2) b1] show ?thesis .
      next
        case (Some found)
        let ?st1b = "?st1\<lparr>zoneEntitiesByGuid := (zoneEntitiesByGuid ?st1)(guid \<mapsto> found)\<rparr>"
        obtain st2 acc2 where
          j: "join_group found name sourceId groupGuid groupName acc ?st1b = (st2, acc2)"
          by (cases "join_group found name sourceId groupGuid groupName acc ?st1b")
        from Cons.prems(1) a nb Some j
        have r: "vol_loop sources sourceId groupGuid groupName st2 acc2 rest = Inr (st3, acc3)"
          by (simp add: Let_def)
        from False join_group_by_guid [OF j] b1 have "zoneEntitiesByGuid st2 g = None" by simp
        from Cons.IH [OF r Cons.prems(2) this] show ?thesis .
      qed
    qed
    then show ?thesis by auto
  qed
qed

lemma collected_by_id:
  assumes d: "distinct (eids st)" and ok: "acc_ok st acc"
    and f: "found < length (eids st)" and m: "eids st ! found \<in> set (snd acc)"
  shows "found \<in> set (fst acc)"
proof -
  from ok m obtain j where j: "j \<in> set (fst acc)" "eids st ! j = eids st ! found"
    unfolding acc_ok_def by auto
  with ok have "j < length (eids st)" unfolding acc_ok_def by auto
  with d f j(2) have "j = found" by (simp add: nth_eq_iff_index_eq)
  with j(1) show ?thesis by simp
qed

lemma vol_loop_subset:
  assumes "bindings_in_range st" "acc_ok st acc"
    and "vol_loop sources sourceId groupGuid groupName st acc vzs = Inr (st3, acc3)"
  shows "set (fst acc) \<subseteq> set (fst acc3)"
  using vol_loop_inv [OF assms(1,2), of sources sourceId groupGuid groupName vzs] assms(3)
  by (simp add: vol_post_def)

lemma vol_loop_members:
  "bindings_in_range st \<Longrightarrow> acc_ok st acc \<Longrightarrow> distinct (eids st)
   \<Longrightarrow> vol_loop sources sourceId groupGuid groupName st acc vzs = Inr (st3, acc3)
   \<Longrightarrow> \<forall>vz \<in> set vzs. \<forall>g i. iv_attr vz ''guid'' = Inr g
         \<longrightarrow> zoneEntitiesByGuid st3 g = Some i \<longrightarrow> i \<in> set (fst acc3)"
proof (induction vzs arbitrary: st acc)
  case Nil
  then show ?case by simp
next
  case (Cons vz rest)
  note wf = Cons.prems(1) and ok = Cons.prems(2) and d = Cons.prems(3)
  from Cons.prems(4) obtain name eventId guid where
    a: "iv_attr vz ''name'' = Inr name" "iv_attr vz ''eventId'' = Inr eventId"
       "iv_attr vz ''guid'' = Inr guid"
    by (auto simp: Let_def split: sum.splits)
  let ?st1 = "set_event (event_key eventId ''SourceList'') (VList sources) st"
  have wf1: "bindings_in_range ?st1" using wf by simp
  have ok1: "acc_ok ?st1 acc" using ok by (rule acc_ok_shape [rotated]) simp
  have d1: "distinct (eids ?st1)" using d by simp
  have joined: "\<forall>vz \<in> set (vz # rest). \<forall>g i. iv_attr vz ''guid'' = Inr g
         \<longrightarrow> zoneEntitiesByGuid st3 g = Some i \<longrightarrow> i \<in> set (fst acc3)"
    if j: "join_group found name sourceId groupGuid groupName acc stb = (st2, acc2)"
      and r: "vol_loop sources sourceId groupGuid groupName st2 acc2 rest = Inr (st3, acc3)"
      and wfb: "bindings_in_range stb" and okb: "acc_ok stb acc" and db: "distinct (eids stb)"
      and fb: "found < length (zoneEntities stb)"
      and bb: "zoneEntitiesByGuid stb guid = Some found"
    for found stb st2 acc2
  proof -
    from join_group_inv [OF j fb okb]
    have i: "eids st2 = eids stb" "gms st2 = gms stb"
      "zoneEntitiesByGuid st2 = zoneEntitiesByGuid stb"
      "length (zoneEntities st2) = length (zoneEntities stb)"
      "acc_ok st2 acc2" "eids stb ! found \<in> set (snd acc2)"
      by simp_all
    from wfb i(3,4) have wf2: "bindings_in_range st2" by (simp add: bindings_in_range_def)
    from db i(1) have d2: "distinct (eids st2)" by simp
    from collected_by_id [OF d2 i(5)] fb i(1,6) have "found \<in> set (fst acc2)"
      by (simp add: length_eids)
    with vol_loop_subset [OF wf2 i(5) r] have m: "found \<in> set (fst acc3)" by auto
    from bb i(3) have "zoneEntitiesByGuid st2 guid = Some found" by simp
    from vol_loop_by_guid_mono [OF r this] have "zoneEntitiesByGuid st3 guid = Some found" .
    with m a(3) Cons.IH [OF wf2 i(5) d2 r] show ?thesis by auto
  qed
  show ?case
  proof (cases "zoneEntitiesByGuid ?st1 guid")
    case (Some found)
    with wf1 have fr: "found < length (zoneEntities ?st1)" by (simp add: bindings_in_range_def)
    obtain st2 acc2 where
      j: "join_group found name sourceId groupGuid groupName acc ?st1 = (st2, acc2)"
      by (cases "join_group found name sourceId groupGuid groupName acc ?st1")
    from Cons.prems(4) a Some j
    have r: "vol_loop sources sourceId groupGuid groupName st2 acc2 rest = Inr (st3, acc3)"
      by (simp add: Let_def)
    from joined [OF j r wf1 ok1 d1 fr Some] show ?thesis .
  next
    case None
    note nb = this
    show ?thesis
    proof (cases "scan_zone_id ?st1 eventId")
      case None
      from Cons.prems(4) a nb None
      have r: "vol_loop sources sourceId groupGuid groupName ?st1 acc rest = Inr (st3, acc3)"
        by (simp add: Let_def)
      note IH = Cons.IH [OF wf1 ok1 d1 r]
      have "\<forall>i. zoneEntitiesByGuid st3 guid = Some i \<longrightarrow> i \<in> set (fst acc3)"
      proof (intro allI impI)
        fix i
        assume b: "zoneEntitiesByGuid st3 guid = Some i"
        from vol_loop_new_binding [OF r b nb]
        obtain vz1 where "vz1 \<in> set rest" "iv_attr vz1 ''guid'' = Inr guid" by auto
        with IH b show "i \<in> set (fst acc3)" by auto
      qed
      with IH a(3) show ?thesis by auto
    next
      case (Some found)
      let ?st1b = "?st1\<lparr>zoneEntitiesByGuid := (zoneEntitiesByGuid ?st1)(guid \<mapsto> found)\<rparr>"
      from scan_zone_id_range [OF Some] have fr: "found < length (zoneEntities ?st1b)" by simp
      have wf1b: "bindings_in_range ?st1b"
        using wf1 scan_zone_id_range [OF Some] by (rule wf_bind)
      have ok1b: "acc_ok ?st1b acc" using ok1 by (rule acc_ok_shape [rotated]) simp
      have d1b: "distinct (eids ?st1b)" using d1 by simp
      obtain st2 acc2 where
        j: "join_group found name sourceId groupGuid groupName acc ?st1b = (st2, acc2)"
        by (cases "join_group found name sourceId groupGuid groupName acc ?st1b")
      from Cons.prems(4) a nb Some j
      have r: "vol_loop sources sourceId groupGuid groupName st2 acc2 rest = Inr (st3, acc3)"
        by (simp add: Let_def)
      have bb: "zoneEntitiesByGuid ?st1b guid = Some found" by simp
      from joined [OF j r wf1b ok1b d1b fr bb] show ?thesis .
    qed
  qed
qed


lemma collect_members:
  assumes wf: "bindings_in_range st" and d: "distinct (eids st)"
    and c: "collect_zone_group st grp = Inr (st3, ents, ids)"
    and vz: "vol_zones grp = Inr vzs"
  shows "\<forall>vz \<in> set vzs. \<forall>g i. iv_attr vz ''guid'' = Inr g
           \<longrightarrow> zoneEntitiesByGuid st3 g = Some i \<longrightarrow> i \<in> set ents"
proof -
  from c vz obtain groupGuid groupName sId mArt sourcesList st2 sources where
    sl: "sources_loop (group_art (''Source_'' @ sId) mArt st) [] sourcesList = Inr (st2, sources)"
    and vl: "vol_loop sources (''Source_'' @ sId) groupGuid groupName st2 ([], []) vzs
               = Inr (st3, ents, ids)"
    by (auto simp: collect_zone_group_def Let_def split: sum.splits prod.splits)
  let ?st1 = "group_art (''Source_'' @ sId) mArt st"
  from keeps_bindings_shape [OF keeps_bindings_group_art [of st "''Source_'' @ sId" mArt]] wf
  have s1: "eids ?st1 = eids st" "bindings_in_range ?st1" by simp_all
  from keeps_bindings_sources_loop [of ?st1 "[]" sourcesList _ st2 sources] sl
  have "keeps_bindings ?st1 st2" by simp
  from keeps_bindings_shape [OF this] s1
  have s2: "eids st2 = eids st" "bindings_in_range st2" by simp_all
  have ok: "acc_ok st2 ([], [])" by (simp add: acc_ok_def)
  from d s2(1) have d2: "distinct (eids st2)" by simp
  from vol_loop_members [OF s2(2) ok d2 vl] show ?thesis by simp
qed


lemma handler_loop_state:
  "state_of (process_mrad_zone_group_response env st res)
     = state_of (zone_group_loop st (frame_groups env res))"
  by (auto simp: process_mrad_zone_group_response_def frame_groups_def
      split: option.splits sum.splits)

lemma handler_loop_returned:
  "process_mrad_zone_group_response env st res = Returned st1
   \<Longrightarrow> zone_group_loop st (frame_groups env res) = Returned st1"
  by (auto simp: process_mrad_zone_group_response_def frame_groups_def
      split: option.splits sum.splits)

lemma not_raised: "\<not> raised r \<Longrightarrow> r = Returned (state_of r)"
  by (cases r) simp_all

text \<open>
  C3. The bindings refer to zone entities. For one group: when the loop over its
  zones ends, the collected ids are the entity ids of the collected zones, each once,
  and every collected zone gets the sorted ids as its group members; and, the entity
  ids of the zone entities being different from each other, every zone element of the
  group whose GUID is bound at the end of the loop has its zone entity among the
  collected ones. For a frame the handler returns from: every zone collected in some
  group of the frame ends with a group-member list that is sorted, has no entry twice
  and contains the zone's own entity id. And when the handler raises instead, every
  group-member list is still sorted and without repetition if all were before.
\<close>

theorem group_members_sorted_distinct:
  assumes wf: "bindings_in_range st"
  shows "(\<forall>st3 ents ids. collect_zone_group st grp = Inr (st3, ents, ids) \<longrightarrow>
            distinct ids \<and> ids = map (\<lambda>i. eids st ! i) ents
            \<and> (\<forall>i \<in> set ents. gms (state_of (process_zone_group st grp)) ! i = sort ids)
            \<and> (distinct (eids st) \<longrightarrow>
                 (\<forall>vzs. vol_zones grp = Inr vzs \<longrightarrow>
                    (\<forall>vz \<in> set vzs. \<forall>g i. iv_attr vz ''guid'' = Inr g
                       \<longrightarrow> zoneEntitiesByGuid st3 g = Some i \<longrightarrow> i \<in> set ents))))
     \<and> (\<forall>st1. process_mrad_zone_group_response env st res = Returned st1 \<longrightarrow>
            (\<forall>i \<in> frame_members st (frame_groups env res).
               sorted (gms st1 ! i) \<and> distinct (gms st1 ! i)
               \<and> eids st1 ! i \<in> set (gms st1 ! i)))
     \<and> ((\<forall>l \<in> set (gms st). sorted l \<and> distinct l) \<longrightarrow>
            (\<forall>l \<in> set (gms (state_of (process_mrad_zone_group_response env st res))).
               sorted l \<and> distinct l))"
proof (intro conjI allI impI ballI)
  fix st3 ents ids
  assume c: "collect_zone_group st grp = Inr (st3, ents, ids)"
  show "distinct ids" by (rule collect_result(1) [OF wf c])
  show "ids = map (\<lambda>i. eids st ! i) ents" by (rule collect_result(2) [OF wf c])
  fix i
  assume i: "i \<in> set ents"
  with collect_result(3) [OF wf c] have "i < length (zoneEntities st)" by simp
  from group_step_gms [OF wf c this] i c
  show "gms (state_of (process_zone_group st grp)) ! i = sort ids"
    by (simp add: process_zone_group_def)
next
  fix st3 ents ids vzs vz g i
  assume "collect_zone_group st grp = Inr (st3, ents, ids)" and "distinct (eids st)"
    and "vol_zones grp = Inr vzs" and "vz \<in> set vzs" and "iv_attr vz ''guid'' = Inr g"
    and "zoneEntitiesByGuid st3 g = Some i"
  with collect_members [OF wf, of grp st3 ents ids vzs]
  show "i \<in> set ents" by blast
next
  fix st1 i
  assume r: "process_mrad_zone_group_response env st res = Returned st1"
    and i: "i \<in> frame_members st (frame_groups env res)"
  from r have l: "zone_group_loop st (frame_groups env res) = Returned st1"
    by (rule handler_loop_returned)
  from frame_members_range [OF wf i] have "i < length (zoneEntities st)" .
  from frame_good [OF wf l this] i
  have "good_members (eids st ! i) (gms st1 ! i)" and "eids st1 = eids st" by simp_all
  then show "sorted (gms st1 ! i)" and "distinct (gms st1 ! i)"
    and "eids st1 ! i \<in> set (gms st1 ! i)"
    by (simp_all add: good_members_def)
next
  fix l
  assume a: "\<forall>l \<in> set (gms st). sorted l \<and> distinct l"
    and l: "l \<in> set (gms (state_of (process_mrad_zone_group_response env st res)))"
  from l have "l \<in> set (gms (state_of (zone_group_loop st (frame_groups env res))))"
    by (simp only: handler_loop_state)
  with frame_all_sorted [OF wf a, of "frame_groups env res"]
  show "sorted l" and "distinct l" by simp_all
qed

theorem group_members_sorted_distinct_witness:
  "bindings_in_range two_zones
   \<and> \<not> raised (process_mrad_zone_group_response two_zone_env two_zones ''<ZoneGroups>'')
   \<and> 0 \<in> frame_members two_zones (frame_groups two_zone_env ''<ZoneGroups>'')
   \<and> gms (state_of (process_mrad_zone_group_response two_zone_env two_zones ''<ZoneGroups>''))
       = [[''media_player.kitchen'', ''media_player.office''],
          [''media_player.kitchen'', ''media_player.office'']]
   \<and> sorted (gms (state_of
         (process_mrad_zone_group_response two_zone_env two_zones ''<ZoneGroups>'')) ! 0)
   \<and> distinct (gms (state_of
         (process_mrad_zone_group_response two_zone_env two_zones ''<ZoneGroups>'')) ! 0)"
proof -
  let ?r = "process_mrad_zone_group_response two_zone_env two_zones ''<ZoneGroups>''"
  have w: "bindings_in_range two_zones"
    by (simp add: bindings_in_range_def two_zones_def add_zone_entity_def Controller_init_def)
  have n: "\<not> raised ?r" by code_simp
  have m: "0 \<in> frame_members two_zones (frame_groups two_zone_env ''<ZoneGroups>'')"
    by code_simp
  have g: "gms (state_of ?r)
       = [[''media_player.kitchen'', ''media_player.office''],
          [''media_player.kitchen'', ''media_player.office'']]"
    by code_simp
  from not_raised [OF n] have r: "?r = Returned (state_of ?r)" .
  from group_members_sorted_distinct [OF w, of _ two_zone_env "''<ZoneGroups>''"] r m
  have "sorted (gms (state_of ?r) ! 0) \<and> distinct (gms (state_of ?r) ! 0)"
    by blast
  with w n m g show ?thesis by blast
qed

section \<open>Processing a zone snapshot twice\<close>

lemma run_zones_simps [simp]:
  "run_zones st [] = st" "run_zones st (f # fs) = run_zones (bind_zone st f) fs"
  by (simp_all add: run_zones_def)

lemma bind_zone_tgt:
  "bind_zone st f =
     (case tgt st f of
        None \<Rightarrow> st
      | Some i \<Rightarrow>
          set_name_source_and_group i (Some (fst (snd (snd f)))) (Some (fst (snd f))) None None None
            (st\<lparr>zoneEntitiesByGuid := (zoneEntitiesByGuid st)(fst f \<mapsto> i)\<rparr>))"
proof (cases f)
  case (fields guid sourceId name ident)
  show ?thesis
  proof (cases "zoneEntitiesByGuid st guid")
    case None
    with fields show ?thesis
      by (simp add: bind_zone_def tgt_def ident_of_def split: option.splits)
  next
    case (Some i)
    then have "(zoneEntitiesByGuid st)(guid \<mapsto> i) = zoneEntitiesByGuid st"
      by (rule map_upd_triv)
    with fields Some show ?thesis
      by (simp add: bind_zone_def tgt_def ident_of_def)
  qed
qed

lemma by_guid_bind_zone:
  "zoneEntitiesByGuid (bind_zone st f) =
     (case tgt st f of None \<Rightarrow> zoneEntitiesByGuid st
      | Some i \<Rightarrow> (zoneEntitiesByGuid st)(fst f \<mapsto> i))"
  by (simp add: bind_zone_tgt by_guid_set_nsg split: option.splits)

lemma zones_bind_zone:
  "zoneEntities (bind_zone st f) =
     (case tgt st f of None \<Rightarrow> zoneEntities st
      | Some i \<Rightarrow> (zoneEntities st)[i := write_zone f (zoneEntities st ! i)])"
  by (simp add: bind_zone_tgt zones_set_nsg zone_set_fields write_zone_def split: option.splits)

lemma write_zone_zid [simp]: "mms_zone_id (write_zone f z) = mms_zone_id z"
  by (simp add: write_zone_def)

lemma write_zone_twice [simp]: "write_zone h (write_zone f z) = write_zone h z"
  by (simp add: write_zone_def)

lemma zids_bind_zone:
  "map mms_zone_id (zoneEntities (bind_zone st f)) = map mms_zone_id (zoneEntities st)"
  by (simp add: zones_bind_zone map_update_same split: option.splits)

lemma scan_from_map:
  "map mms_zone_id zs = map mms_zone_id zs1 \<Longrightarrow> scan_from k zs x = scan_from k zs1 x"
proof (induction zs arbitrary: zs1 k)
  case Nil
  then show ?case by simp
next
  case (Cons z zs)
  then obtain y ys where "zs1 = y # ys" by (cases zs1) auto
  with Cons show ?case by auto
qed

lemma scan_bind_zone: "scan_zone_id (bind_zone st f) x = scan_zone_id st x"
  unfolding scan_zone_id_def by (rule scan_from_map) (rule zids_bind_zone)


lemma by_guid_mono_step:
  "zoneEntitiesByGuid st g = Some i \<Longrightarrow> zoneEntitiesByGuid (bind_zone st f) g = Some i"
  by (auto simp: by_guid_bind_zone tgt_def split: option.splits)

lemma by_guid_mono:
  "zoneEntitiesByGuid st g = Some i \<Longrightarrow> zoneEntitiesByGuid (run_zones st fs) g = Some i"
  by (induction fs arbitrary: st) (simp_all add: by_guid_mono_step)

lemma scan_run_zones: "scan_zone_id (run_zones st fs) x = scan_zone_id st x"
  by (induction fs arbitrary: st) (simp_all add: scan_bind_zone)

lemma tgt_bound: "tgt st f = Some t \<Longrightarrow> zoneEntitiesByGuid (bind_zone st f) (fst f) = Some t"
  by (simp add: by_guid_bind_zone)

lemma stable_after: "stable (bind_zone st f) f"
  by (cases "tgt st f")
     (auto simp: stable_def by_guid_bind_zone scan_bind_zone tgt_def split: option.splits)

lemma stable_mono: "stable st f \<Longrightarrow> stable (run_zones st fs) f"
  unfolding stable_def using by_guid_mono [of st "fst f" _ fs] scan_run_zones [of st fs]
  by auto

lemma stable_run: "f \<in> set fs \<Longrightarrow> stable (run_zones st fs) f"
proof (induction fs arbitrary: st)
  case Nil
  then show ?case by simp
next
  case (Cons h fs)
  show ?case
  proof (cases "f = h")
    case True
    with stable_mono [OF stable_after, of st h fs] show ?thesis by simp
  next
    case False
    with Cons.prems have "f \<in> set fs" by simp
    from Cons.IH [OF this] show ?thesis by simp
  qed
qed

lemma tgt_stable: "stable st f \<Longrightarrow> tgt st f = zoneEntitiesByGuid st (fst f)"
  by (auto simp: stable_def tgt_def split: option.splits)

lemma bind_stable:
  assumes "stable st f"
  shows "zoneEntitiesByGuid (bind_zone st f) = zoneEntitiesByGuid st"
    and "zoneEntities (bind_zone st f) =
           (case zoneEntitiesByGuid st (fst f) of None \<Rightarrow> zoneEntities st
            | Some i \<Rightarrow> (zoneEntities st)[i := write_zone f (zoneEntities st ! i)])"
proof -
  show "zoneEntitiesByGuid (bind_zone st f) = zoneEntitiesByGuid st"
    using tgt_stable [OF assms]
    by (cases "zoneEntitiesByGuid st (fst f)") (simp_all add: by_guid_bind_zone map_upd_triv)
  show "zoneEntities (bind_zone st f) =
           (case zoneEntitiesByGuid st (fst f) of None \<Rightarrow> zoneEntities st
            | Some i \<Rightarrow> (zoneEntities st)[i := write_zone f (zoneEntities st ! i)])"
    using tgt_stable [OF assms] by (simp add: zones_bind_zone)
qed

lemma stable_same:
  "zoneEntitiesByGuid st1 = zoneEntitiesByGuid st
   \<Longrightarrow> map mms_zone_id (zoneEntities st1) = map mms_zone_id (zoneEntities st)
   \<Longrightarrow> stable st1 f = stable st f"
  using scan_from_map [of "zoneEntities st1" "zoneEntities st" 0 "ident_of f"]
  by (simp add: stable_def scan_zone_id_def)

lemma second_pass:
  "\<forall>f \<in> set fs. stable st f \<Longrightarrow>
   zoneEntitiesByGuid (run_zones st fs) = zoneEntitiesByGuid st
   \<and> zoneEntities (run_zones st fs) = run2 (zoneEntitiesByGuid st) fs (zoneEntities st)"
proof (induction fs arbitrary: st)
  case Nil
  show ?case by simp
next
  case (Cons h fs)
  then have h: "stable st h" by simp
  note b = bind_stable [OF h]
  have "\<forall>f \<in> set fs. stable (bind_zone st h) f"
    using Cons.prems stable_same [OF b(1) zids_bind_zone [of st h]] by simp
  from Cons.IH [OF this] b show ?case by simp
qed

lemma new_binding_from_frame:
  "zoneEntitiesByGuid (run_zones st fs) g = Some i \<Longrightarrow> zoneEntitiesByGuid st g = None
   \<Longrightarrow> \<exists>f \<in> set fs. fst f = g"
proof (induction fs arbitrary: st)
  case Nil
  then show ?case by simp
next
  case (Cons h fs)
  show ?case
  proof (cases "fst h = g")
    case True
    then show ?thesis by auto
  next
    case False
    with Cons.prems(2) have "zoneEntitiesByGuid (bind_zone st h) g = None"
      by (simp add: by_guid_bind_zone split: option.splits)
    from Cons.IH [OF _ this] Cons.prems(1) show ?thesis by simp
  qed
qed

lemma untouched_zone:
  "\<forall>f \<in> set fs. zoneEntitiesByGuid (run_zones st fs) (fst f) \<noteq> Some i
   \<Longrightarrow> zoneEntities (run_zones st fs) ! i = zoneEntities st ! i"
proof (induction fs arbitrary: st)
  case Nil
  show ?case by simp
next
  case (Cons h fs)
  from Cons.prems have r: "\<forall>f \<in> set fs. zoneEntitiesByGuid (run_zones (bind_zone st h) fs) (fst f) \<noteq> Some i"
    and hh: "zoneEntitiesByGuid (run_zones (bind_zone st h) fs) (fst h) \<noteq> Some i"
    by simp_all
  have "zoneEntities (bind_zone st h) ! i = zoneEntities st ! i"
  proof (cases "tgt st h")
    case None
    then show ?thesis by (simp add: zones_bind_zone)
  next
    case (Some t)
    from by_guid_mono [OF tgt_bound [OF Some], of fs] hh have "t \<noteq> i" by auto
    with Some show ?thesis by (simp add: zones_bind_zone)
  qed
  with Cons.IH [OF r] show ?case by simp
qed

lemma overwritten:
  "\<exists>h \<in> set fs. c (fst h) = Some i
   \<Longrightarrow> run2 c fs (zs[i := write_zone f (zs ! i)]) = run2 c fs zs"
proof (induction fs arbitrary: zs)
  case Nil
  then show ?case by simp
next
  case (Cons h fs)
  show ?case
  proof (cases "c (fst h)")
    case None
    with Cons.prems have "\<exists>h \<in> set fs. c (fst h) = Some i" by auto
    from Cons.IH [OF this] None show ?thesis by simp
  next
    case (Some j)
    show ?thesis
    proof (cases "j = i")
      case True
      have "(zs[i := write_zone f (zs ! i)])[i := write_zone h (zs[i := write_zone f (zs ! i)] ! i)]
              = zs[i := write_zone h (zs ! i)]"
        by (cases "i < length zs") (simp_all add: list_update_beyond)
      with Some True show ?thesis by simp
    next
      case False
      with Cons.prems Some have e: "\<exists>h \<in> set fs. c (fst h) = Some i" by auto
      have "(zs[i := write_zone f (zs ! i)])[j := write_zone h (zs[i := write_zone f (zs ! i)] ! j)]
              = (zs[j := write_zone h (zs ! j)])
                  [i := write_zone f (zs[j := write_zone h (zs ! j)] ! i)]"
        using False by (simp add: list_update_swap)
      with Cons.IH [OF e, of "zs[j := write_zone h (zs ! j)]"] Some show ?thesis by simp
    qed
  qed
qed


lemma length_bind_zone: "length (zoneEntities (bind_zone st f)) = length (zoneEntities st)"
  by (simp add: zones_bind_zone split: option.splits)

lemma length_run_zones: "length (zoneEntities (run_zones st fs)) = length (zoneEntities st)"
  by (induction fs arbitrary: st) (simp_all add: length_bind_zone)

lemma second_pass_zones:
  "run2 (zoneEntitiesByGuid (run_zones st fs)) fs (zoneEntities (run_zones st fs))
     = zoneEntities (run_zones st fs)"
proof (induction fs arbitrary: st)
  case Nil
  show ?case by simp
next
  case (Cons f rest)
  let ?st' = "bind_zone st f"
  let ?st1 = "run_zones ?st' rest"
  let ?c = "zoneEntitiesByGuid ?st1"
  let ?Z = "zoneEntities ?st1"
  have IH: "run2 ?c rest ?Z = ?Z" by (rule Cons.IH)
  show ?case
  proof (cases "?c (fst f)")
    case None
    with IH show ?thesis by simp
  next
    case (Some i)
    show ?thesis
    proof (cases "\<exists>h \<in> set rest. ?c (fst h) = Some i")
      case True
      from overwritten [OF True, of ?Z f] IH Some show ?thesis by simp
    next
      case False
      then have u: "?Z ! i = zoneEntities ?st' ! i"
        by (intro untouched_zone) simp
      have t: "tgt st f = Some i"
      proof (cases "tgt st f")
        case None
        then have "zoneEntitiesByGuid st (fst f) = None" and "?st' = st"
          by (simp_all add: tgt_def bind_zone_tgt split: option.splits)
        with new_binding_from_frame [of st rest "fst f" i] Some
        obtain h where "h \<in> set rest" "fst h = fst f" by auto
        with Some False show ?thesis by auto
      next
        case (Some t)
        from by_guid_mono [OF tgt_bound [OF Some], of rest] \<open>?c (fst f) = Some i\<close>
        show ?thesis using Some by simp
      qed
      have "?Z[i := write_zone f (?Z ! i)] = ?Z"
      proof (cases "i < length ?Z")
        case True
        then have "i < length (zoneEntities st)"
          by (simp add: length_run_zones length_bind_zone)
        with t have "zoneEntities ?st' ! i = write_zone f (zoneEntities st ! i)"
          by (simp add: zones_bind_zone)
        with u have "write_zone f (?Z ! i) = ?Z ! i" by simp
        then show ?thesis by (simp only: list_update_id)
      next
        case False
        then show ?thesis by (simp add: list_update_beyond)
      qed
      with IH Some show ?thesis by simp
    qed
  qed
qed

lemma run_zones_twice:
  "zoneEntities (run_zones (run_zones st fs) fs) = zoneEntities (run_zones st fs)
   \<and> zoneEntitiesByGuid (run_zones (run_zones st fs) fs) = zoneEntitiesByGuid (run_zones st fs)"
proof -
  have "\<forall>f \<in> set fs. stable (run_zones st fs) f"
    by (simp add: stable_run)
  from second_pass [OF this] second_pass_zones [of st fs] show ?thesis by simp
qed

lemma zone_loop_run: "state_of (zone_loop st zs) = run_zones st (ok_fields zs)"
  by (induction zs arbitrary: st) (simp_all split: sum.splits)

lemma zone_loop_raised: "raised (zone_loop st zs) = raised (zone_loop st1 zs)"
  by (induction zs arbitrary: st st1) (auto split: sum.splits)

lemma zone_response_run:
  "state_of (process_mrad_zone_response env st res) = run_zones st (frame_fields env res)"
  by (simp add: process_mrad_zone_response_def frame_fields_def zone_loop_run
      split: option.splits sum.splits)

lemma zone_response_raised:
  "raised (process_mrad_zone_response env st res)
     = raised (process_mrad_zone_response env st1 res)"
  using zone_loop_raised [of st _ st1]
  by (simp add: process_mrad_zone_response_def split: option.splits sum.splits)


lemma targets_set: "i \<in> set (targets c fs) \<longleftrightarrow> (\<exists>h \<in> set fs. c (fst h) = Some i)"
  by (induction fs) (auto split: option.splits)

lemma settled:
  "distinct (targets (zoneEntitiesByGuid (run_zones st fs)) fs) \<Longrightarrow>
   \<forall>f \<in> set fs. \<forall>i. zoneEntitiesByGuid (run_zones st fs) (fst f) = Some i
      \<longrightarrow> i < length (zoneEntities st)
      \<longrightarrow> write_zone f (zoneEntities (run_zones st fs) ! i) = zoneEntities (run_zones st fs) ! i"
proof (induction fs arbitrary: st)
  case Nil
  show ?case by simp
next
  case (Cons f rest)
  let ?st' = "bind_zone st f"
  let ?st1 = "run_zones ?st' rest"
  let ?c = "zoneEntitiesByGuid ?st1"
  let ?Z = "zoneEntities ?st1"
  from Cons.prems have d: "distinct (targets ?c rest)"
    by (simp split: option.splits)
  from Cons.IH [OF d]
  have IH: "\<forall>h \<in> set rest. \<forall>i. ?c (fst h) = Some i \<longrightarrow> i < length (zoneEntities st)
      \<longrightarrow> write_zone h (?Z ! i) = ?Z ! i"
    by (simp add: length_bind_zone)
  have "\<forall>i. ?c (fst f) = Some i \<longrightarrow> i < length (zoneEntities st)
      \<longrightarrow> write_zone f (?Z ! i) = ?Z ! i"
  proof (intro allI impI)
    fix i
    assume c: "?c (fst f) = Some i" and l: "i < length (zoneEntities st)"
    with Cons.prems have n: "i \<notin> set (targets ?c rest)" by simp
    then have f: "\<forall>h \<in> set rest. ?c (fst h) \<noteq> Some i"
      by (simp add: targets_set)
    then have u: "?Z ! i = zoneEntities ?st' ! i"
      by (rule untouched_zone)
    have t: "tgt st f = Some i"
    proof (cases "tgt st f")
      case None
      then have "zoneEntitiesByGuid st (fst f) = None" and "?st' = st"
        by (simp_all add: tgt_def bind_zone_tgt split: option.splits)
      with new_binding_from_frame [of st rest "fst f" i] c
      obtain h where "h \<in> set rest" "fst h = fst f" by auto
      with c f show ?thesis by auto
    next
      case (Some t)
      from by_guid_mono [OF tgt_bound [OF Some], of rest] c
      show ?thesis using Some by simp
    qed
    with l have "zoneEntities ?st' ! i = write_zone f (zoneEntities st ! i)"
      by (simp add: zones_bind_zone)
    with u show "write_zone f (?Z ! i) = ?Z ! i" by simp
  qed
  with IH show ?case by simp
qed

lemma write_zone_fixed:
  "write_zone f z = z \<Longrightarrow> zone_name z = fst (snd (snd f)) \<and> mms_source_id z = fst (snd f)"
  unfolding write_zone_def by (cases z) simp

lemma set_nsg_same:
  "zone_name (zoneEntities st ! i) = n \<Longrightarrow> mms_source_id (zoneEntities st ! i) = s
   \<Longrightarrow> set_name_source_and_group i (Some n) (Some s) None None None st = st"
  by (simp add: set_name_source_and_group_def zone_set_name_source_and_group_def Let_def)

lemma bind_zone_same:
  assumes s: "stable st f"
    and w: "\<forall>i. zoneEntitiesByGuid st (fst f) = Some i
              \<longrightarrow> write_zone f (zoneEntities st ! i) = zoneEntities st ! i"
  shows "bind_zone st f = st"
proof (cases "zoneEntitiesByGuid st (fst f)")
  case None
  with tgt_stable [OF s] show ?thesis by (simp add: bind_zone_tgt)
next
  case (Some i)
  with w have "write_zone f (zoneEntities st ! i) = zoneEntities st ! i" by simp
  from write_zone_fixed [OF this] Some tgt_stable [OF s] show ?thesis
    by (simp add: bind_zone_tgt map_upd_triv set_nsg_same)
qed

lemma run_zones_same:
  "\<forall>f \<in> set fs. stable st f \<and> (\<forall>i. zoneEntitiesByGuid st (fst f) = Some i
              \<longrightarrow> write_zone f (zoneEntities st ! i) = zoneEntities st ! i)
   \<Longrightarrow> run_zones st fs = st"
  by (induction fs) (simp_all add: bind_zone_same)

lemma wf_bind_zone: "bindings_in_range st \<Longrightarrow> bindings_in_range (bind_zone st f)"
proof (cases "tgt st f")
  case None
  assume "bindings_in_range st"
  with None show ?thesis by (simp add: bind_zone_tgt)
next
  case (Some i)
  assume wf: "bindings_in_range st"
  with Some have "i < length (zoneEntities st)"
    by (auto simp: tgt_def bindings_in_range_def scan_zone_id_range split: option.splits)
  with wf Some show ?thesis
    by (simp add: bind_zone_tgt wf_set_nsg wf_bind)
qed

lemma wf_run_zones: "bindings_in_range st \<Longrightarrow> bindings_in_range (run_zones st fs)"
  by (induction fs arbitrary: st) (simp_all add: wf_bind_zone)

lemma run_zones_settled:
  assumes wf: "bindings_in_range st"
    and d: "distinct (targets (zoneEntitiesByGuid (run_zones st fs)) fs)"
  shows "run_zones (run_zones st fs) fs = run_zones st fs"
proof (rule run_zones_same, intro ballI conjI allI impI)
  fix f
  assume f: "f \<in> set fs"
  then show "stable (run_zones st fs) f" by (rule stable_run)
  fix i
  assume b: "zoneEntitiesByGuid (run_zones st fs) (fst f) = Some i"
  with wf_run_zones [OF wf, of fs] have "i < length (zoneEntities (run_zones st fs))"
    by (simp add: bindings_in_range_def)
  then have "i < length (zoneEntities st)" by (simp add: length_run_zones)
  with settled [OF d] f b
  show "write_zone f (zoneEntities (run_zones st fs) ! i) = zoneEntities (run_zones st fs) ! i"
    by blast
qed


text \<open>
  C5. Let \<open>st1\<close> be the state after the handler has processed a zone snapshot. When
  it processes the same frame again from \<open>st1\<close>, the zone entities (name, source id,
  group and group members of each) and the GUID bindings end as they are in \<open>st1\<close>,
  and it raises exactly if the first pass raised. Every zone element the handler
  gets through has its GUID bound in \<open>st1\<close>, so that the second pass resolves it
  through the binding, unless no zone entity has the element's id. And when no zone
  entity is named by two elements of the frame, the second pass changes nothing at
  all in the controller.
\<close>

theorem zone_snapshot_idempotent:
  assumes first: "st1 = state_of (process_mrad_zone_response env st res)"
  shows "zoneEntities (state_of (process_mrad_zone_response env st1 res)) = zoneEntities st1
   \<and> zoneEntitiesByGuid (state_of (process_mrad_zone_response env st1 res))
       = zoneEntitiesByGuid st1
   \<and> raised (process_mrad_zone_response env st1 res)
       = raised (process_mrad_zone_response env st res)
   \<and> (\<forall>f \<in> set (frame_fields env res).
         zoneEntitiesByGuid st1 (fst f) \<noteq> None \<or> scan_zone_id st1 (ident_of f) = None)
   \<and> (bindings_in_range st
        \<and> distinct (targets (zoneEntitiesByGuid st1) (frame_fields env res))
        \<longrightarrow> state_of (process_mrad_zone_response env st1 res) = st1)"
proof -
  have s: "st1 = run_zones st (frame_fields env res)"
    using first by (simp add: zone_response_run)
  have a: "zoneEntities (state_of (process_mrad_zone_response env st1 res)) = zoneEntities st1"
    and b: "zoneEntitiesByGuid (state_of (process_mrad_zone_response env st1 res))
              = zoneEntitiesByGuid st1"
    using run_zones_twice [of st "frame_fields env res"] s
    by (simp_all add: zone_response_run)
  have c: "raised (process_mrad_zone_response env st1 res)
             = raised (process_mrad_zone_response env st res)"
    by (rule zone_response_raised)
  have d: "\<forall>f \<in> set (frame_fields env res).
         zoneEntitiesByGuid st1 (fst f) \<noteq> None \<or> scan_zone_id st1 (ident_of f) = None"
    using stable_run [of _ "frame_fields env res" st] s by (simp add: stable_def)
  have e: "bindings_in_range st
        \<and> distinct (targets (zoneEntitiesByGuid st1) (frame_fields env res))
        \<longrightarrow> state_of (process_mrad_zone_response env st1 res) = st1"
    using run_zones_settled [of st "frame_fields env res"] s
    by (simp add: zone_response_run)
  from a b c d e show ?thesis by blast
qed

theorem zone_snapshot_idempotent_witness:
  "zone_name (zoneEntities (state_of (process_mrad_zone_response zones_env two_zones ''<Zones>'')) ! 0)
     = ''Office''
   \<and> mms_source_id
       (zoneEntities (state_of (process_mrad_zone_response zones_env two_zones ''<Zones>'')) ! 0)
     = ''Source_20000''
   \<and> zoneEntitiesByGuid (state_of (process_mrad_zone_response zones_env two_zones ''<Zones>''))
       ''z-1'' = Some 0
   \<and> bindings_in_range two_zones
   \<and> distinct (targets
        (zoneEntitiesByGuid (state_of (process_mrad_zone_response zones_env two_zones ''<Zones>'')))
        (frame_fields zones_env ''<Zones>''))
   \<and> state_of (process_mrad_zone_response zones_env
        (state_of (process_mrad_zone_response zones_env two_zones ''<Zones>'')) ''<Zones>'')
     = state_of (process_mrad_zone_response zones_env two_zones ''<Zones>'')"
proof -
  let ?st1 = "state_of (process_mrad_zone_response zones_env two_zones ''<Zones>'')"
  have n: "zone_name (zoneEntities ?st1 ! 0) = ''Office''" by code_simp
  have m: "mms_source_id (zoneEntities ?st1 ! 0) = ''Source_20000''" by code_simp
  have g: "zoneEntitiesByGuid ?st1 ''z-1'' = Some 0" by code_simp
  have w: "bindings_in_range two_zones"
    by (simp add: bindings_in_range_def two_zones_def add_zone_entity_def Controller_init_def)
  have d: "distinct (targets (zoneEntitiesByGuid ?st1) (frame_fields zones_env ''<Zones>''))"
    by code_simp
  from zone_snapshot_idempotent [OF refl, of zones_env two_zones "''<Zones>''"] w d
  have "state_of (process_mrad_zone_response zones_env ?st1 ''<Zones>'') = ?st1"
    by blast
  with n m g w d show ?thesis by blast
qed

end
